theory Spec2Isabelle
  imports Complex_Main "HOL-Library.Log_Nat" "HOL-Library.Multiset" "HOL-Library.Sublist"
begin

section \<open>JavaScript numbers\<close>

text \<open>
  Every quantity of the two engines is a JavaScript \<^verbatim>\<open>number\<close>, an IEEE-754 binary64
  value.  \<open>Fin x\<close> is the finite number with real value \<open>x\<close> (\<open>Fin 0\<close> is the positive
  zero), \<open>NegZero\<close> the negative zero; the remaining values are the two infinities and
  \<open>NaN\<close>.  The numbers that occur at run time are the values \<open>Fin x\<close> with \<open>x\<close> of the
  form \<open>k * 2 ^ j\<close> for integers \<open>\<bar>k\<bar> < 2 ^ 53\<close> and \<open>- 1074 \<le> j \<le> 971\<close>; every
  arithmetic operation returns the exact result rounded to the nearest such number.
\<close>

datatype jsnum = Fin real | NegZero | PosInf | NegInf | NaN

subsection \<open>Rounding\<close>

text \<open>
  The exponent of a non-zero real: the integer \<open>e\<close> with \<open>2 ^ e \<le> \<bar>x\<bar> < 2 ^ (e + 1)\<close>,
  computed from the bit length of the integral part of \<open>\<bar>x\<bar>\<close> or of its reciprocal.
\<close>

definition expo :: "real \<Rightarrow> int" where
  "expo x = (if 1 \<le> \<bar>x\<bar> then bitlen \<lfloor>\<bar>x\<bar>\<rfloor> - 1 else - bitlen (\<lceil>1 / \<bar>x\<bar>\<rceil> - 1))"

text \<open>
  The spacing of the binary64 numbers around \<open>x\<close>: 52 binary digits below the exponent,
  and \<open>2 ^ - 1074\<close> throughout the subnormal range.
\<close>

definition ulp :: "real \<Rightarrow> real" where
  "ulp x = 2 powi (max (expo x) (- 1022) - 52)"

text \<open>The nearest integer, a tie going to the even one.\<close>

definition roundEven :: "real \<Rightarrow> int" where
  "roundEven z =
     (let f = \<lfloor>z\<rfloor>; d = z - of_int f
      in if d < 1 / 2 then f else if 1 / 2 < d then f + 1 else if even f then f else f + 1)"

text \<open>
  Round to nearest, ties to even: the number a non-zero exact result \<open>x\<close> is delivered
  as.  A result that rounds to \<open>2 ^ 1024\<close> or beyond overflows to an infinity, and a
  negative result that rounds to zero is the negative zero.
\<close>

definition rd :: "real \<Rightarrow> jsnum" where
  "rd x =
     (let y = of_int (roundEven (x / ulp x)) * ulp x
      in if 2 ^ 1024 \<le> \<bar>y\<bar> then (if 0 < x then PosInf else NegInf)
         else if y = 0 \<and> x < 0 then NegZero
         else Fin y)"

text \<open>The numbers that are binary64 values: rounding leaves them unchanged.\<close>

fun isDouble :: "jsnum \<Rightarrow> bool" where
  "isDouble (Fin x) = (rd x = Fin x)"
| "isDouble _ = True"

subsection \<open>Arithmetic\<close>

fun isNaN :: "jsnum \<Rightarrow> bool" where
  "isNaN NaN = True"
| "isNaN _ = False"

fun isFinite :: "jsnum \<Rightarrow> bool" where
  "isFinite (Fin _) = True"
| "isFinite NegZero = True"
| "isFinite _ = False"

text \<open>The real value of a finite number, and the sign bit of a number.\<close>

fun realOf :: "jsnum \<Rightarrow> real" where
  "realOf (Fin a) = a"
| "realOf _ = 0"

fun signBit :: "jsnum \<Rightarrow> bool" where
  "signBit (Fin a) = (a < 0)"
| "signBit NegZero = True"
| "signBit NegInf = True"
| "signBit _ = False"

definition isZero :: "jsnum \<Rightarrow> bool" where
  "isZero a = (isFinite a \<and> realOf a = 0)"

definition signedZero :: "bool \<Rightarrow> jsnum" where
  "signedZero negative = (if negative then NegZero else Fin 0)"

definition signedInf :: "bool \<Rightarrow> jsnum" where
  "signedInf negative = (if negative then NegInf else PosInf)"

fun js_neg :: "jsnum \<Rightarrow> jsnum" where
  "js_neg (Fin a) = (if a = 0 then NegZero else Fin (- a))"
| "js_neg NegZero = Fin 0"
| "js_neg PosInf = NegInf"
| "js_neg NegInf = PosInf"
| "js_neg NaN = NaN"

text \<open>
  Addition.  An exact sum of zero is the positive zero unless both operands are the
  negative zero; the sum of the two opposite infinities is \<open>NaN\<close>.
\<close>

definition js_add :: "jsnum \<Rightarrow> jsnum \<Rightarrow> jsnum" where
  "js_add a b =
     (if isNaN a \<or> isNaN b then NaN
      else if isFinite a \<and> isFinite b then
        (if realOf a + realOf b = 0
         then (if a = NegZero \<and> b = NegZero then NegZero else Fin 0)
         else rd (realOf a + realOf b))
      else if isFinite a then b
      else if isFinite b then a
      else if a = b then a
      else NaN)"

text \<open>
  Multiplication and division.  The sign of a zero or infinite result is the exclusive
  or of the operands' signs; an infinity times zero, zero divided by zero and an infinity
  divided by an infinity are \<open>NaN\<close>.
\<close>

definition js_mul :: "jsnum \<Rightarrow> jsnum \<Rightarrow> jsnum" where
  "js_mul a b =
     (if isNaN a \<or> isNaN b then NaN
      else if isFinite a \<and> isFinite b then
        (if realOf a * realOf b = 0 then signedZero (signBit a \<noteq> signBit b)
         else rd (realOf a * realOf b))
      else if isZero a \<or> isZero b then NaN
      else signedInf (signBit a \<noteq> signBit b))"

definition js_div :: "jsnum \<Rightarrow> jsnum \<Rightarrow> jsnum" where
  "js_div a b =
     (if isNaN a \<or> isNaN b then NaN
      else if isFinite a \<and> isFinite b then
        (if realOf b = 0
         then (if realOf a = 0 then NaN else signedInf (signBit a \<noteq> signBit b))
         else if realOf a = 0 then signedZero (signBit a \<noteq> signBit b)
         else rd (realOf a / realOf b))
      else if isFinite a then signedZero (signBit a \<noteq> signBit b)
      else if isFinite b then signedInf (signBit a \<noteq> signBit b)
      else NaN)"

instantiation jsnum :: "{zero, one, plus, minus, uminus, times, inverse}"
begin

definition zero_jsnum :: jsnum where "zero_jsnum = Fin 0"
definition one_jsnum :: jsnum where "one_jsnum = Fin 1"
definition plus_jsnum :: "jsnum \<Rightarrow> jsnum \<Rightarrow> jsnum" where "plus_jsnum = js_add"
definition uminus_jsnum :: "jsnum \<Rightarrow> jsnum" where "uminus_jsnum = js_neg"
definition minus_jsnum :: "jsnum \<Rightarrow> jsnum \<Rightarrow> jsnum" where
  "minus_jsnum a b = js_add a (js_neg b)"
definition times_jsnum :: "jsnum \<Rightarrow> jsnum \<Rightarrow> jsnum" where "times_jsnum = js_mul"
definition divide_jsnum :: "jsnum \<Rightarrow> jsnum \<Rightarrow> jsnum" where "divide_jsnum = js_div"
definition inverse_jsnum :: "jsnum \<Rightarrow> jsnum" where "inverse_jsnum a = js_div (Fin 1) a"

instance ..

end

text \<open>
  Comparison operators: every comparison with \<open>NaN\<close> is false, and the two zeros are
  equal.
\<close>

fun js_lt :: "jsnum \<Rightarrow> jsnum \<Rightarrow> bool" where
  "js_lt NaN _ = False"
| "js_lt _ NaN = False"
| "js_lt PosInf _ = False"
| "js_lt _ NegInf = False"
| "js_lt NegInf _ = True"
| "js_lt _ PosInf = True"
| "js_lt a b = (realOf a < realOf b)"

fun js_le :: "jsnum \<Rightarrow> jsnum \<Rightarrow> bool" where
  "js_le NaN _ = False"
| "js_le _ NaN = False"
| "js_le NegInf _ = True"
| "js_le _ PosInf = True"
| "js_le PosInf _ = False"
| "js_le _ NegInf = False"
| "js_le a b = (realOf a \<le> realOf b)"

definition js_gt :: "jsnum \<Rightarrow> jsnum \<Rightarrow> bool" where
  "js_gt a b = js_lt b a"

definition js_ge :: "jsnum \<Rightarrow> jsnum \<Rightarrow> bool" where
  "js_ge a b = js_le b a"

text \<open>\<^verbatim>\<open>a || b\<close> on numbers: the two zeros and \<open>NaN\<close> are the falsy numbers.\<close>

definition js_or :: "jsnum \<Rightarrow> jsnum \<Rightarrow> jsnum" where
  "js_or a b = (if isZero a \<or> isNaN a then b else a)"

text \<open>\<^verbatim>\<open>Math.max\<close> of two numbers; the positive zero is the larger zero.\<close>

definition Math_max :: "jsnum \<Rightarrow> jsnum \<Rightarrow> jsnum" where
  "Math_max a b =
     (if isNaN a \<or> isNaN b then NaN
      else if js_lt a b then b
      else if js_lt b a then a
      else if a = NegZero then b
      else a)"

text \<open>
  \<^verbatim>\<open>Math.ceil\<close>, \<^verbatim>\<open>Math.floor\<close> and \<^verbatim>\<open>Math.round\<close>; the latter rounds halves
  towards positive infinity.  A negative argument that yields zero yields the negative
  zero.
\<close>

fun Math_ceil :: "jsnum \<Rightarrow> jsnum" where
  "Math_ceil (Fin a) = (if \<lceil>a\<rceil> = 0 \<and> a < 0 then NegZero else Fin (of_int \<lceil>a\<rceil>))"
| "Math_ceil x = x"

fun Math_floor :: "jsnum \<Rightarrow> jsnum" where
  "Math_floor (Fin a) = Fin (of_int \<lfloor>a\<rfloor>)"
| "Math_floor x = x"

fun Math_round :: "jsnum \<Rightarrow> jsnum" where
  "Math_round (Fin a) =
     (if \<lfloor>a + 1 / 2\<rfloor> = 0 \<and> a < 0 then NegZero else Fin (of_int \<lfloor>a + 1 / 2\<rfloor>))"
| "Math_round x = x"

section \<open>Data model\<close>

text \<open>
  Modelled from the spec: the declarations of \<^verbatim>\<open>@/types\<close> (Unit, Material,
  ProductIngredient, Product, Overhead, LaborRate, Sale, HPPResult, ForecastResult) are not
  among the source files.  The records below follow section 3 of the specification and
  the fields that the store and the two engines read and write.  A field keeps
  its source name behind a prefix naming its record (\<open>m_\<close> Material, \<open>i_\<close>
  ProductIngredient, \<open>p_\<close> Product, \<open>o_\<close> Overhead, \<open>r_\<close> LaborRate, \<open>s_\<close> Sale,
  \<open>ov_\<close> HPPOverrides, \<open>mp_\<close> a material price override, \<open>d_\<close> a material detail
  line, \<open>b_\<close> the breakdown, \<open>h_\<close> HPPResult, \<open>df_\<close> a daily forecast entry, \<open>f_\<close>
  ForecastResult), since several records share field names.
\<close>

datatype Unit = Unit_g | Unit_kg | Unit_ml | Unit_l | Unit_pcs | Unit_pack

datatype AllocationType = Fixed | Per_unit | Percentage

text \<open>
  A \<^verbatim>\<open>Date\<close> holds a time value in milliseconds since the epoch, or is an
  Invalid Date (\<open>None\<close>).
\<close>

type_synonym jsdate = "int option"

record Material =
  m_id :: string
  m_name :: string
  m_unit :: Unit
  m_pricePerUnit :: jsnum
  m_stockAmount :: jsnum

record ProductIngredient =
  i_id :: string
  i_materialId :: string
  i_quantity :: jsnum

record Product =
  p_id :: string
  p_name :: string
  p_description :: string
  p_yieldPerBatch :: jsnum
  p_laborMinutes :: jsnum
  p_ingredients :: "ProductIngredient list"

record Overhead =
  o_id :: string
  o_name :: string
  o_amount :: jsnum
  o_allocationType :: AllocationType

record LaborRate =
  r_id :: string
  r_name :: string
  r_wagePerHour :: jsnum

record Sale =
  s_id :: string
  s_productId :: string
  s_quantity :: jsnum
  s_unitPrice :: jsnum
  s_soldAt :: jsdate

record MaterialDetail =
  d_name :: string
  d_quantity :: jsnum
  d_unit :: Unit
  d_pricePerUnit :: jsnum
  d_total :: jsnum

record HPPBreakdown =
  b_materialsTotal :: jsnum
  b_materialDetails :: "MaterialDetail list"
  b_laborCost :: jsnum
  b_overheadCost :: jsnum
  b_hppPerUnit :: jsnum

record HPPResult =
  h_productId :: string
  h_productName :: string
  h_computedAt :: jsdate
  h_breakdown :: HPPBreakdown
  h_suggestedPrice :: jsnum
  h_marginPercent :: jsnum

section \<open>Costing engine\<close>

text \<open>The optional fields of \<^verbatim>\<open>HPPOverrides\<close> are options.\<close>

record MaterialPrice =
  mp_materialId :: string
  mp_pricePerUnit :: jsnum

record HPPOverrides =
  ov_materialPrices :: "MaterialPrice list option"
  ov_laborMinutes :: "jsnum option"
  ov_laborRateId :: "string option"
  ov_marginPercent :: "jsnum option"
  ov_monthlyProduction :: "jsnum option"

definition DEFAULT_MARGIN :: jsnum where
  "DEFAULT_MARGIN = Fin 30"

definition DEFAULT_MONTHLY_PRODUCTION :: jsnum where
  "DEFAULT_MONTHLY_PRODUCTION = Fin 500"

text \<open>\<^verbatim>\<open>a ?? b\<close>: the left operand unless it is undefined.\<close>

definition nullish :: "'a option \<Rightarrow> 'a \<Rightarrow> 'a" where
  "nullish a b = (case a of None \<Rightarrow> b | Some v \<Rightarrow> v)"

text \<open>The callback of \<^verbatim>\<open>product.ingredients.map\<close>: one detail line per ingredient.\<close>

definition materialDetail ::
  "Material list \<Rightarrow> HPPOverrides \<Rightarrow> Product \<Rightarrow> ProductIngredient \<Rightarrow> MaterialDetail" where
  "materialDetail materials overrides product ingredient =
     (case find (\<lambda>m. m_id m = i_materialId ingredient) materials of
        None \<Rightarrow>
          \<lparr> d_name = ''Unknown Material'',
            d_quantity = i_quantity ingredient,
            d_unit = Unit_pcs,
            d_pricePerUnit = Fin 0,
            d_total = Fin 0 \<rparr>
      | Some material \<Rightarrow>
          (let priceOverride =
                 (case ov_materialPrices overrides of
                    None \<Rightarrow> None
                  | Some prices \<Rightarrow>
                      find (\<lambda>p. mp_materialId p = i_materialId ingredient) prices);
               pricePerUnit =
                 nullish (map_option mp_pricePerUnit priceOverride) (m_pricePerUnit material);
               quantityPerUnit = i_quantity ingredient / p_yieldPerBatch product;
               total = quantityPerUnit * pricePerUnit
           in \<lparr> d_name = m_name material,
                d_quantity = quantityPerUnit,
                d_unit = m_unit material,
                d_pricePerUnit = pricePerUnit,
                d_total = total \<rparr>))"

definition materialDetails ::
  "Material list \<Rightarrow> HPPOverrides \<Rightarrow> Product \<Rightarrow> MaterialDetail list" where
  "materialDetails materials overrides product =
     map (materialDetail materials overrides product) (p_ingredients product)"

definition materialsTotal ::
  "Material list \<Rightarrow> HPPOverrides \<Rightarrow> Product \<Rightarrow> jsnum" where
  "materialsTotal materials overrides product =
     foldl (\<lambda>sum m. sum + d_total m) (Fin 0) (materialDetails materials overrides product)"

text \<open>
  The selected labor rate: an empty \<^verbatim>\<open>laborRateId\<close> is falsy, like an absent one,
  and selects the first rate; \<^verbatim>\<open>laborRates[0]\<close> of an empty list is undefined.
\<close>

definition selectLaborRate :: "LaborRate list \<Rightarrow> HPPOverrides \<Rightarrow> LaborRate option" where
  "selectLaborRate laborRates overrides =
     (case ov_laborRateId overrides of
        Some rid \<Rightarrow>
          (if rid \<noteq> [] then find (\<lambda>r. r_id r = rid) laborRates
           else (case laborRates of [] \<Rightarrow> None | r # _ \<Rightarrow> Some r))
      | None \<Rightarrow> (case laborRates of [] \<Rightarrow> None | r # _ \<Rightarrow> Some r))"

definition laborCost :: "LaborRate list \<Rightarrow> HPPOverrides \<Rightarrow> Product \<Rightarrow> jsnum" where
  "laborCost laborRates overrides product =
     (let laborMinutes = nullish (ov_laborMinutes overrides) (p_laborMinutes product);
          laborRate = selectLaborRate laborRates overrides;
          wagePerMinute = nullish (map_option r_wagePerHour laborRate) (Fin 20000) / Fin 60
      in wagePerMinute * laborMinutes)"

text \<open>The body of \<^verbatim>\<open>overheads.forEach\<close>, with the running \<^verbatim>\<open>overheadCost\<close>.\<close>

definition overheadStep :: "jsnum \<Rightarrow> jsnum \<Rightarrow> jsnum \<Rightarrow> jsnum \<Rightarrow> Overhead \<Rightarrow> jsnum" where
  "overheadStep materialsTotal' laborCost' monthlyProduction overheadCost' overhead =
     (case o_allocationType overhead of
        Fixed \<Rightarrow> overheadCost' + o_amount overhead / monthlyProduction
      | Per_unit \<Rightarrow> overheadCost' + o_amount overhead
      | Percentage \<Rightarrow>
          overheadCost' + (materialsTotal' + laborCost') * (o_amount overhead / Fin 100))"

definition overheadCost :: "jsnum \<Rightarrow> jsnum \<Rightarrow> jsnum \<Rightarrow> Overhead list \<Rightarrow> jsnum" where
  "overheadCost materialsTotal' laborCost' monthlyProduction overheads =
     foldl (overheadStep materialsTotal' laborCost' monthlyProduction) (Fin 0) overheads"

text \<open>
  \<^verbatim>\<open>calculateHPP\<close>.  The three snapshots that the source fetches from the store and
  the clock read by \<^verbatim>\<open>new Date()\<close> are parameters.
\<close>

definition calculateHPP ::
  "jsdate \<Rightarrow> Material list \<Rightarrow> Overhead list \<Rightarrow> LaborRate list \<Rightarrow>
   Product \<Rightarrow> HPPOverrides \<Rightarrow> HPPResult" where
  "calculateHPP now materials overheads laborRates product overrides =
     (let marginPercent = nullish (ov_marginPercent overrides) DEFAULT_MARGIN;
          monthlyProduction = nullish (ov_monthlyProduction overrides) DEFAULT_MONTHLY_PRODUCTION;
          materialDetails' = materialDetails materials overrides product;
          materialsTotal' = materialsTotal materials overrides product;
          laborCost' = laborCost laborRates overrides product;
          overheadCost' = overheadCost materialsTotal' laborCost' monthlyProduction overheads;
          hppPerUnit = materialsTotal' + laborCost' + overheadCost';
          suggestedPrice = hppPerUnit / (Fin 1 - marginPercent / Fin 100)
      in \<lparr> h_productId = p_id product,
           h_productName = p_name product,
           h_computedAt = now,
           h_breakdown =
             \<lparr> b_materialsTotal = materialsTotal',
               b_materialDetails = materialDetails',
               b_laborCost = laborCost',
               b_overheadCost = overheadCost',
               b_hppPerUnit = hppPerUnit \<rparr>,
           h_suggestedPrice = Math_ceil (suggestedPrice / Fin 100) * Fin 100,
           h_marginPercent = marginPercent \<rparr>)"

text \<open>An absent \<^verbatim>\<open>overrides\<close> argument defaults to the empty object.\<close>

definition noOverrides :: HPPOverrides where
  "noOverrides =
     \<lparr> ov_materialPrices = None, ov_laborMinutes = None, ov_laborRateId = None,
       ov_marginPercent = None, ov_monthlyProduction = None \<rparr>"


section \<open>Forecasting engine\<close>

subsection \<open>Dates\<close>

text \<open>
  The time value of a valid \<^verbatim>\<open>Date\<close> lies within 8.64e15 milliseconds of the epoch;
  an operation that leaves this range yields an Invalid Date.
\<close>

datatype js_error = RangeError

definition msPerDay :: int where
  "msPerDay = 86400000"

definition maxTime :: int where
  "maxTime = 8640000000000000"

definition TimeClip :: "int \<Rightarrow> jsdate" where
  "TimeClip t = (if \<bar>t\<bar> \<le> maxTime then Some t else None)"

text \<open>
  The local time zone of the environment: the offset of local time from UTC in
  milliseconds, as a function of the UTC time value, and the offset that the environment
  uses to interpret a local time value (the two differ around a change of offset such as
  the start or end of daylight saving time).  An offset is less than a day in magnitude;
  any other value is read as no offset.
\<close>

record timezone =
  tz_offsetAtUTC :: "int \<Rightarrow> int"
  tz_offsetAtLocal :: "int \<Rightarrow> int"

definition LocalTZA :: "timezone \<Rightarrow> int \<Rightarrow> bool \<Rightarrow> int" where
  "LocalTZA tz t isUTC =
     (let offset = (if isUTC then tz_offsetAtUTC tz t else tz_offsetAtLocal tz t)
      in if \<bar>offset\<bar> < msPerDay then offset else 0)"

definition LocalTime :: "timezone \<Rightarrow> int \<Rightarrow> int" where
  "LocalTime tz t = t + LocalTZA tz t True"

definition UTC :: "timezone \<Rightarrow> int \<Rightarrow> int" where
  "UTC tz t = t - LocalTZA tz t False"

text \<open>
  \<^verbatim>\<open>d.setDate(d.getDate() + n)\<close> on a copy of \<open>d\<close>: the local time is moved by \<open>n\<close>
  calendar days, keeping the local time of day, and converted back to UTC.
\<close>

definition addDays :: "timezone \<Rightarrow> jsdate \<Rightarrow> int \<Rightarrow> jsdate" where
  "addDays tz d n =
     (case d of
        None \<Rightarrow> None
      | Some t \<Rightarrow> TimeClip (UTC tz (LocalTime tz t + n * msPerDay)))"

text \<open>The number a \<^verbatim>\<open>Date\<close> converts to in a comparison.\<close>

definition timeValue :: "jsdate \<Rightarrow> jsnum" where
  "timeValue d = (case d of None \<Rightarrow> NaN | Some t \<Rightarrow> Fin (of_int t))"

text \<open>
  \<^verbatim>\<open>d.toISOString().split('T')[0]\<close>: the UTC calendar date, which is represented by
  its day number since the epoch; \<^verbatim>\<open>toISOString\<close> throws a RangeError on an Invalid
  Date.
\<close>

definition isoDate :: "jsdate \<Rightarrow> js_error + int" where
  "isoDate d = (case d of None \<Rightarrow> Inl RangeError | Some t \<Rightarrow> Inr (t div msPerDay))"

text \<open>
  \<^verbatim>\<open>d.getDay()\<close>: the day of the week in local time, 0 for Sunday; the epoch fell on
  a Thursday.
\<close>

definition getDay :: "timezone \<Rightarrow> jsdate \<Rightarrow> jsnum" where
  "getDay tz d =
     (case d of
        None \<Rightarrow> NaN
      | Some t \<Rightarrow> Fin (of_int ((LocalTime tz t div msPerDay + 4) mod 7)))"

subsection \<open>Sales history\<close>

record DailySale =
  ds_date :: jsdate
  ds_qty :: jsnum

record DailyForecast =
  df_date :: int
  df_quantity :: jsnum

datatype Trend = Up | Down | Stable

record ForecastResult =
  f_productId :: string
  f_productName :: string
  f_horizon :: jsnum
  f_dailyForecast :: "DailyForecast list"
  f_totalForecast :: jsnum
  f_currentStock :: jsnum
  f_recommendedRestock :: jsnum
  f_averageDailySales :: jsnum
  f_trend :: Trend
  f_trendPercent :: jsnum

text \<open>The sales of the product within the last 90 days.\<close>

definition recentSales :: "timezone \<Rightarrow> jsdate \<Rightarrow> Sale list \<Rightarrow> string \<Rightarrow> Sale list" where
  "recentSales tz now allSales productId =
     (let sales = filter (\<lambda>s. s_productId s = productId) allSales;
          ninetyDaysAgo = addDays tz now (- 90)
      in filter (\<lambda>s. let saleDate = s_soldAt s
                     in js_ge (timeValue saleDate) (timeValue ninetyDaysAgo)
                        \<and> js_le (timeValue saleDate) (timeValue now)) sales)"

text \<open>\<^verbatim>\<open>recentSales.forEach\<close>: the quantity sold per calendar day, keyed by the date.\<close>

fun aggregateSales :: "(int \<rightharpoonup> jsnum) \<Rightarrow> Sale list \<Rightarrow> js_error + (int \<rightharpoonup> jsnum)" where
  "aggregateSales dailySales [] = Inr dailySales"
| "aggregateSales dailySales (sale # rest) =
     (case isoDate (s_soldAt sale) of
        Inl e \<Rightarrow> Inl e
      | Inr dateKey \<Rightarrow>
          aggregateSales
            (dailySales(dateKey \<mapsto> nullish (dailySales dateKey) (Fin 0) + s_quantity sale))
            rest)"

text \<open>The loop \<^verbatim>\<open>for (let i = 89; i >= 0; i--)\<close> over the given day offsets.\<close>

fun salesArrayFrom ::
  "timezone \<Rightarrow> jsdate \<Rightarrow> (int \<rightharpoonup> jsnum) \<Rightarrow> nat list \<Rightarrow> js_error + DailySale list" where
  "salesArrayFrom tz now dailySales [] = Inr []"
| "salesArrayFrom tz now dailySales (i # is) =
     (let date = addDays tz now (- int i)
      in case isoDate date of
           Inl e \<Rightarrow> Inl e
         | Inr dateKey \<Rightarrow>
             (case salesArrayFrom tz now dailySales is of
                Inl e \<Rightarrow> Inl e
              | Inr rest \<Rightarrow>
                  Inr (\<lparr> ds_date = date, ds_qty = nullish (dailySales dateKey) (Fin 0) \<rparr>
                       # rest)))"

definition salesArray ::
  "timezone \<Rightarrow> jsdate \<Rightarrow> (int \<rightharpoonup> jsnum) \<Rightarrow> js_error + DailySale list" where
  "salesArray tz now dailySales = salesArrayFrom tz now dailySales (rev [0..<90])"

text \<open>The dense daily series of the last 90 days, oldest first.\<close>

definition dailySeries ::
  "timezone \<Rightarrow> jsdate \<Rightarrow> Sale list \<Rightarrow> string \<Rightarrow> js_error + DailySale list" where
  "dailySeries tz now allSales productId =
     (case aggregateSales Map.empty (recentSales tz now allSales productId) of
        Inl e \<Rightarrow> Inl e
      | Inr dailySales \<Rightarrow> salesArray tz now dailySales)"

subsection \<open>Moving average and regression\<close>

text \<open>
  \<^verbatim>\<open>data.slice(-window)\<close> is the whole array when \<open>window\<close> is 0.  The length of an
  array is below \<open>2 ^ 32\<close> and so is a binary64 value.
\<close>

definition calculateMovingAverage :: "jsnum list \<Rightarrow> nat \<Rightarrow> jsnum" where
  "calculateMovingAverage data window =
     (if length data < window
      then js_or (foldl (\<lambda>a b. a + b) (Fin 0) data / Fin (of_nat (length data))) (Fin 0)
      else (let windowData = (if window = 0 then data else drop (length data - window) data)
            in foldl (\<lambda>a b. a + b) (Fin 0) windowData / Fin (of_nat window)))"

record Regression =
  lr_slope :: jsnum
  lr_intercept :: jsnum

definition linearRegression :: "(jsnum \<times> jsnum) list \<Rightarrow> Regression" where
  "linearRegression data =
     (let n = Fin (of_nat (length data))
      in if length data < 2 then \<lparr> lr_slope = Fin 0, lr_intercept = Fin 0 \<rparr>
         else
           (let (sumX, sumY, sumXY, sumXX) =
                  foldl (\<lambda>(sumX, sumY, sumXY, sumXX) (x, y).
                           (sumX + x, sumY + y, sumXY + x * y, sumXX + x * x))
                    (Fin 0, Fin 0, Fin 0, Fin 0) data;
                slope = (n * sumXY - sumX * sumY) / (n * sumXX - sumX * sumX);
                intercept = (sumY - slope * sumX) / n
            in \<lparr> lr_slope = (if isNaN slope then Fin 0 else slope),
                 lr_intercept = (if isNaN intercept then Fin 0 else intercept) \<rparr>))"

subsection \<open>The forecast\<close>

text \<open>
  The loop \<^verbatim>\<open>for (let i = 1; i <= horizonDays; i++)\<close> with the list built so far.  It
  ends when \<open>i\<close> passes the horizon, or with the RangeError of \<^verbatim>\<open>toISOString\<close> once
  the forecast date leaves the range of valid dates, which happens after finitely many
  days whatever the horizon; the counter therefore stays far below \<open>2 ^ 53\<close> and is
  an exact number.  The literal \<^verbatim>\<open>1.3\<close> denotes the binary64 number nearest to 13/10.
\<close>

function forecastLoop ::
  "jsdate \<Rightarrow> timezone \<Rightarrow> jsnum \<Rightarrow> jsnum \<Rightarrow> jsnum \<Rightarrow> int \<Rightarrow> DailyForecast list \<Rightarrow>
   js_error + DailyForecast list" where
  "forecastLoop now tz baseValue slope horizonDays i dailyForecast =
     (if js_le (Fin (of_int i)) horizonDays
      then (case isoDate (addDays tz now i) of
              Inl e \<Rightarrow> Inl e
            | Inr dateKey \<Rightarrow>
                (let forecastDate = addDays tz now i;
                     dayOfWeek = getDay tz forecastDate;
                     weekendFactor =
                       (if dayOfWeek = Fin 0 \<or> dayOfWeek = Fin 6 then rd (13 / 10) else Fin 1);
                     trendFactor =
                       Fin 1 + (slope * Fin (of_int i)) / Math_max baseValue (Fin 1);
                     predictedQty =
                       Math_max (Fin 0) (Math_round (baseValue * trendFactor * weekendFactor))
                 in forecastLoop now tz baseValue slope horizonDays (i + 1)
                      (dailyForecast @ [\<lparr> df_date = dateKey, df_quantity = predictedQty \<rparr>])))
      else Inr dailyForecast)"
  by pat_completeness auto
termination
  by (relation "measure (\<lambda>(now, tz, baseValue, slope, horizonDays, i, dailyForecast).
        case now of
          None \<Rightarrow> 0
        | Some t \<Rightarrow> nat (maxTime + 2 * msPerDay + 1 - (t + i * msPerDay)))")
    (auto simp: isoDate_def addDays_def TimeClip_def UTC_def LocalTime_def LocalTZA_def
          msPerDay_def Let_def algebra_simps
          split: option.splits if_splits)

text \<open>
  The estimate of the current stock: the callback of \<^verbatim>\<open>product.ingredients.reduce\<close>
  and the reduction from 0.
\<close>

definition stockStep :: "Material list \<Rightarrow> Product \<Rightarrow> jsnum \<Rightarrow> ProductIngredient \<Rightarrow> jsnum" where
  "stockStep materials product total' ing =
     (case find (\<lambda>m. m_id m = i_materialId ing) materials of
        None \<Rightarrow> total'
      | Some material \<Rightarrow>
          total' + Math_floor (m_stockAmount material / i_quantity ing)
                  * p_yieldPerBatch product)"

definition stockSum :: "Material list \<Rightarrow> Product \<Rightarrow> jsnum" where
  "stockSum materials product =
     foldl (stockStep materials product) (Fin 0) (p_ingredients product)"

definition currentStock :: "Material list \<Rightarrow> Product \<Rightarrow> jsnum" where
  "currentStock materials product = js_or (stockSum materials product) (Fin 100)"

text \<open>
  \<^verbatim>\<open>calculateForecast\<close>.  The snapshots fetched from the store, the clock and the
  time zone are parameters; an omitted \<^verbatim>\<open>horizonDays\<close> or \<^verbatim>\<open>safetyDays\<close> is
  \<open>None\<close>.  The result is \<open>Inr None\<close> for the \<^verbatim>\<open>null\<close> of the source and \<open>Inl\<close> for an
  exception.
\<close>

definition calculateForecast ::
  "jsdate \<Rightarrow> timezone \<Rightarrow> Product list \<Rightarrow> Sale list \<Rightarrow> Material list \<Rightarrow>
   string \<Rightarrow> jsnum option \<Rightarrow> jsnum option \<Rightarrow> js_error + ForecastResult option" where
  "calculateForecast now tz products allSales materials productId horizonDays' safetyDays' =
     (let horizonDays = nullish horizonDays' (Fin 30);
          safetyDays = nullish safetyDays' (Fin 7)
      in case find (\<lambda>p. p_id p = productId) products of
           None \<Rightarrow> Inr None
         | Some product \<Rightarrow>
             (case dailySeries tz now allSales productId of
                Inl e \<Rightarrow> Inl e
              | Inr salesArray' \<Rightarrow>
                  (let ma7 = calculateMovingAverage (map ds_qty salesArray') 7;
                       ma30 = calculateMovingAverage (map ds_qty salesArray') 30;
                       slope = lr_slope (linearRegression
                                 (map (\<lambda>(i, s). (Fin (of_nat i), ds_qty s))
                                    (enumerate 0 salesArray')));
                       trendPercent = (slope / Math_max ma30 (Fin 1)) * Fin 100 * Fin 30;
                       trend = (if js_gt trendPercent (Fin 5) then Up
                                else if js_lt trendPercent (Fin (- 5)) then Down
                                else Stable);
                       baseValue = ma7
                   in case forecastLoop now tz baseValue slope horizonDays 1 [] of
                        Inl e \<Rightarrow> Inl e
                      | Inr dailyForecast \<Rightarrow>
                          (let totalForecast =
                                 foldl (\<lambda>sum d. sum + df_quantity d) (Fin 0) dailyForecast;
                               currentStock' = currentStock materials product;
                               safetyBuffer = Math_ceil (ma7 * safetyDays);
                               recommendedRestock =
                                 Math_max (Fin 0) (totalForecast - currentStock' + safetyBuffer)
                           in Inr (Some
                                \<lparr> f_productId = productId,
                                  f_productName = p_name product,
                                  f_horizon = horizonDays,
                                  f_dailyForecast = dailyForecast,
                                  f_totalForecast = totalForecast,
                                  f_currentStock = currentStock',
                                  f_recommendedRestock = recommendedRestock,
                                  f_averageDailySales = ma7,
                                  f_trend = trend,
                                  f_trendPercent =
                                    Math_round (trendPercent * Fin 10) / Fin 10 \<rparr>)))))"

section \<open>Notions used in the statements\<close>

text \<open>What one overhead rule adds to the running overhead cost.\<close>

definition overheadContribution :: "jsnum \<Rightarrow> jsnum \<Rightarrow> jsnum \<Rightarrow> Overhead \<Rightarrow> jsnum" where
  "overheadContribution mt lc mp overhead =
     (case o_allocationType overhead of
        Fixed \<Rightarrow> o_amount overhead / mp
      | Per_unit \<Rightarrow> o_amount overhead
      | Percentage \<Rightarrow> (mt + lc) * (o_amount overhead / Fin 100))"

text \<open>
  The clock readings \<open>t\<close> and numbers of forecast days \<open>n\<close> for which every date that
  \<^verbatim>\<open>calculateForecast\<close> forms, from 89 days before \<open>t\<close> to \<open>n\<close> days after it, is a valid
  date in every time zone (a conversion between local time and UTC moves a time value by
  less than a day).
\<close>

definition datesInRange :: "int \<Rightarrow> int \<Rightarrow> bool" where
  "datesInRange t n =
     (- maxTime + 91 * msPerDay \<le> t \<and> t + (max n 0 + 2) * msPerDay \<le> maxTime)"

text \<open>The numbers that are not negative: the zeros, the positive numbers and \<open>NaN\<close>.\<close>

fun nonNegative :: "jsnum \<Rightarrow> bool" where
  "nonNegative (Fin a) = (0 \<le> a)"
| "nonNegative NegInf = False"
| "nonNegative _ = True"

section \<open>Fixtures\<close>

text \<open>
  Concrete snapshots on which the theorems below are instantiated: one product made of
  100 g of flour at 12 per gram, yield 10, 30 labor minutes at 25000 per hour.
\<close>

definition exFlour :: Material where
  "exFlour = \<lparr> m_id = ''m1'', m_name = ''Tepung Terigu'', m_unit = Unit_g,
               m_pricePerUnit = Fin 12, m_stockAmount = Fin 5000 \<rparr>"

definition exBaker :: LaborRate where
  "exBaker = \<lparr> r_id = ''r1'', r_name = ''Baker'', r_wagePerHour = Fin 25000 \<rparr>"

definition exIngredient :: "string \<Rightarrow> jsnum \<Rightarrow> ProductIngredient" where
  "exIngredient mid q = \<lparr> i_id = ''i1'', i_materialId = mid, i_quantity = q \<rparr>"

definition exProduct :: "jsnum \<Rightarrow> ProductIngredient list \<Rightarrow> Product" where
  "exProduct yield ings =
     \<lparr> p_id = ''p1'', p_name = ''Brownies'', p_description = [],
       p_yieldPerBatch = yield, p_laborMinutes = Fin 30, p_ingredients = ings \<rparr>"

definition exOverhead :: "AllocationType \<Rightarrow> jsnum \<Rightarrow> Overhead" where
  "exOverhead ty a =
     \<lparr> o_id = ''o1'', o_name = ''Listrik'', o_amount = a, o_allocationType = ty \<rparr>"

definition marginOverride :: "jsnum \<Rightarrow> HPPOverrides" where
  "marginOverride m = noOverrides \<lparr> ov_marginPercent := Some m \<rparr>"

text \<open>
  A clock reading (14 November 2023, 22:13:20 UTC), a sale, and two time zones: UTC
  and a zone seven hours ahead of it.
\<close>

definition exNow :: int where
  "exNow = 1700000000000"

definition exSale :: "int \<Rightarrow> jsnum \<Rightarrow> Sale" where
  "exSale t q = \<lparr> s_id = ''s1'', s_productId = ''p1'', s_quantity = q,
                 s_unitPrice = Fin 20000, s_soldAt = Some t \<rparr>"

definition fixedZone :: "int \<Rightarrow> timezone" where
  "fixedZone offset = \<lparr> tz_offsetAtUTC = (\<lambda>t. offset), tz_offsetAtLocal = (\<lambda>t. offset) \<rparr>"

definition exZone :: timezone where
  "exZone = fixedZone 25200000"

section \<open>Properties of the number model\<close>

subsection \<open>Exponent and spacing\<close>

lemma bitlen_numeral [simp]:
  "bitlen (numeral (Num.Bit0 k)) = bitlen (numeral k) + 1"
  "bitlen (numeral (Num.Bit1 k)) = bitlen (numeral k) + 1"
  "bitlen (numeral Num.One) = 1"
  "bitlen 1 = 1"
  by (subst compute_bitlen, simp)+

lemma expo_bounds:
  assumes "x \<noteq> 0"
  shows "2 powi (expo x) \<le> \<bar>x\<bar>" and "\<bar>x\<bar> < 2 powi (expo x + 1)"
proof -
  have "2 powi (expo x) \<le> \<bar>x\<bar> \<and> \<bar>x\<bar> < 2 powi (expo x + 1)"
  proof (cases "1 \<le> \<bar>x\<bar>")
    case True
    define n where "n = \<lfloor>\<bar>x\<bar>\<rfloor>"
    have n: "0 < n" "of_int n \<le> \<bar>x\<bar>" "\<bar>x\<bar> < of_int n + 1"
      using True unfolding n_def by linarith+
    have b: "1 \<le> bitlen n" using n(1) by (simp add: bitlen_alt_def)
    have e: "expo x = bitlen n - 1" using True by (simp add: expo_def n_def)
    from bitlen_bounds [OF n(1)] have bb: "2 ^ nat (bitlen n - 1) \<le> n" "n < 2 ^ nat (bitlen n)"
      by simp_all
    have "(2::real) powi (bitlen n - 1) = of_int (2 ^ nat (bitlen n - 1))"
      using b by (simp add: power_int_def)
    also have "\<dots> \<le> of_int n" using bb(1) by (simp only: of_int_le_iff)
    finally have lo: "2 powi (expo x) \<le> \<bar>x\<bar>" using n(2) e by simp
    have "n + 1 \<le> 2 ^ nat (bitlen n)" using bb(2) by simp
    then have "of_int (n + 1) \<le> (of_int (2 ^ nat (bitlen n)) :: real)"
      by (simp only: of_int_le_iff)
    also have "\<dots> = 2 powi (bitlen n)" using b by (simp add: power_int_def)
    finally have "\<bar>x\<bar> < 2 powi (expo x + 1)" using n(3) e by simp
    with lo show ?thesis by simp
  next
    case False
    define y where "y = 1 / \<bar>x\<bar>"
    have y: "1 < y" using False assms by (simp add: y_def)
    define m where "m = \<lceil>y\<rceil> - 1"
    have m: "0 < m" "of_int m < y" "y \<le> of_int m + 1"
      using y unfolding m_def by linarith+
    have b: "1 \<le> bitlen m" using m(1) by (simp add: bitlen_alt_def)
    have e: "expo x = - bitlen m" using False by (simp add: expo_def m_def y_def)
    from bitlen_bounds [OF m(1)] have bb: "2 ^ nat (bitlen m - 1) \<le> m" "m < 2 ^ nat (bitlen m)"
      by simp_all
    have "(2::real) powi (bitlen m - 1) = of_int (2 ^ nat (bitlen m - 1))"
      using b by (simp add: power_int_def)
    also have "\<dots> \<le> of_int m" using bb(1) by (simp only: of_int_le_iff)
    finally have lo: "2 powi (bitlen m - 1) < y" using m(2) by simp
    have "m + 1 \<le> 2 ^ nat (bitlen m)" using bb(2) by simp
    then have "of_int (m + 1) \<le> (of_int (2 ^ nat (bitlen m)) :: real)"
      by (simp only: of_int_le_iff)
    also have "\<dots> = 2 powi (bitlen m)" using b by (simp add: power_int_def)
    finally have hi: "y \<le> 2 powi (bitlen m)" using m(3) by simp
    have x: "\<bar>x\<bar> = 1 / y" "0 < y" using assms by (simp_all add: y_def)
    have p: "(0::real) < 2 powi (bitlen m)" "(0::real) < 2 powi (bitlen m - 1)" by simp_all
    have "2 powi (- bitlen m) = 1 / (2::real) powi (bitlen m)"
      by (simp add: power_int_minus field_simps)
    also have "\<dots> \<le> 1 / y" using hi x(2) by (simp add: frac_le)
    finally have A: "2 powi (expo x) \<le> \<bar>x\<bar>" using e x by simp
    have "1 / y < 1 / (2::real) powi (bitlen m - 1)"
      using lo p(2) by (simp add: frac_less2)
    also have "\<dots> = 2 powi (- (bitlen m - 1))"
      using power_int_minus [of "2::real" "bitlen m - 1"] by (simp add: divide_inverse)
    finally have B: "\<bar>x\<bar> < 2 powi (expo x + 1)" using e x by simp
    from A B show ?thesis by simp
  qed
  then show "2 powi (expo x) \<le> \<bar>x\<bar>" and "\<bar>x\<bar> < 2 powi (expo x + 1)" by simp_all
qed


lemma powi_less_cancel: "(2::real) powi a < 2 powi b \<Longrightarrow> a < b"
  using power_int_increasing [of b a "2::real"] by (cases "a < b") auto

lemma powi_le_cancel: "(2::real) powi a \<le> 2 powi b \<Longrightarrow> a \<le> b"
  using power_int_strict_increasing [of b a "2::real"] by (cases "a \<le> b") auto

lemma expo_le:
  assumes "x \<noteq> 0" and "\<bar>x\<bar> < 2 powi (k + 1)"
  shows "expo x \<le> k"
proof -
  have "(2::real) powi (expo x) < 2 powi (k + 1)"
    using expo_bounds(1) [OF assms(1)] assms(2) by linarith
  then have "expo x < k + 1" by (rule powi_less_cancel)
  then show ?thesis by simp
qed

lemma expo_ge:
  assumes "2 powi k \<le> \<bar>x\<bar>"
  shows "k \<le> expo x"
proof -
  have "0 < \<bar>x\<bar>" by (rule less_le_trans [OF _ assms]) simp
  then have x: "x \<noteq> 0" by simp
  have "(2::real) powi k < 2 powi (expo x + 1)"
    using expo_bounds(2) [OF x] assms by linarith
  then have "k < expo x + 1" by (rule powi_less_cancel)
  then show ?thesis by simp
qed

lemma roundEven_of_int [simp]: "roundEven (of_int n) = n"
  by (simp add: roundEven_def)

lemma roundEven_error: "\<bar>of_int (roundEven z) - z\<bar> \<le> 1 / 2"
proof -
  have "of_int \<lfloor>z\<rfloor> \<le> z" "z < of_int \<lfloor>z\<rfloor> + 1" by linarith+
  then show ?thesis by (auto simp: roundEven_def Let_def)
qed

lemma roundEven_floor_ceiling: "\<lfloor>z\<rfloor> \<le> roundEven z" "roundEven z \<le> \<lceil>z\<rceil>"
proof -
  show "\<lfloor>z\<rfloor> \<le> roundEven z" by (simp add: roundEven_def Let_def)
  have "\<lfloor>z\<rfloor> + 1 \<le> \<lceil>z\<rceil>" if "z \<noteq> of_int \<lfloor>z\<rfloor>"
    using that by (metis ceiling_altdef order_refl of_int_floor_cancel)
  moreover have "\<lfloor>z\<rfloor> \<le> \<lceil>z\<rceil>" by linarith
  ultimately show "roundEven z \<le> \<lceil>z\<rceil>"
    by (auto simp: roundEven_def Let_def)
qed

lemma roundEven_nonneg: "0 \<le> z \<Longrightarrow> 0 \<le> roundEven z"
  using roundEven_floor_ceiling(1) [of z] by (meson order_trans zero_le_floor)

lemma roundEven_nonpos: "z \<le> 0 \<Longrightarrow> roundEven z \<le> 0"
  using roundEven_floor_ceiling(2) [of z] by (meson order_trans ceiling_le_zero)

lemma roundEven_abs_le:
  assumes "\<bar>z\<bar> \<le> of_int N"
  shows "\<bar>roundEven z\<bar> \<le> N"
proof -
  have "- N \<le> \<lfloor>z\<rfloor>" using assms by (simp add: le_floor_iff abs_le_iff)
  moreover have "\<lceil>z\<rceil> \<le> N" using assms by (simp add: ceiling_le_iff abs_le_iff)
  ultimately show ?thesis
    using roundEven_floor_ceiling [of z] by linarith
qed

lemma ulp_pos [simp]: "0 < ulp x"
  by (simp add: ulp_def)

lemma ulp_nonzero [simp]: "ulp x \<noteq> 0"
  using ulp_pos [of x] by (simp del: ulp_pos)

lemma ulp_nonneg [simp]: "0 \<le> ulp x"
  using ulp_pos [of x] by (simp del: ulp_pos)

lemma powi_add2: "(2::real) powi (a + b) = 2 powi a * 2 powi b"
  by (rule power_int_add) simp

lemma roundEven_zero [simp]: "roundEven 0 = 0"
  by (simp add: roundEven_def)

lemma rd_zero [simp]: "rd 0 = Fin 0"
  by (simp add: rd_def)

lemma rd_repr:
  assumes k: "\<bar>k\<bar> \<le> 2 ^ 53" and j: "- 1074 \<le> j"
    and x: "x = of_int k * 2 powi j" and b: "\<bar>x\<bar> < 2 ^ 1024"
  shows "rd x = Fin x"
proof (cases "k = 0")
  case True
  then show ?thesis by (simp add: x)
next
  case False
  have x0: "x \<noteq> 0" using False by (simp add: x)
  define E where "E = max (expo x) (- 1022)"
  define U where "U = ulp x"
  have U: "U = 2 powi (E - 52)" by (simp add: U_def ulp_def E_def)
  have U0: "U \<noteq> 0" by (simp add: U_def)
  have "\<exists>n::int. x / U = of_int n"
  proof (cases "E - 52 \<le> j")
    case True
    have "(2::real) powi j = 2 powi (E - 52) * 2 powi (j - (E - 52))"
      using powi_add2 [of "E - 52" "j - (E - 52)"] by simp
    also have "(2::real) powi (j - (E - 52)) = 2 ^ nat (j - (E - 52))"
      using True by (simp add: power_int_def)
    finally have "of_int k * 2 powi j = of_int (k * 2 ^ nat (j - (E - 52))) * U"
      by (simp add: U)
    then have "x = of_int (k * 2 ^ nat (j - (E - 52))) * U"
      using x by simp
    then have "x / U = of_int (k * 2 ^ nat (j - (E - 52)))"
      using U0 by simp
    then show ?thesis by blast
  next
    case False
    then have E: "E = expo x" "j + 53 \<le> expo x" using j by (auto simp: E_def)
    have ax: "\<bar>x\<bar> = \<bar>of_int k\<bar> * 2 powi j" by (simp add: x abs_mult)
    also have "\<dots> \<le> 2 ^ 53 * 2 powi j"
    proof (rule mult_right_mono)
      show "\<bar>of_int k :: real\<bar> \<le> 2 ^ 53" using k by (simp flip: of_int_abs)
      show "(0::real) \<le> 2 powi j" by simp
    qed
    also have "\<dots> = 2 powi (j + 53)" by (simp add: power_int_add)
    finally have le: "\<bar>x\<bar> \<le> 2 powi (j + 53)" .
    have "2 powi (expo x) \<le> \<bar>x\<bar>" by (rule expo_bounds(1) [OF x0])
    with le have "(2::real) powi (expo x) \<le> 2 powi (j + 53)" by linarith
    then have "expo x \<le> j + 53" by (rule powi_le_cancel)
    with E have e: "expo x = j + 53" by simp
    have "2 powi (j + 53) \<le> \<bar>x\<bar>"
      using expo_bounds(1) [OF x0] by (simp only: e)
    then have "2 powi (j + 53) \<le> \<bar>of_int k\<bar> * (2::real) powi j"
      by (simp only: ax)
    then have "2 ^ 53 * (2::real) powi j \<le> \<bar>of_int k\<bar> * 2 powi j"
      by (simp add: power_int_add)
    then have "(2::real) ^ 53 \<le> \<bar>of_int k\<bar>" by simp
    then have "2 ^ 53 \<le> \<bar>k\<bar>" by (simp flip: of_int_abs)
    with k have "\<bar>k\<bar> = 2 ^ 53" by simp
    then have "k = 2 ^ 53 \<or> k = - (2 ^ 53)" by linarith
    then have "even k" by auto
    then obtain h where h: "k = 2 * h" by (auto elim: evenE)
    have "E - 52 = j + 1" unfolding E(1) e by simp
    then have "U = 2 powi (j + 1)" unfolding U by (simp only:)
    also have "\<dots> = 2 powi j * 2" using powi_add2 [of j 1] by simp
    finally have "of_int k * 2 powi j = of_int h * U" by (simp add: h)
    then have "x = of_int h * U" using x by simp
    then have "x / U = of_int h" using U0 by simp
    then show ?thesis by blast
  qed
  then obtain n :: int where n: "x / ulp x = of_int n" unfolding U_def by blast
  have "of_int (roundEven (x / ulp x)) * ulp x = x / ulp x * ulp x"
    by (simp only: n roundEven_of_int)
  also have "\<dots> = x" by simp
  finally show ?thesis using b x0 by (simp add: rd_def Let_def)
qed

lemma quotient_ulp_bound: "\<bar>x / ulp x\<bar> \<le> 2 ^ 53"
proof (cases "x = 0")
  case True
  then show ?thesis by simp
next
  case False
  define E where "E = max (expo x) (- 1022)"
  have u: "ulp x = 2 powi (E - 52)" by (simp add: ulp_def E_def)
  have "\<bar>x\<bar> < 2 powi (expo x + 1)" by (rule expo_bounds(2) [OF False])
  also have "\<dots> \<le> 2 powi (E + 1)" by (intro power_int_increasing) (simp_all add: E_def)
  also have "E + 1 = (E - 52) + 53" by simp
  also have "(2::real) powi ((E - 52) + 53) = 2 powi (E - 52) * 2 powi 53"
    by (rule powi_add2)
  finally have "\<bar>x\<bar> < ulp x * 2 ^ 53" unfolding u by simp
  then have "\<bar>x\<bar> / ulp x < 2 ^ 53"
    using ulp_pos [of x] by (simp add: pos_divide_less_eq mult.commute)
  then show ?thesis using ulp_pos [of x] by (simp add: abs_divide)
qed

lemma rd_Fin_repr:
  assumes "rd x = Fin y"
  shows "\<exists>k j. \<bar>k\<bar> \<le> 2 ^ 53 \<and> - 1074 \<le> j \<and> y = of_int k * 2 powi j \<and> \<bar>y\<bar> < 2 ^ 1024"
proof -
  define n where "n = roundEven (x / ulp x)"
  have y: "y = of_int n * ulp x" and b: "\<bar>y\<bar> < 2 ^ 1024"
    using assms by (auto simp: rd_def Let_def n_def split: if_splits)
  have "\<bar>x / ulp x\<bar> \<le> of_int (2 ^ 53)" using quotient_ulp_bound [of x] by simp
  then have n: "\<bar>n\<bar> \<le> 2 ^ 53" unfolding n_def by (rule roundEven_abs_le)
  have "ulp x = 2 powi (max (expo x) (- 1022) - 52)" by (simp add: ulp_def)
  moreover have "- 1074 \<le> max (expo x) (- 1022) - 52" by simp
  ultimately show ?thesis using n y b
    by (intro exI [of _ n] exI [of _ "max (expo x) (- 1022) - 52"]) simp
qed

lemma rd_idem: "rd x = Fin y \<Longrightarrow> rd y = Fin y"
  using rd_Fin_repr [of x y] rd_repr by blast

lemma rd_of_int: "\<bar>n\<bar> \<le> 2 ^ 53 \<Longrightarrow> rd (of_int n) = Fin (of_int n)"
proof -
  assume n: "\<bar>n\<bar> \<le> 2 ^ 53"
  have "\<bar>of_int n :: real\<bar> \<le> 2 ^ 53" using n by (simp flip: of_int_abs)
  also have "\<dots> < 2 ^ 1024" by simp
  finally show ?thesis
    using n by (intro rd_repr [of n 0]) simp_all
qed

lemma rd_nonneg:
  assumes "0 \<le> x"
  shows "rd x = PosInf \<or> (\<exists>y. rd x = Fin y \<and> 0 \<le> y)"
proof (cases "x = 0")
  case True
  then show ?thesis by simp
next
  case False
  then have "0 < x" using assms by simp
  moreover have "0 \<le> roundEven (x / ulp x)"
    using assms by (intro roundEven_nonneg divide_nonneg_pos) simp_all
  then have "0 \<le> of_int (roundEven (x / ulp x)) * ulp x"
    by (intro mult_nonneg_nonneg) simp_all
  ultimately show ?thesis by (auto simp: rd_def Let_def)
qed

lemma rd_nonpos:
  assumes "x \<le> 0"
  shows "rd x = NegInf \<or> rd x = NegZero \<or> (\<exists>y. rd x = Fin y \<and> y \<le> 0)"
proof -
  have "roundEven (x / ulp x) \<le> 0"
    using assms by (intro roundEven_nonpos) (simp add: divide_nonpos_pos)
  then have "of_int (roundEven (x / ulp x)) * ulp x \<le> 0"
    by (intro mult_nonpos_nonneg) (simp_all add: less_imp_le)
  then show ?thesis using assms by (auto simp: rd_def Let_def)
qed

lemma rd_not_NaN [simp]: "rd x \<noteq> NaN"
  by (simp add: rd_def Let_def)

lemma abs_round_diff:
  "\<bar>r * ulp x - x\<bar> = \<bar>r - x / ulp x\<bar> * ulp x"
proof -
  have "r * ulp x - x = (r - x / ulp x) * ulp x"
    using ulp_pos [of x] by (simp add: left_diff_distrib)
  then show ?thesis using ulp_pos [of x] by (simp add: abs_mult)
qed

lemma rd_error:
  assumes "rd x = Fin y"
  shows "\<bar>y - x\<bar> \<le> ulp x / 2"
proof -
  have y: "y = of_int (roundEven (x / ulp x)) * ulp x"
    using assms by (auto simp: rd_def Let_def split: if_splits)
  have "\<bar>y - x\<bar> = \<bar>of_int (roundEven (x / ulp x)) - x / ulp x\<bar> * ulp x"
    unfolding y by (rule abs_round_diff)
  also have "\<dots> \<le> 1 / 2 * ulp x"
    by (intro mult_right_mono roundEven_error) simp
  finally show ?thesis by simp
qed

lemma ulp_normal:
  assumes "2 powi (- 1022) \<le> \<bar>x\<bar>"
  shows "ulp x \<le> \<bar>x\<bar> * 2 powi (- 52)"
proof -
  have e: "- 1022 \<le> expo x" using assms by (rule expo_ge)
  have x: "x \<noteq> 0" using assms by auto
  have "ulp x = 2 powi (expo x) * 2 powi (- 52)"
    using power_int_add [of "2::real" "expo x" "- 52"] e by (simp add: ulp_def max_def)
  also have "\<dots> \<le> \<bar>x\<bar> * 2 powi (- 52)"
    by (intro mult_right_mono expo_bounds(1) [OF x]) simp
  finally show ?thesis .
qed

lemma rd_normal:
  assumes "2 powi (- 1022) \<le> \<bar>x\<bar>" and "\<bar>x\<bar> \<le> 2 ^ 1023"
  shows "\<exists>y. rd x = Fin y \<and> \<bar>y - x\<bar> \<le> \<bar>x\<bar> * 2 powi (- 53)"
proof -
  define y where "y = of_int (roundEven (x / ulp x)) * ulp x"
  have "\<bar>y - x\<bar> = \<bar>of_int (roundEven (x / ulp x)) - x / ulp x\<bar> * ulp x"
    unfolding y_def by (rule abs_round_diff)
  also have "\<dots> \<le> 1 / 2 * ulp x"
    by (intro mult_right_mono roundEven_error) simp
  also have "\<dots> \<le> 1 / 2 * (\<bar>x\<bar> * 2 powi (- 52))"
    using ulp_normal [OF assms(1)] by simp
  also have "\<dots> = \<bar>x\<bar> * 2 powi (- 53)"
    by (simp add: power_int_minus)
  finally have err: "\<bar>y - x\<bar> \<le> \<bar>x\<bar> * 2 powi (- 53)" .
  have pos: "0 < \<bar>x\<bar>" using assms(1) by (smt (verit) zero_less_power_int)
  have small: "\<bar>x\<bar> * 2 powi (- 53) < \<bar>x\<bar>"
    using pos by (simp add: power_int_minus)
  have "\<bar>y\<bar> \<le> \<bar>x\<bar> + \<bar>x\<bar> * 2 powi (- 53)" using err by linarith
  also have "\<dots> < 2 * \<bar>x\<bar>" using small by linarith
  also have "\<dots> \<le> 2 * 2 ^ 1023" using assms(2) by simp
  finally have fin: "\<bar>y\<bar> < 2 ^ 1024" by simp
  have "y \<noteq> 0" using err small by (cases "0 \<le> x") auto
  then have "rd x = Fin y" using fin by (simp add: rd_def Let_def y_def)
  then show ?thesis using err by blast
qed

subsection \<open>Arithmetic with special values\<close>

lemma NaN_plus [simp]: "NaN + a = NaN" "a + NaN = NaN"
  by (simp_all add: plus_jsnum_def js_add_def)

lemma NaN_times [simp]: "NaN * a = NaN" "a * NaN = NaN"
  by (simp_all add: times_jsnum_def js_mul_def)

lemma NaN_minus [simp]: "NaN - a = NaN" "a - NaN = NaN"
  by (simp_all add: minus_jsnum_def js_add_def)

lemma NaN_divide [simp]: "NaN / a = NaN" "a / NaN = NaN"
  by (simp_all add: divide_jsnum_def js_div_def)

lemma jsnum_add_commute: "a + b = b + (a::jsnum)"
  by (cases a; cases b) (simp_all add: plus_jsnum_def js_add_def add.commute)

lemma Fin_plus: "a + b \<noteq> 0 \<Longrightarrow> Fin a + Fin b = rd (a + b)"
  by (simp add: plus_jsnum_def js_add_def)

lemma Fin_plus_zero: "a + b = 0 \<Longrightarrow> Fin a + Fin b = Fin 0"
  by (simp add: plus_jsnum_def js_add_def)

lemma Fin_minus: "a \<noteq> b \<Longrightarrow> Fin a - Fin b = rd (a - b)"
  by (simp add: minus_jsnum_def js_add_def)

lemma Fin_minus_self: "Fin a - Fin a = Fin 0"
  by (simp add: minus_jsnum_def js_add_def)

lemma Fin_times: "a * b \<noteq> 0 \<Longrightarrow> Fin a * Fin b = rd (a * b)"
  by (simp add: times_jsnum_def js_mul_def)

lemma Fin_times_zero: "a * b = 0 \<Longrightarrow> Fin a * Fin b = signedZero ((a < 0) \<noteq> (b < 0))"
  by (simp add: times_jsnum_def js_mul_def)

lemma Fin_divide: "a \<noteq> 0 \<Longrightarrow> b \<noteq> 0 \<Longrightarrow> Fin a / Fin b = rd (a / b)"
  by (simp add: divide_jsnum_def js_div_def)

lemma Fin_divide_by_zero:
  "Fin a / Fin 0 = (if a = 0 then NaN else signedInf (a < 0))"
  by (simp add: divide_jsnum_def js_div_def)

lemma zero_divide_Fin: "b \<noteq> 0 \<Longrightarrow> Fin 0 / Fin b = signedZero (b < 0)"
  by (simp add: divide_jsnum_def js_div_def)

lemma Fin_zero_plus_zero [simp]: "Fin 0 + Fin 0 = Fin 0"
  by (simp add: Fin_plus_zero)

text \<open>Rules that evaluate the arithmetic of concrete numbers.\<close>

lemmas rd_eval = rd_def ulp_def expo_def roundEven_def Let_def

lemma Inf_plus:
  "PosInf + Fin a = PosInf" "Fin a + PosInf = PosInf" "PosInf + PosInf = PosInf"
  "NegInf + Fin a = NegInf" "Fin a + NegInf = NegInf" "NegInf + NegInf = NegInf"
  "PosInf + NegInf = NaN" "NegInf + PosInf = NaN"
  "PosInf + NegZero = PosInf" "NegZero + PosInf = PosInf"
  "NegInf + NegZero = NegInf" "NegZero + NegInf = NegInf"
  by (simp_all add: plus_jsnum_def js_add_def)

lemma Inf_minus:
  "PosInf - Fin a = PosInf" "Fin a - PosInf = NegInf" "NegInf - Fin a = NegInf"
  "Fin a - NegInf = PosInf" "PosInf - PosInf = NaN" "NegInf - NegInf = NaN"
  by (simp_all add: minus_jsnum_def js_add_def)

lemma Inf_times:
  "PosInf * Fin a = (if a = 0 then NaN else signedInf (a < 0))"
  "Fin a * PosInf = (if a = 0 then NaN else signedInf (a < 0))"
  "NegInf * Fin a = (if a = 0 then NaN else signedInf (\<not> a < 0))"
  "Fin a * NegInf = (if a = 0 then NaN else signedInf (\<not> a < 0))"
  "PosInf * PosInf = PosInf" "NegInf * NegInf = PosInf"
  "PosInf * NegInf = NegInf" "NegInf * PosInf = NegInf"
  by (simp_all add: times_jsnum_def js_mul_def isZero_def signedInf_def)

lemma Inf_divide:
  "PosInf / Fin a = signedInf (a < 0)" "NegInf / Fin a = signedInf (\<not> a < 0)"
  "Fin a / PosInf = signedZero (a < 0)" "Fin a / NegInf = signedZero (\<not> a < 0)"
  "PosInf / PosInf = NaN" "PosInf / NegInf = NaN" "NegInf / PosInf = NaN"
  "NegInf / NegInf = NaN"
  by (simp_all add: divide_jsnum_def js_div_def signedInf_def signedZero_def)

lemma NegZero_arith:
  "NegZero + Fin a = (if a = 0 then Fin 0 else rd a)"
  "Fin a + NegZero = (if a = 0 then Fin 0 else rd a)"
  "NegZero + NegZero = NegZero"
  "NegZero * Fin a = signedZero (\<not> a < 0)" "Fin a * NegZero = signedZero (\<not> a < 0)"
  "NegZero / Fin a = (if a = 0 then NaN else signedZero (\<not> a < 0))"
  "Fin a / NegZero = (if a = 0 then NaN else signedInf (\<not> a < 0))"
  by (simp_all add: plus_jsnum_def js_add_def times_jsnum_def js_mul_def divide_jsnum_def
      js_div_def signedInf_def signedZero_def)

lemmas num_eval =
  Fin_plus Fin_plus_zero Fin_minus Fin_minus_self Fin_times Fin_times_zero Fin_divide
  Fin_divide_by_zero zero_divide_Fin Inf_plus Inf_minus Inf_times Inf_divide NegZero_arith
  signedZero_def signedInf_def rd_eval

subsection \<open>Binary64 values\<close>

lemma isDouble_rd [simp]: "isDouble (rd x)"
  by (cases "rd x") (auto dest: rd_idem)

lemma isDouble_signedZero [simp]: "isDouble (signedZero s)"
  by (simp add: signedZero_def)

lemma isDouble_signedInf [simp]: "isDouble (signedInf s)"
  by (simp add: signedInf_def)

lemma isDouble_plus [simp]: "isDouble (a + b)"
  by (cases a; cases b) (simp_all add: plus_jsnum_def js_add_def)

lemma isDouble_times [simp]: "isDouble (a * b)"
  by (cases a; cases b) (simp_all add: times_jsnum_def js_mul_def)

lemma isDouble_divide [simp]: "isDouble (a / b)"
  by (cases a; cases b) (simp_all add: divide_jsnum_def js_div_def)

lemma isDouble_of_int: "\<bar>n\<bar> \<le> 2 ^ 53 \<Longrightarrow> isDouble (Fin (of_int n))"
  by (simp add: rd_of_int)

text \<open>A binary64 value is a multiple of the smallest positive one.\<close>

lemma double_grid:
  assumes "isDouble (Fin a)"
  shows "\<exists>n::int. a = of_int n * 2 powi (- 1074)"
proof -
  from assms have "rd a = Fin a" by simp
  then obtain k j where kj: "- 1074 \<le> j" "a = of_int k * 2 powi j"
    using rd_Fin_repr by blast
  have "(2::real) powi j = 2 powi (j + 1074) * 2 powi (- 1074)"
    using powi_add2 [of "j + 1074" "- 1074"] by simp
  also have "(2::real) powi (j + 1074) = 2 ^ nat (j + 1074)"
    using kj(1) by (simp add: power_int_def)
  finally have "a = of_int (k * 2 ^ nat (j + 1074)) * 2 powi (- 1074)"
    unfolding kj(2) by simp
  then show ?thesis by blast
qed

lemma ulp_le_abs:
  assumes "2 powi (- 1074) \<le> \<bar>x\<bar>"
  shows "ulp x \<le> \<bar>x\<bar>"
proof (cases "- 1022 \<le> expo x")
  case True
  have x: "x \<noteq> 0" using assms by (smt (verit) zero_less_power_int)
  have "ulp x = 2 powi (expo x - 52)" using True by (simp add: ulp_def max_def)
  also have "\<dots> \<le> 2 powi (expo x)" by (intro power_int_increasing) simp_all
  also have "\<dots> \<le> \<bar>x\<bar>" by (rule expo_bounds(1) [OF x])
  finally show ?thesis .
next
  case False
  then have "ulp x = 2 powi (- 1074)" by (simp add: ulp_def max_def)
  then show ?thesis using assms by simp
qed

lemma roundEven_nonzero:
  assumes "1 \<le> \<bar>z\<bar>"
  shows "roundEven z \<noteq> 0"
proof (cases "0 \<le> z")
  case True
  then have "1 \<le> z" using assms by simp
  then have "1 \<le> \<lfloor>z\<rfloor>" by (simp add: le_floor_iff)
  with roundEven_floor_ceiling(1) [of z] show ?thesis by linarith
next
  case False
  then have "z \<le> - 1" using assms by simp
  then have "\<lceil>z\<rceil> \<le> - 1" by (simp add: ceiling_le_iff)
  with roundEven_floor_ceiling(2) [of z] show ?thesis by linarith
qed

lemma rd_nonzero:
  assumes "2 powi (- 1074) \<le> \<bar>x\<bar>"
  shows "rd x \<noteq> Fin 0" and "rd x \<noteq> NegZero"
proof -
  have "1 \<le> \<bar>x\<bar> / ulp x"
    using ulp_le_abs [OF assms] ulp_pos [of x] by (simp add: pos_le_divide_eq)
  then have "1 \<le> \<bar>x / ulp x\<bar>" using ulp_pos [of x] by (simp add: abs_divide)
  then have "roundEven (x / ulp x) \<noteq> 0" by (rule roundEven_nonzero)
  then have "of_int (roundEven (x / ulp x)) * ulp x \<noteq> 0" by simp
  then show "rd x \<noteq> Fin 0" and "rd x \<noteq> NegZero"
    by (auto simp: rd_def Let_def)
qed

lemma double_sum_nonzero:
  assumes "isDouble (Fin a)" and "isDouble (Fin b)" and "a + b \<noteq> 0"
  shows "rd (a + b) \<noteq> Fin 0" and "rd (a + b) \<noteq> NegZero"
proof -
  obtain m n :: int where mn: "a = of_int m * 2 powi (- 1074)" "b = of_int n * 2 powi (- 1074)"
    using double_grid assms(1,2) by blast
  have s: "a + b = of_int (m + n) * 2 powi (- 1074)" by (simp add: mn distrib_right)
  then have "m + n \<noteq> 0" using assms(3) by auto
  then have "1 \<le> \<bar>of_int (m + n) :: real\<bar>" by (simp flip: of_int_abs)
  then have "1 * 2 powi (- 1074) \<le> \<bar>of_int (m + n) :: real\<bar> * 2 powi (- 1074)"
    by (intro mult_right_mono) simp_all
  then have "2 powi (- 1074) \<le> \<bar>a + b\<bar>" unfolding s by (simp add: abs_mult)
  then show "rd (a + b) \<noteq> Fin 0" and "rd (a + b) \<noteq> NegZero"
    by (rule rd_nonzero)+
qed

lemma plus_not_NegZero:
  assumes "isDouble a" and "isDouble b" and "a \<noteq> NegZero"
  shows "a + b \<noteq> NegZero"
  using assms double_sum_nonzero(2)
  by (cases a; cases b) (auto simp: plus_jsnum_def js_add_def)

lemma plus_zero_right:
  assumes "isDouble a" and "a \<noteq> NegZero"
  shows "a + Fin 0 = a" and "a + NegZero = a"
  using assms by (cases a; simp add: plus_jsnum_def js_add_def)+

lemma zero_plus_left:
  assumes "isDouble a" and "a \<noteq> NegZero"
  shows "Fin 0 + a = a"
  using assms by (cases a; simp add: plus_jsnum_def js_add_def)

lemma zero_plus_NegZero [simp]: "Fin 0 + NegZero = Fin 0" "NegZero + Fin 0 = Fin 0"
  by (simp_all add: plus_jsnum_def js_add_def)

text \<open>A sum of two numbers, taken from zero, does not depend on their order.\<close>

lemma sum_of_two_commute:
  assumes "isDouble x" and "isDouble y"
  shows "Fin 0 + x + y = Fin 0 + y + x"
proof (cases "x = NegZero")
  case True
  have "Fin 0 + y \<noteq> NegZero" using assms by (intro plus_not_NegZero) simp_all
  then have "Fin 0 + y + NegZero = Fin 0 + y" by (intro plus_zero_right) simp_all
  then show ?thesis by (simp add: True)
next
  case False
  note x = this
  show ?thesis
  proof (cases "y = NegZero")
    case True
    have "Fin 0 + x \<noteq> NegZero" using assms by (intro plus_not_NegZero) simp_all
    then have "Fin 0 + x + NegZero = Fin 0 + x" by (intro plus_zero_right) simp_all
    then show ?thesis by (simp add: True)
  next
    case False
    then have "Fin 0 + x = x" "Fin 0 + y = y"
      using x assms by (simp_all add: zero_plus_left)
    then show ?thesis by (simp only: jsnum_add_commute [of x y])
  qed
qed

text \<open>Sums that are folded from \<open>Fin 0\<close>.\<close>

lemma foldl_plus_double:
  assumes "isDouble acc" and "acc \<noteq> NegZero" and "\<forall>x \<in> set xs. isDouble (f x)"
  shows "isDouble (foldl (\<lambda>s x. s + f x) acc xs)
       \<and> foldl (\<lambda>s x. s + f x) acc xs \<noteq> NegZero"
  using assms
proof (induction xs arbitrary: acc)
  case Nil
  then show ?case by simp
next
  case (Cons x xs)
  have "acc + f x \<noteq> NegZero"
    using Cons.prems by (intro plus_not_NegZero) simp_all
  then show ?case using Cons.prems by (intro Cons.IH [simplified] | simp)+
qed

lemma foldl_plus_skip_zero:
  assumes "isDouble acc" and "acc \<noteq> NegZero" and "\<forall>x \<in> set xs. isDouble (f x)"
    and "f z = Fin 0"
  shows "foldl (\<lambda>s x. s + f x) acc (xs @ z # ys) = foldl (\<lambda>s x. s + f x) acc (xs @ ys)"
proof -
  let ?a = "foldl (\<lambda>s x. s + f x) acc xs"
  have "isDouble ?a \<and> ?a \<noteq> NegZero"
    using assms(1-3) by (rule foldl_plus_double)
  then have "?a + Fin 0 = ?a" by (intro plus_zero_right) simp_all
  then show ?thesis by (simp add: assms(4))
qed

subsection \<open>Values that are not finite\<close>

lemma not_isFinite_plus:
  "\<not> isFinite a \<or> \<not> isFinite b \<Longrightarrow> \<not> isFinite (a + b)"
  by (cases a; cases b) (simp_all add: plus_jsnum_def js_add_def)

lemma not_isFinite_times:
  "\<not> isFinite a \<or> \<not> isFinite b \<Longrightarrow> \<not> isFinite (a * b)"
  by (cases a; cases b) (simp_all add: times_jsnum_def js_mul_def signedInf_def)

lemma not_isFinite_divide_left: "\<not> isFinite a \<Longrightarrow> \<not> isFinite (a / b)"
  by (cases a; cases b) (simp_all add: divide_jsnum_def js_div_def signedInf_def)

lemma not_isFinite_divide_zero: "isZero b \<Longrightarrow> \<not> isFinite (a / b)"
  by (cases a; cases b) (simp_all add: divide_jsnum_def js_div_def signedInf_def isZero_def)

lemma isFinite_ceil [simp]: "isFinite (Math_ceil a) = isFinite a"
  by (cases a) simp_all

lemma not_isFinite_foldl_plus:
  "\<not> isFinite acc \<or> (\<exists>x \<in> set xs. \<not> isFinite (f x)) \<Longrightarrow>
   \<not> isFinite (foldl (\<lambda>s x. s + f x) acc xs)"
proof (induction xs arbitrary: acc)
  case Nil
  then show ?case by simp
next
  case (Cons x xs)
  show ?case
  proof (cases "isFinite (acc + f x)")
    case True
    then have "isFinite acc" "isFinite (f x)" using not_isFinite_plus by blast+
    then show ?thesis using Cons.prems by (intro Cons.IH [simplified] | simp)+
  next
    case False
    then show ?thesis using Cons.IH [of "acc + f x"] by simp
  qed
qed

section \<open>Properties of the costing engine\<close>

lemmas ex_defs =
  exFlour_def exBaker_def exIngredient_def exProduct_def exOverhead_def marginOverride_def
  noOverrides_def

lemmas hpp_defs =
  calculateHPP_def materialsTotal_def materialDetails_def materialDetail_def laborCost_def
  selectLaborRate_def overheadCost_def overheadStep_def nullish_def DEFAULT_MARGIN_def
  DEFAULT_MONTHLY_PRODUCTION_def Let_def

declare forecastLoop.simps [simp del]

subsection \<open>Percentage overheads\<close>

lemma overheadStep_contribution:
  "overheadStep mt lc mp acc ovh = acc + overheadContribution mt lc mp ovh"
  by (simp add: overheadStep_def overheadContribution_def split: AllocationType.split)






subsection \<open>The ingredient list\<close>

lemma isDouble_line_total [simp]:
  "isDouble (d_total (materialDetail materials overrides product ing))"
  by (simp add: materialDetail_def Let_def rd_zero split: option.split)

lemma materialsTotal_foldl:
  "materialsTotal materials overrides product =
     foldl (\<lambda>sum i. sum + d_total (materialDetail materials overrides product i)) (Fin 0)
       (p_ingredients product)"
  by (simp add: materialsTotal_def materialDetails_def foldl_map)

lemma materialDetail_ingredients_update:
  "materialDetail materials overrides (product\<lparr>p_ingredients := ings\<rparr>) =
   materialDetail materials overrides product"
  by (intro ext) (simp add: materialDetail_def Let_def split: option.split)

lemma laborCost_ingredients_update:
  "laborCost laborRates overrides (product\<lparr>p_ingredients := ings\<rparr>) =
   laborCost laborRates overrides product"
  by (simp add: laborCost_def)

lemma materialsTotal_two:
  "materialsTotal materials overrides (product\<lparr>p_ingredients := [i, j]\<rparr>) =
   materialsTotal materials overrides (product\<lparr>p_ingredients := [j, i]\<rparr>)"
  by (simp add: materialsTotal_foldl materialDetail_ingredients_update sum_of_two_commute)

lemma mset_two:
  assumes "mset xs = mset ys" and "length xs \<le> 2"
  shows "xs = ys \<or> (\<exists>i j. xs = [i, j] \<and> ys = [j, i])"
proof -
  have len: "length ys = length xs" using assms(1) by (metis size_mset)
  consider "xs = []" | i where "xs = [i]" | i j where "xs = [i, j]"
    using assms(2)
    by (cases xs; cases "tl xs"; cases "tl (tl xs)") auto
  then show ?thesis
  proof cases
    case 1
    then show ?thesis using assms(1) by simp
  next
    case 2
    then show ?thesis using assms(1) by simp
  next
    case 3
    then obtain a b where ys: "ys = [a, b]"
      using len by (cases ys; cases "tl ys"; cases "tl (tl ys)") auto
    have "{#i, j#} = {#a, b#}" using assms(1) 3 ys by simp
    then have "i = a \<and> j = b \<or> i = b \<and> j = a"
      by (auto simp: add_eq_conv_ex)
    then show ?thesis using 3 ys by auto
  qed
qed

text \<open>
  C9 (counterexample).  The claim says that the materials total, the HPP per unit and the
  suggested price are unchanged under every reordering of the ingredients.  For the
  product with yield 9 and no labor, made of 30 g, 35 g and 250 g of flour at 12 per gram,
  the totals of the three lines are the binary64 values nearest to 40, 46.66... and
  333.33...; added in this order they give 420 and the suggested price 600, while with the
  last two ingredients exchanged the sum is the next number above 420 and the suggested
  price is 700.
\<close>

theorem C9_reordered_ingredients_counterexample:
  "(let ov = noOverrides \<lparr> ov_laborMinutes := Some (Fin 0) \<rparr>;
        r = calculateHPP (Some 0) [exFlour] [] []
              (exProduct (Fin 9) [exIngredient ''m1'' (Fin 30), exIngredient ''m1'' (Fin 35),
                 exIngredient ''m1'' (Fin 250)]) ov;
        r' = calculateHPP (Some 0) [exFlour] [] []
              (exProduct (Fin 9) [exIngredient ''m1'' (Fin 30), exIngredient ''m1'' (Fin 250),
                 exIngredient ''m1'' (Fin 35)]) ov
    in b_materialsTotal (h_breakdown r) = Fin 420
     \<and> b_materialsTotal (h_breakdown r') = Fin (7388718138654721 / 2 ^ 44)
     \<and> b_hppPerUnit (h_breakdown r) = Fin 420
     \<and> b_hppPerUnit (h_breakdown r') = Fin (7388718138654721 / 2 ^ 44)
     \<and> h_suggestedPrice r = Fin 600
     \<and> h_suggestedPrice r' = Fin 700)"
  by (simp add: hpp_defs ex_defs num_eval)

text \<open>
  C9 (amended).  Reordering the ingredient list permutes the detail lines and changes no
  line, and it leaves the labor cost unchanged.  The materials total is the sum of the
  line totals taken from 0 in the order of the list, each addition rounded; it is
  therefore unchanged, and with it the HPP per unit and the suggested price, when the
  product has at most two ingredients, whereas with three or more ingredients the order
  can change it in the last binary digit.
\<close>

theorem C9_ingredient_order:
  assumes "mset ings = mset (p_ingredients product)"
  shows "(let r = calculateHPP now materials overheads laborRates product overrides;
              r' = calculateHPP now materials overheads laborRates
                     (product\<lparr>p_ingredients := ings\<rparr>) overrides
          in mset (b_materialDetails (h_breakdown r'))
               = mset (b_materialDetails (h_breakdown r))
           \<and> b_laborCost (h_breakdown r') = b_laborCost (h_breakdown r)
           \<and> b_materialsTotal (h_breakdown r')
               = foldl (\<lambda>sum d. sum + d_total d) (Fin 0)
                   (map (materialDetail materials overrides product) ings)
           \<and> (length ings \<le> 2 \<longrightarrow>
                b_materialsTotal (h_breakdown r') = b_materialsTotal (h_breakdown r)
                \<and> b_hppPerUnit (h_breakdown r') = b_hppPerUnit (h_breakdown r)
                \<and> h_suggestedPrice r' = h_suggestedPrice r))"
proof -
  have md: "mset (materialDetails materials overrides (product\<lparr>p_ingredients := ings\<rparr>)) =
        mset (materialDetails materials overrides product)"
    using assms by (simp add: materialDetails_def materialDetail_ingredients_update)
  have fold: "materialsTotal materials overrides (product\<lparr>p_ingredients := ings\<rparr>)
      = foldl (\<lambda>sum d. sum + d_total d) (Fin 0)
          (map (materialDetail materials overrides product) ings)"
    by (simp add: materialsTotal_def materialDetails_def materialDetail_ingredients_update)
  have two: "materialsTotal materials overrides (product\<lparr>p_ingredients := ings\<rparr>)
      = materialsTotal materials overrides product" if "length ings \<le> 2"
  proof -
    from mset_two [OF assms that]
    consider "ings = p_ingredients product"
      | i j where "ings = [i, j]" "p_ingredients product = [j, i]"
      by blast
    then show ?thesis
    proof cases
      case 1
      then show ?thesis by simp
    next
      case 2
      have "product = product\<lparr>p_ingredients := [j, i]\<rparr>" using 2(2) by simp
      then show ?thesis
        using materialsTotal_two [where materials = materials and overrides = overrides
            and product = product and i = i and j = j] 2(1)
        by metis
    qed
  qed
  show ?thesis
    using md fold two by (simp add: calculateHPP_def Let_def laborCost_ingredients_update)
qed

theorem C9_ingredient_order_witness:
  "(let r = calculateHPP (Some 0) [exFlour] [exOverhead Fixed (Fin 500000)] [exBaker]
              (exProduct (Fin 9) [exIngredient ''m1'' (Fin 35), exIngredient ''m1'' (Fin 250)])
              noOverrides;
        r' = calculateHPP (Some 0) [exFlour] [exOverhead Fixed (Fin 500000)] [exBaker]
              ((exProduct (Fin 9) [exIngredient ''m1'' (Fin 35), exIngredient ''m1'' (Fin 250)])
                 \<lparr>p_ingredients := [exIngredient ''m1'' (Fin 250), exIngredient ''m1'' (Fin 35)]\<rparr>)
              noOverrides
    in mset (b_materialDetails (h_breakdown r')) = mset (b_materialDetails (h_breakdown r))
     \<and> b_laborCost (h_breakdown r') = b_laborCost (h_breakdown r)
     \<and> b_materialsTotal (h_breakdown r') = b_materialsTotal (h_breakdown r)
     \<and> b_hppPerUnit (h_breakdown r') = b_hppPerUnit (h_breakdown r)
     \<and> h_suggestedPrice r' = h_suggestedPrice r)"
proof -
  let ?p = "exProduct (Fin 9) [exIngredient ''m1'' (Fin 35), exIngredient ''m1'' (Fin 250)]"
  let ?ings = "[exIngredient ''m1'' (Fin 250), exIngredient ''m1'' (Fin 35)]"
  have perm: "mset ?ings = mset (p_ingredients ?p)"
    by (simp add: exProduct_def add_mset_commute)
  have len: "length ?ings \<le> 2" by simp
  note inst = C9_ingredient_order [OF perm, of "Some 0" "[exFlour]"
      "[exOverhead Fixed (Fin 500000)]" "[exBaker]" noOverrides, unfolded Let_def]
  show ?thesis
    unfolding Let_def using inst len by blast
qed

text \<open>
  C5.  An ingredient (at any position \<open>k\<close> of the ingredient list) whose material does
  not resolve in the materials snapshot gets the placeholder line named
  ``Unknown Material'' with price and total zero; the materials total is the one of the
  product without that ingredient, and the computation returns a result with one line
  per ingredient.
\<close>

theorem C5_unresolved_material_placeholder:
  assumes "k < length (p_ingredients product)"
    and "find (\<lambda>m. m_id m = i_materialId (p_ingredients product ! k)) materials = None"
  shows "(let r = calculateHPP now materials overheads laborRates product overrides;
              line = b_materialDetails (h_breakdown r) ! k
          in length (b_materialDetails (h_breakdown r)) = length (p_ingredients product)
           \<and> d_name line = ''Unknown Material''
           \<and> d_total line = Fin 0
           \<and> d_pricePerUnit line = Fin 0
           \<and> d_quantity line = i_quantity (p_ingredients product ! k)
           \<and> d_unit line = Unit_pcs
           \<and> b_materialsTotal (h_breakdown r) =
               materialsTotal materials overrides
                 (product\<lparr>p_ingredients :=
                    take k (p_ingredients product) @ drop (Suc k) (p_ingredients product)\<rparr>))"
proof -
  let ?ings = "p_ingredients product"
  let ?f = "\<lambda>i. d_total (materialDetail materials overrides product i)"
  have line: "materialDetail materials overrides product (?ings ! k) =
      \<lparr> d_name = ''Unknown Material'', d_quantity = i_quantity (?ings ! k), d_unit = Unit_pcs,
       d_pricePerUnit = Fin 0, d_total = Fin 0 \<rparr>"
    using assms(2) by (simp add: materialDetail_def)
  have split: "?ings = take k ?ings @ (?ings ! k) # drop (Suc k) ?ings"
    using assms(1) by (simp add: id_take_nth_drop)
  have "foldl (\<lambda>s x. s + ?f x) (Fin 0) (take k ?ings @ (?ings ! k) # drop (Suc k) ?ings)
      = foldl (\<lambda>s x. s + ?f x) (Fin 0) (take k ?ings @ drop (Suc k) ?ings)"
    by (rule foldl_plus_skip_zero) (simp_all add: line rd_zero)
  then have "foldl (\<lambda>s x. s + ?f x) (Fin 0) ?ings
      = foldl (\<lambda>s x. s + ?f x) (Fin 0) (take k ?ings @ drop (Suc k) ?ings)"
    using split by simp
  then have total: "materialsTotal materials overrides product =
      materialsTotal materials overrides
        (product\<lparr>p_ingredients := take k ?ings @ drop (Suc k) ?ings\<rparr>)"
    by (simp add: materialsTotal_foldl materialDetail_ingredients_update)
  show ?thesis
    using assms(1) total
    by (simp add: calculateHPP_def Let_def materialDetails_def line)
qed

theorem C5_unresolved_material_placeholder_witness:
  "(let r = calculateHPP (Some 0) [exFlour] [] [exBaker]
              (exProduct (Fin 10) [exIngredient ''m1'' (Fin 100), exIngredient ''m9'' (Fin 5)])
              noOverrides;
        line = b_materialDetails (h_breakdown r) ! 1
    in length (b_materialDetails (h_breakdown r)) = 2
     \<and> d_name line = ''Unknown Material''
     \<and> d_total line = Fin 0
     \<and> d_pricePerUnit line = Fin 0
     \<and> d_quantity line = Fin 5
     \<and> d_unit line = Unit_pcs
     \<and> b_materialsTotal (h_breakdown r) = Fin 120)"
proof -
  let ?p = "exProduct (Fin 10) [exIngredient ''m1'' (Fin 100), exIngredient ''m9'' (Fin 5)]"
  have k: "1 < length (p_ingredients ?p)"
    by (simp add: exProduct_def)
  have unresolved:
    "find (\<lambda>m. m_id m = i_materialId (p_ingredients ?p ! 1)) [exFlour] = None"
    by (simp add: ex_defs)
  have rest: "materialsTotal [exFlour] noOverrides
      (?p\<lparr>p_ingredients := take 1 (p_ingredients ?p) @ drop (Suc 1) (p_ingredients ?p)\<rparr>)
      = Fin 120"
    by (simp add: hpp_defs ex_defs num_eval)
  have ing: "i_quantity (p_ingredients ?p ! 1) = Fin 5" "length (p_ingredients ?p) = 2"
    by (simp_all add: ex_defs)
  show ?thesis
    using C5_unresolved_material_placeholder [OF k unresolved,
        of "Some 0" "[]" "[exBaker]" noOverrides]
    unfolding rest ing by simp
qed

subsection \<open>Ingredient quantities\<close>





subsection \<open>Determinism\<close>

text \<open>
  C8.  The clock enters the result of \<^verbatim>\<open>calculateHPP\<close> only through the
  \<^verbatim>\<open>computedAt\<close> field: two calls on the same product, snapshots and overrides, made
  at clock readings \<open>now\<close> and \<open>now'\<close>, return results that agree in every field but
  \<^verbatim>\<open>computedAt\<close>, which holds the respective clock reading.
\<close>

theorem C8_deterministic_except_computedAt:
  "(let r = calculateHPP now materials overheads laborRates product overrides;
        r' = calculateHPP now' materials overheads laborRates product overrides
    in h_productId r' = h_productId r
     \<and> h_productName r' = h_productName r
     \<and> h_breakdown r' = h_breakdown r
     \<and> h_suggestedPrice r' = h_suggestedPrice r
     \<and> h_marginPercent r' = h_marginPercent r
     \<and> h_computedAt r = now \<and> h_computedAt r' = now'
     \<and> r' = r \<lparr> h_computedAt := now' \<rparr>)"
proof -
  let ?r = "calculateHPP now materials overheads laborRates product overrides"
  let ?r' = "calculateHPP now' materials overheads laborRates product overrides"
  have clock: "h_computedAt ?r = now" "h_computedAt ?r' = now'"
    by (simp_all add: calculateHPP_def Let_def)
  have rest: "?r' = ?r \<lparr> h_computedAt := now' \<rparr>"
    by (simp add: calculateHPP_def Let_def)
  have fields: "h_productId ?r' = h_productId ?r" "h_productName ?r' = h_productName ?r"
    "h_breakdown ?r' = h_breakdown ?r" "h_suggestedPrice ?r' = h_suggestedPrice ?r"
    "h_marginPercent ?r' = h_marginPercent ?r"
    by (subst rest, simp)+
  show ?thesis
    unfolding Let_def using clock rest fields by blast
qed

subsection \<open>Zero denominators\<close>

lemma line_not_finite:
  assumes "isZero (p_yieldPerBatch product)"
    and "find (\<lambda>m. m_id m = i_materialId ing) materials \<noteq> None"
  shows "\<not> isFinite (d_quantity (materialDetail materials overrides product ing))"
    and "\<not> isFinite (d_total (materialDetail materials overrides product ing))"
  using assms
  by (auto simp: materialDetail_def Let_def not_isFinite_divide_zero not_isFinite_times)

lemma materialsTotal_not_finite:
  assumes "isZero (p_yieldPerBatch product)"
    and "\<exists>ing \<in> set (p_ingredients product).
           find (\<lambda>m. m_id m = i_materialId ing) materials \<noteq> None"
  shows "\<not> isFinite (materialsTotal materials overrides product)"
proof -
  obtain ing where ing: "ing \<in> set (p_ingredients product)"
      "find (\<lambda>m. m_id m = i_materialId ing) materials \<noteq> None"
    using assms(2) by blast
  have "\<not> isFinite (d_total (materialDetail materials overrides product ing))"
    using assms(1) ing(2) by (rule line_not_finite(2))
  then show ?thesis
    unfolding materialsTotal_foldl using ing(1)
    by (intro not_isFinite_foldl_plus) blast
qed

lemma overheadCost_not_finite:
  assumes "isZero mp" and "\<exists>ovh \<in> set overheads. o_allocationType ovh = Fixed"
  shows "\<not> isFinite (overheadCost mt lc mp overheads)"
proof -
  have step: "overheadStep mt lc mp = (\<lambda>acc ovh. acc + overheadContribution mt lc mp ovh)"
    by (intro ext) (rule overheadStep_contribution)
  obtain ovh where ovh: "ovh \<in> set overheads" "o_allocationType ovh = Fixed"
    using assms(2) by blast
  have "\<not> isFinite (overheadContribution mt lc mp ovh)"
    using ovh(2) assms(1) by (simp add: overheadContribution_def not_isFinite_divide_zero)
  then show ?thesis
    unfolding overheadCost_def step using ovh(1)
    by (intro not_isFinite_foldl_plus) blast
qed

lemma suggestedPrice_not_finite:
  assumes "\<not> isFinite q"
  shows "\<not> isFinite (Math_ceil (q / Fin 100) * Fin 100)"
  using assms by (simp add: not_isFinite_times not_isFinite_divide_left)

lemma one_minus_one [simp]: "Fin 1 - Fin 100 / Fin 100 = Fin 0"
  by (simp add: num_eval)

text \<open>
  C2 (counterexample).  The claim says that for a yield of zero or a margin of 100 percent
  or more the division by zero is replaced by a guarded fallback and every field of the
  result is finite.  There is no such guard: with yield 0 and 100 g of flour the materials
  total, the HPP per unit and the suggested price are \<open>Infinity\<close>; with yield 10 and a
  margin of exactly 100 percent the suggested price is \<open>Infinity\<close>; with yield 0 and an
  ingredient of quantity 0 the suggested price is \<open>NaN\<close>; and a margin of 150 percent is
  not clamped but gives the negative price -25200 for an HPP per unit of 12620.
\<close>

theorem C2_zero_denominator_counterexample:
  "(let r = calculateHPP (Some 0) [exFlour] [] [exBaker]
              (exProduct (Fin 0) [exIngredient ''m1'' (Fin 100)]) noOverrides
    in b_materialsTotal (h_breakdown r) = PosInf
     \<and> b_hppPerUnit (h_breakdown r) = PosInf
     \<and> h_suggestedPrice r = PosInf)
   \<and> h_suggestedPrice (calculateHPP (Some 0) [exFlour] [] [exBaker]
        (exProduct (Fin 10) [exIngredient ''m1'' (Fin 100)]) (marginOverride (Fin 100)))
       = PosInf
   \<and> h_suggestedPrice (calculateHPP (Some 0) [exFlour] [] [exBaker]
        (exProduct (Fin 0) [exIngredient ''m1'' (Fin 0)]) noOverrides) = NaN
   \<and> (let r = calculateHPP (Some 0) [exFlour] [] [exBaker]
                (exProduct (Fin 10) [exIngredient ''m1'' (Fin 100)]) (marginOverride (Fin 150))
      in b_hppPerUnit (h_breakdown r) = Fin 12620 \<and> h_suggestedPrice r = Fin (- 25200))"
  by (simp add: hpp_defs ex_defs num_eval)

text \<open>
  C2 (amended).  \<^verbatim>\<open>calculateHPP\<close> always returns a result (it has no failing
  branch) and guards none of its divisions, so that \<open>Infinity\<close> and \<open>NaN\<close> propagate.
  With a yield of zero, every cost line whose material resolves has a quantity and a
  total that are not finite, and as soon as one material resolves the materials total,
  the HPP per unit and the suggested price are not finite.  With a margin of exactly 100
  percent the suggested price is not finite.  With an assumed monthly production of zero
  and a fixed overhead, the overhead cost, the HPP per unit and the suggested price are
  not finite.
\<close>

theorem C2_zero_denominators_propagate:
  "(let r = calculateHPP now materials overheads laborRates product overrides;
        b = h_breakdown r;
        marginPercent = nullish (ov_marginPercent overrides) DEFAULT_MARGIN;
        monthlyProduction = nullish (ov_monthlyProduction overrides) DEFAULT_MONTHLY_PRODUCTION
    in (isZero (p_yieldPerBatch product) \<longrightarrow>
          (\<forall>k < length (p_ingredients product).
             find (\<lambda>m. m_id m = i_materialId (p_ingredients product ! k)) materials \<noteq> None
             \<longrightarrow> \<not> isFinite (d_quantity (b_materialDetails b ! k))
                 \<and> \<not> isFinite (d_total (b_materialDetails b ! k))))
     \<and> (isZero (p_yieldPerBatch product)
          \<and> (\<exists>ing \<in> set (p_ingredients product).
                find (\<lambda>m. m_id m = i_materialId ing) materials \<noteq> None) \<longrightarrow>
          \<not> isFinite (b_materialsTotal b) \<and> \<not> isFinite (b_hppPerUnit b)
          \<and> \<not> isFinite (h_suggestedPrice r))
     \<and> (marginPercent = Fin 100 \<longrightarrow> \<not> isFinite (h_suggestedPrice r))
     \<and> (isZero monthlyProduction \<and> (\<exists>ovh \<in> set overheads. o_allocationType ovh = Fixed) \<longrightarrow>
          \<not> isFinite (b_overheadCost b) \<and> \<not> isFinite (b_hppPerUnit b)
          \<and> \<not> isFinite (h_suggestedPrice r)))"
proof -
  let ?mp = "nullish (ov_monthlyProduction overrides) DEFAULT_MONTHLY_PRODUCTION"
  let ?mg = "nullish (ov_marginPercent overrides) DEFAULT_MARGIN"
  let ?mt = "materialsTotal materials overrides product"
  let ?lc = "laborCost laborRates overrides product"
  let ?oc = "overheadCost ?mt ?lc ?mp overheads"
  let ?hpp = "?mt + ?lc + ?oc"
  let ?sp = "Math_ceil (?hpp / (Fin 1 - ?mg / Fin 100) / Fin 100) * Fin 100"
  have lines: "\<not> isFinite (d_quantity (materialDetails materials overrides product ! k))
             \<and> \<not> isFinite (d_total (materialDetails materials overrides product ! k))"
    if "isZero (p_yieldPerBatch product)" "k < length (p_ingredients product)"
      "find (\<lambda>m. m_id m = i_materialId (p_ingredients product ! k)) materials \<noteq> None" for k
    using that line_not_finite [of product "p_ingredients product ! k" materials overrides]
    by (simp add: materialDetails_def)
  have price: "\<not> isFinite ?sp" if "\<not> isFinite ?hpp"
    using that by (intro suggestedPrice_not_finite not_isFinite_divide_left)
  have yield: "\<not> isFinite ?mt \<and> \<not> isFinite ?hpp \<and> \<not> isFinite ?sp"
    if "isZero (p_yieldPerBatch product)"
      "\<exists>ing \<in> set (p_ingredients product).
         find (\<lambda>m. m_id m = i_materialId ing) materials \<noteq> None"
  proof -
    have mt: "\<not> isFinite ?mt" using that by (rule materialsTotal_not_finite)
    then have "\<not> isFinite ?hpp" by (simp add: not_isFinite_plus)
    then show ?thesis using mt price by simp
  qed
  have margin: "\<not> isFinite ?sp" if "?mg = Fin 100"
  proof -
    have "\<not> isFinite (?hpp / (Fin 1 - ?mg / Fin 100))"
      unfolding that by (simp add: not_isFinite_divide_zero isZero_def)
    then show ?thesis by (rule suggestedPrice_not_finite)
  qed
  have production: "\<not> isFinite ?oc \<and> \<not> isFinite ?hpp \<and> \<not> isFinite ?sp"
    if "isZero ?mp" "\<exists>ovh \<in> set overheads. o_allocationType ovh = Fixed"
  proof -
    have oc: "\<not> isFinite ?oc" using that by (rule overheadCost_not_finite)
    then have "\<not> isFinite ?hpp" by (simp add: not_isFinite_plus)
    then show ?thesis using oc price by simp
  qed
  show ?thesis
    using lines yield margin production by (simp add: calculateHPP_def Let_def)
qed

theorem C2_zero_denominators_propagate_witness:
  "(let r = calculateHPP (Some 0) [exFlour] [exOverhead Fixed (Fin 500000)] [exBaker]
              (exProduct (Fin 0) [exIngredient ''m9'' (Fin 5), exIngredient ''m1'' (Fin 100)])
              noOverrides
    in \<not> isFinite (d_quantity (b_materialDetails (h_breakdown r) ! 1))
     \<and> \<not> isFinite (d_total (b_materialDetails (h_breakdown r) ! 1))
     \<and> \<not> isFinite (b_materialsTotal (h_breakdown r))
     \<and> \<not> isFinite (b_hppPerUnit (h_breakdown r))
     \<and> \<not> isFinite (h_suggestedPrice r))
   \<and> \<not> isFinite (h_suggestedPrice (calculateHPP (Some 0) [exFlour]
        [exOverhead Fixed (Fin 500000)] [exBaker]
        (exProduct (Fin 10) [exIngredient ''m1'' (Fin 100)]) (marginOverride (Fin 100))))
   \<and> (let r = calculateHPP (Some 0) [exFlour] [exOverhead Fixed (Fin 500000)] [exBaker]
                (exProduct (Fin 10) [exIngredient ''m1'' (Fin 100)])
                (noOverrides \<lparr> ov_monthlyProduction := Some (Fin 0) \<rparr>)
      in \<not> isFinite (b_overheadCost (h_breakdown r))
       \<and> \<not> isFinite (b_hppPerUnit (h_breakdown r))
       \<and> \<not> isFinite (h_suggestedPrice r))"
proof -
  let ?z = "exProduct (Fin 0) [exIngredient ''m9'' (Fin 5), exIngredient ''m1'' (Fin 100)]"
  let ?p = "exProduct (Fin 10) [exIngredient ''m1'' (Fin 100)]"
  let ?ovs = "[exOverhead Fixed (Fin 500000)]"
  have z: "isZero (p_yieldPerBatch ?z)" "1 < length (p_ingredients ?z)"
    "find (\<lambda>m. m_id m = i_materialId (p_ingredients ?z ! 1)) [exFlour] \<noteq> None"
    "\<exists>ing \<in> set (p_ingredients ?z). find (\<lambda>m. m_id m = i_materialId ing) [exFlour] \<noteq> None"
    by (simp_all add: ex_defs isZero_def)
  have m: "nullish (ov_marginPercent (marginOverride (Fin 100))) DEFAULT_MARGIN = Fin 100"
    by (simp add: marginOverride_def nullish_def)
  have mp: "isZero (nullish (ov_monthlyProduction (noOverrides \<lparr> ov_monthlyProduction := Some (Fin 0) \<rparr>))
      DEFAULT_MONTHLY_PRODUCTION)" "\<exists>ovh \<in> set ?ovs. o_allocationType ovh = Fixed"
    by (simp_all add: nullish_def isZero_def exOverhead_def)
  note a = C2_zero_denominators_propagate [of "Some 0" "[exFlour]" ?ovs "[exBaker]" ?z
      noOverrides, unfolded Let_def]
  note b = C2_zero_denominators_propagate [of "Some 0" "[exFlour]" ?ovs "[exBaker]" ?p
      "marginOverride (Fin 100)", unfolded Let_def]
  note c = C2_zero_denominators_propagate [of "Some 0" "[exFlour]" ?ovs "[exBaker]" ?p
      "noOverrides \<lparr> ov_monthlyProduction := Some (Fin 0) \<rparr>", unfolded Let_def]
  show ?thesis
    unfolding Let_def
    apply (intro conjI)
    subgoal using a z by blast
    subgoal using a z by blast
    subgoal using a z by blast
    subgoal using a z by blast
    subgoal using a z by blast
    subgoal using b m by blast
    subgoal using c mp by blast
    subgoal using c mp by blast
    subgoal using c mp by blast
    done
qed

subsection \<open>The suggested price\<close>

lemma ulp_le_powi:
  assumes "x \<noteq> 0" and "\<bar>x\<bar> < 2 powi (k + 1)" and "- 1022 \<le> k"
  shows "ulp x \<le> 2 powi (k - 52)"
proof -
  have "expo x \<le> k" using assms(1,2) by (rule expo_le)
  then have "max (expo x) (- 1022) - 52 \<le> k - 52" using assms(3) by simp
  then show ?thesis unfolding ulp_def by (intro power_int_increasing) simp_all
qed

lemma rd_finite:
  assumes "\<bar>x\<bar> \<le> 2 ^ 1023"
  shows "rd x \<noteq> PosInf" and "rd x \<noteq> NegInf"
proof -
  define y where "y = of_int (roundEven (x / ulp x)) * ulp x"
  have "\<bar>y\<bar> < 2 ^ 1024"
  proof (cases "x = 0")
    case True
    then show ?thesis by (simp add: y_def)
  next
    case False
    have "\<bar>x\<bar> < 2 powi (1023 + 1)" using assms by (simp add: power_int_def)
    then have "ulp x \<le> 2 powi (1023 - 52)" using False by (intro ulp_le_powi) simp_all
    then have u: "ulp x \<le> 2 ^ 971" by (simp add: power_int_def)
    have "\<bar>y - x\<bar> = \<bar>of_int (roundEven (x / ulp x)) - x / ulp x\<bar> * ulp x"
      unfolding y_def by (rule abs_round_diff)
    also have "\<dots> \<le> 1 / 2 * ulp x"
      by (intro mult_right_mono roundEven_error) simp
    finally have "\<bar>y - x\<bar> \<le> 2 ^ 970" using u by simp
    then have "\<bar>y\<bar> \<le> 2 ^ 1023 + 2 ^ 970" using assms by linarith
    also have "\<dots> < (2::real) ^ 1024" by simp
    finally show ?thesis .
  qed
  then show "rd x \<noteq> PosInf" and "rd x \<noteq> NegInf"
    by (auto simp: rd_def Let_def y_def)
qed

lemma rd_unit:
  assumes "0 \<le> x" and "x < 1"
  shows "\<exists>y. rd x = Fin y \<and> 0 \<le> y \<and> \<bar>y - x\<bar> \<le> 2 powi (- 54)"
proof (cases "x = 0")
  case True
  then show ?thesis by simp
next
  case False
  have "\<bar>x\<bar> \<le> 2 ^ 1023" using assms by simp
  then have "rd x \<noteq> PosInf" by (rule rd_finite)
  then obtain y where y: "rd x = Fin y" "0 \<le> y" using rd_nonneg [OF assms(1)] by blast
  have "\<bar>x\<bar> < 2 powi (- 1 + 1)" using assms by simp
  then have "ulp x \<le> 2 powi (- 1 - 52)" using False by (intro ulp_le_powi) simp_all
  then have "ulp x / 2 \<le> 2 powi (- 54)" by (simp add: power_int_minus)
  then have "\<bar>y - x\<bar> \<le> 2 powi (- 54)" using rd_error [OF y(1)] by linarith
  then show ?thesis using y by blast
qed

lemma rd_pos_normal:
  assumes "2 powi (- 1022) \<le> x" and "x \<le> 2 ^ 1023"
  shows "\<exists>y. rd x = Fin y \<and> x * (1 - 2 powi (- 53)) \<le> y \<and> y \<le> x * (1 + 2 powi (- 53))"
proof -
  have pos: "0 < x" using assms(1) by (smt (verit) zero_less_power_int)
  then have ax: "\<bar>x\<bar> = x" by simp
  obtain y where y: "rd x = Fin y" "\<bar>y - x\<bar> \<le> \<bar>x\<bar> * 2 powi (- 53)"
    using rd_normal [of x] assms ax by auto
  have "x - x * 2 powi (- 53) \<le> y" "y \<le> x + x * 2 powi (- 53)"
    using y(2) unfolding ax by linarith+
  then show ?thesis using y(1) by (auto simp: algebra_simps)
qed

text \<open>
  The computation of the suggested price from an HPP per unit \<open>h\<close> between 1 and
  \<open>10 ^ 13\<close> and a margin \<open>m\<close> between 0 and 99, with the rounding error of every step.
\<close>

lemma suggested_price_chain:
  fixes m h :: real
  assumes m: "0 \<le> m" "m \<le> 99" and h: "1 \<le> h" "h \<le> 10 ^ 13"
  shows "\<exists>d q c p. Fin 1 - Fin m / Fin 100 = Fin d \<and> 0 < d
      \<and> Fin h / Fin d = Fin q \<and> Fin q / Fin 100 = Fin c
      \<and> Math_ceil (Fin c) * Fin 100 = Fin (100 * of_int \<lceil>c\<rceil>)
      \<and> q * (1 - 2 powi (- 53)) \<le> 100 * of_int \<lceil>c\<rceil>
      \<and> 100 * of_int \<lceil>c\<rceil> < q * (1 + 2 powi (- 53)) + 100
      \<and> h / (1 - m / 100) * (1 - 2 powi (- 47)) \<le> 100 * of_int \<lceil>c\<rceil>
      \<and> 100 * of_int \<lceil>c\<rceil> < h / (1 - m / 100) * (1 + 2 powi (- 47)) + 100
      \<and> Fin (100 * of_int \<lceil>c\<rceil>) * Fin d = Fin p
      \<and> h * (1 - 2 powi (- 51)) \<le> p"
proof -
  define u :: real where "u = 2 powi (- 53)"
  have u: "0 < u" "u \<le> 1 / 1000" by (simp_all add: u_def power_int_minus)
  text \<open>the margin as a fraction\<close>
  obtain a where a: "Fin m / Fin 100 = Fin a" "0 \<le> a" "\<bar>a - m / 100\<bar> \<le> 2 powi (- 54)"
  proof (cases "m = 0")
    case True
    then show ?thesis using that [of 0] by (simp add: zero_divide_Fin signedZero_def)
  next
    case False
    have "0 \<le> m / 100" "m / 100 < 1" using m by simp_all
    then obtain y where "rd (m / 100) = Fin y" "0 \<le> y" "\<bar>y - m / 100\<bar> \<le> 2 powi (- 54)"
      using rd_unit by blast
    then show ?thesis using that [of y] False by (simp add: Fin_divide)
  qed
  define t where "t = 1 - m / 100"
  have t: "1 / 100 \<le> t" "t \<le> 1" using m by (simp_all add: t_def)
  have at: "t - 2 powi (- 54) \<le> 1 - a" "1 - a \<le> t + 2 powi (- 54)"
    using a(3) unfolding t_def by linarith+
  text \<open>the denominator\<close>
  have x1: "1 / 100 - 2 powi (- 54) \<le> 1 - a" "1 - a \<le> 1" using a(2) at(1) t(1) by linarith+
  have "(2::real) powi (- 1022) \<le> 1 / 100 - 2 powi (- 54)"
    by (simp add: power_int_minus)
  then have "2 powi (- 1022) \<le> 1 - a" using x1(1) by linarith
  moreover have "1 - a \<le> 2 ^ 1023"
  proof -
    have "(1::real) \<le> 2 ^ 1023" by simp
    then show ?thesis using x1(2) by linarith
  qed
  ultimately have n1: "2 powi (- 1022) \<le> 1 - a" "1 - a \<le> 2 ^ 1023" by blast+
  obtain d where d: "rd (1 - a) = Fin d" "(1 - a) * (1 - u) \<le> d" "d \<le> (1 - a) * (1 + u)"
    using rd_pos_normal [OF n1] unfolding u_def by blast
  have "a \<noteq> 1" using x1(1) by (simp add: power_int_minus) 
  then have minus: "Fin 1 - Fin m / Fin 100 = Fin d"
    unfolding a(1) using d(1) by (simp add: Fin_minus)
  have "(1 / 100 - 2 powi (- 54)) * (1 - u) \<le> (1 - a) * (1 - u)"
    using x1(1) u by (intro mult_right_mono) simp_all
  moreover have "(1 / 102 :: real) \<le> (1 / 100 - 2 powi (- 54)) * (1 - 2 powi (- 53))"
    by (simp add: power_int_minus)
  ultimately have dlo: "1 / 102 \<le> d" using d(2) unfolding u_def by linarith
  have "(1 - a) * (1 + u) \<le> 1 * (1 + u)"
    using x1(2) u by (intro mult_right_mono) simp_all
  then have dhi: "d \<le> 1 + u" using d(3) by simp
  have dpos: "0 < d" using dlo by simp
  text \<open>the quotient\<close>
  have x2lo: "1 / 2 \<le> h / d"
  proof -
    have "d \<le> 2" using dhi u by simp
    then have "h / 2 \<le> h / d" using dpos h by (intro divide_left_mono) simp_all
    then show ?thesis using h by simp
  qed
  have x2hi: "h / d \<le> 102 * 10 ^ 13"
  proof -
    have "h / d \<le> h / (1 / 102)" using dlo h by (intro divide_left_mono) simp_all
    then show ?thesis using h by simp
  qed
  have n2: "2 powi (- 1022) \<le> h / d" "h / d \<le> 2 ^ 1023"
  proof -
    have "(2::real) powi (- 1022) \<le> 1 / 2" by (simp add: power_int_minus)
    then show "2 powi (- 1022) \<le> h / d" using x2lo by linarith
    have "(102 * 10 ^ 13 :: real) \<le> 2 ^ 1023" by simp
    then show "h / d \<le> 2 ^ 1023" using x2hi by linarith
  qed
  obtain q where q: "rd (h / d) = Fin q" "h / d * (1 - u) \<le> q" "q \<le> h / d * (1 + u)"
    using rd_pos_normal [OF n2] unfolding u_def by blast
  have quot: "Fin h / Fin d = Fin q"
    using q(1) h dpos by (simp add: Fin_divide)
  have qlo: "1 / 4 \<le> q"
  proof -
    have "1 / 2 * (1 - u) \<le> h / d * (1 - u)" using x2lo u by (intro mult_right_mono) simp_all
    then show ?thesis using q(2) u by simp
  qed
  have qhi: "q \<le> 103 * 10 ^ 13"
  proof -
    have "h / d * (1 + u) \<le> 102 * 10 ^ 13 * (1 + u)"
      using x2hi u by (intro mult_right_mono) simp_all
    also have "\<dots> \<le> 102 * 10 ^ 13 * (1 + 1 / 1000)" using u by simp
    also have "\<dots> \<le> 103 * 10 ^ 13" by simp
    finally show ?thesis using q(3) by linarith
  qed
  text \<open>the quotient in hundreds\<close>
  have n3: "2 powi (- 1022) \<le> q / 100" "q / 100 \<le> 2 ^ 1023"
  proof -
    have "(2::real) powi (- 1022) \<le> 1 / 400" by (simp add: power_int_minus)
    then show "2 powi (- 1022) \<le> q / 100" using qlo by simp
    have "(103 * 10 ^ 13 :: real) \<le> 2 ^ 1023" by simp
    then show "q / 100 \<le> 2 ^ 1023" using qhi by simp
  qed
  obtain c where c: "rd (q / 100) = Fin c" "q / 100 * (1 - u) \<le> c" "c \<le> q / 100 * (1 + u)"
    using rd_pos_normal [OF n3] unfolding u_def by blast
  have hundreds: "Fin q / Fin 100 = Fin c"
    using c(1) qlo by (simp add: Fin_divide)
  have cpos: "0 < c"
  proof -
    have "0 < q / 100 * (1 - u)" using qlo u by simp
    then show ?thesis using c(2) by linarith
  qed
  have chi: "c \<le> 104 * 10 ^ 11"
  proof -
    have "q / 100 * (1 + u) \<le> 103 * 10 ^ 11 * (1 + u)"
      using qhi u by (intro mult_right_mono) simp_all
    also have "\<dots> \<le> 103 * 10 ^ 11 * (1 + 1 / 1000)" using u by simp
    also have "\<dots> \<le> 104 * 10 ^ 11" by simp
    finally show ?thesis using c(3) by linarith
  qed
  text \<open>the ceiling and the multiple of 100\<close>
  define k where "k = \<lceil>c\<rceil>"
  have k: "1 \<le> k" "c \<le> of_int k" "of_int k < c + 1"
    using cpos unfolding k_def by (simp_all add: ceiling_correct, linarith+)
  have khi: "k \<le> 104 * 10 ^ 11 + 1"
  proof -
    have "of_int k < (104 * 10 ^ 11 + 1 :: real)" using k(3) chi by linarith
    then have "of_int k < (of_int (104 * 10 ^ 11 + 1) :: real)" by simp
    then show ?thesis by (simp only: of_int_less_iff)
  qed
  have ceil: "Math_ceil (Fin c) = Fin (of_int k)"
    using k(1) by (simp add: k_def)
  have "\<bar>k * 100\<bar> \<le> 2 ^ 53" using k(1) khi by simp
  then have "rd (of_int (k * 100)) = Fin (of_int (k * 100))" by (rule rd_of_int)
  then have price: "Math_ceil (Fin c) * Fin 100 = Fin (100 * of_int k)"
    unfolding ceil using k(1) by (simp add: Fin_times mult.commute)
  define s :: real where "s = 100 * of_int k"
  have slo: "q * (1 - u) \<le> s"
  proof -
    have "q * (1 - u) = 100 * (q / 100 * (1 - u))" by simp
    also have "\<dots> \<le> 100 * c" using c(2) by simp
    also have "\<dots> \<le> s" using k(2) by (simp add: s_def)
    finally show ?thesis .
  qed
  have shi: "s < q * (1 + u) + 100"
  proof -
    have "s < 100 * (c + 1)" using k(3) by (simp add: s_def)
    also have "\<dots> \<le> 100 * (q / 100 * (1 + u) + 1)" using c(3) by simp
    also have "\<dots> = q * (1 + u) + 100" by simp
    finally show ?thesis .
  qed
  have s_hi: "s \<le> 105 * 10 ^ 13"
    using khi by (simp add: s_def) 
  text \<open>the price against the exact quotient\<close>
  define L where "L = (1 - 50 * u) * (1 - u)"
  define H where "H = (1 + 50 * u) * (1 + u)"
  have LH: "0 < L" "0 < H"
    "1 - 2 powi (- 47) \<le> (1 - u) * (1 - u) / H" "(1 + u) * (1 + u) / L \<le> 1 + 2 powi (- 47)"
    by (simp_all add: L_def H_def u_def power_int_minus)
  have half: "2 powi (- 54) \<le> t * (50 * u)"
  proof -
    have "(2::real) powi (- 54) = 1 / 100 * (50 * u)" by (simp add: u_def power_int_minus)
    also have "\<dots> \<le> t * (50 * u)" using t(1) u by (intro mult_right_mono) simp_all
    finally show ?thesis .
  qed
  have dL: "t * L \<le> d"
  proof -
    have "t * (1 - 50 * u) \<le> 1 - a" using half at(1) by (simp add: algebra_simps)
    then have "t * (1 - 50 * u) * (1 - u) \<le> (1 - a) * (1 - u)"
      using u by (intro mult_right_mono) simp_all
    then show ?thesis using d(2) by (simp add: L_def mult.assoc)
  qed
  have dH: "d \<le> t * H"
  proof -
    have "1 - a \<le> t * (1 + 50 * u)" using half at(2) by (simp add: algebra_simps)
    then have "(1 - a) * (1 + u) \<le> t * (1 + 50 * u) * (1 + u)"
      using u by (intro mult_right_mono) simp_all
    then show ?thesis using d(3) by (simp add: H_def mult.assoc)
  qed
  define e where "e = h / t"
  have tpos: "0 < t" using t(1) by simp
  have epos: "0 < e" using h(1) tpos by (simp add: e_def)
  have e_lo: "e * (1 - 2 powi (- 47)) \<le> s"
  proof -
    have "h / (t * H) \<le> h / d"
      using dH dpos h(1) by (intro divide_left_mono) simp_all
    then have "e / H \<le> h / d" by (simp add: e_def)
    then have "e / H * (1 - u) \<le> h / d * (1 - u)"
      using u by (intro mult_right_mono) simp_all
    then have "e / H * (1 - u) \<le> q" using q(2) by linarith
    then have "e / H * (1 - u) * (1 - u) \<le> q * (1 - u)"
      using u by (intro mult_right_mono) simp_all
    then have "e * ((1 - u) * (1 - u) / H) \<le> s" using slo by (simp add: mult.assoc)
    moreover have "e * (1 - 2 powi (- 47)) \<le> e * ((1 - u) * (1 - u) / H)"
      using LH(3) epos by (intro mult_left_mono) simp_all
    ultimately show ?thesis by linarith
  qed
  have e_hi: "s < e * (1 + 2 powi (- 47)) + 100"
  proof -
    have "0 < t * L" using tpos LH(1) by simp
    then have "h / d \<le> h / (t * L)"
      using dL dpos h(1) by (intro divide_left_mono) simp_all
    then have "h / d \<le> e / L" by (simp add: e_def)
    then have "h / d * (1 + u) \<le> e / L * (1 + u)"
      using u by (intro mult_right_mono) simp_all
    then have "q \<le> e / L * (1 + u)" using q(3) by linarith
    then have "q * (1 + u) \<le> e / L * (1 + u) * (1 + u)"
      using u by (intro mult_right_mono) simp_all
    then have "q * (1 + u) \<le> e * ((1 + u) * (1 + u) / L)" by (simp add: mult.assoc)
    moreover have "e * ((1 + u) * (1 + u) / L) \<le> e * (1 + 2 powi (- 47))"
      using LH(4) epos by (intro mult_left_mono) simp_all
    ultimately show ?thesis using shi by linarith
  qed
  text \<open>the price times the denominator\<close>
  have sd_lo: "h * ((1 - u) * (1 - u)) \<le> s * d"
  proof -
    have "h * ((1 - u) * (1 - u)) = h / d * (1 - u) * (1 - u) * d" using dpos by simp
    also have "\<dots> \<le> q * (1 - u) * d"
      using q(2) u dpos by (intro mult_right_mono) simp_all
    also have "\<dots> \<le> s * d" using slo dpos by (intro mult_right_mono) simp_all
    finally show ?thesis .
  qed
  have sq: "(1 / 2 :: real) \<le> (1 - u) * (1 - u)"
  proof -
    have "(999 / 1000 :: real) * (999 / 1000) \<le> (1 - u) * (1 - u)"
      using u by (intro mult_mono) simp_all
    then show ?thesis by simp
  qed
  have sd_half: "1 / 2 \<le> s * d"
  proof -
    have "1 * (1 / 2) \<le> h * ((1 - u) * (1 - u))"
      using h(1) sq by (intro mult_mono) simp_all
    then show ?thesis using sd_lo by simp
  qed
  have sd_hi: "s * d \<le> 105 * 10 ^ 13 * 2"
  proof -
    have "d \<le> 2" using dhi u by simp
    moreover have "0 \<le> s" using k(1) by (simp add: s_def)
    ultimately show ?thesis using s_hi dpos by (intro mult_mono) simp_all
  qed
  have n4: "2 powi (- 1022) \<le> s * d" "s * d \<le> 2 ^ 1023"
  proof -
    have "(2::real) powi (- 1022) \<le> 1 / 2" by (simp add: power_int_minus)
    then show "2 powi (- 1022) \<le> s * d" using sd_half by linarith
    have "(105 * 10 ^ 13 * 2 :: real) \<le> 2 ^ 1023" by simp
    then show "s * d \<le> 2 ^ 1023" using sd_hi by linarith
  qed
  obtain p where p: "rd (s * d) = Fin p" "s * d * (1 - u) \<le> p"
    using rd_pos_normal [OF n4] unfolding u_def by blast
  have "s * d \<noteq> 0" using sd_half by auto
  then have "Fin s * Fin d = rd (s * d)" by (rule Fin_times)
  then have "Fin s * Fin d = Fin p" using p(1) by (rule trans)
  then have prod: "Fin (100 * of_int k) * Fin d = Fin p" by (simp only: s_def)
  have plo: "h * (1 - 2 powi (- 51)) \<le> p"
  proof -
    define w where "w = (1 - u) * (1 - u) * (1 - u)"
    have "h * ((1 - u) * (1 - u)) * (1 - u) \<le> s * d * (1 - u)"
      using sd_lo u by (intro mult_right_mono) simp_all
    then have "h * w \<le> s * d * (1 - u)" by (simp only: w_def mult.assoc)
    moreover have "(1 - 2 powi (- 51) :: real) \<le> w"
      by (simp add: w_def u_def power_int_minus)
    then have "h * (1 - 2 powi (- 51)) \<le> h * w"
      using h(1) by (intro mult_left_mono) simp_all
    ultimately show ?thesis using p(2) by linarith
  qed
  show ?thesis
    using minus dpos quot hundreds price slo shi e_lo e_hi prod plo
    unfolding s_def u_def k_def e_def t_def by blast
qed

lemma calculateHPP_price:
  "h_suggestedPrice (calculateHPP now materials overheads laborRates product overrides) =
     Math_ceil (b_hppPerUnit (h_breakdown
         (calculateHPP now materials overheads laborRates product overrides))
       / (Fin 1 - h_marginPercent
            (calculateHPP now materials overheads laborRates product overrides) / Fin 100)
       / Fin 100) * Fin 100"
  "h_marginPercent (calculateHPP now materials overheads laborRates product overrides) =
     nullish (ov_marginPercent overrides) DEFAULT_MARGIN"
  by (simp_all add: calculateHPP_def Let_def)

text \<open>
  C4 (counterexample).  The claim says that the suggested price is the quotient
  \<open>hppPerUnit / (1 - marginPercent / 100)\<close> rounded up to the next multiple of 100 and
  that therefore the price times \<open>1 - marginPercent / 100\<close> is at least the HPP per unit.
  The code computes the quotient and the product in double precision.  With 30 labor
  minutes at 25000 per hour and a per-unit overhead of 7800 the HPP per unit is 20300 and
  the margin the default 30 percent: the exact quotient is 29000, a multiple of 100, but
  the computed quotient lies just above it and the suggested price is 29100.  With a
  per-unit overhead of 1850 the HPP per unit is 14350 and the suggested price 20500; the
  exact product \<open>20500 * (1 - 30 / 100)\<close> is 14350, but the product the code's arithmetic
  gives is smaller than the HPP per unit, so the inequality of the claim, evaluated as the
  program would evaluate it, is false.
\<close>

theorem C4_rounding_counterexample:
  "(let r = calculateHPP (Some 0) [] [exOverhead Per_unit (Fin 7800)] [exBaker]
              (exProduct (Fin 1) []) noOverrides
    in h_marginPercent r = Fin 30
     \<and> b_hppPerUnit (h_breakdown r) = Fin 20300
     \<and> h_suggestedPrice r = Fin 29100
     \<and> 100 * real_of_int \<lceil>20300 / (1 - 30 / 100) / (100::real)\<rceil> = 29000)
   \<and> (let r = calculateHPP (Some 0) [] [exOverhead Per_unit (Fin 1850)] [exBaker]
                (exProduct (Fin 1) []) noOverrides
      in h_marginPercent r = Fin 30
       \<and> b_hppPerUnit (h_breakdown r) = Fin 14350
       \<and> h_suggestedPrice r = Fin 20500
       \<and> (20500::real) * (1 - 30 / 100) = 14350
       \<and> h_suggestedPrice r * (Fin 1 - h_marginPercent r / Fin 100)
           = Fin (7888995929292799 / 549755813888)
       \<and> \<not> js_ge (h_suggestedPrice r * (Fin 1 - h_marginPercent r / Fin 100))
             (b_hppPerUnit (h_breakdown r)))"
  by (simp add: hpp_defs ex_defs num_eval js_ge_def)

text \<open>
  C4 (amended).  For a margin \<open>m\<close> between 0 and 99 and an HPP per unit \<open>h\<close> between 1 and
  \<open>10 ^ 13\<close>, the suggested price is \<open>Math.ceil(hppPerUnit / (1 - marginPercent / 100) / 100) * 100\<close>
  with every operation rounded to double precision.  The denominator \<open>d\<close>, the quotient
  \<open>q\<close> and the quotient in hundreds \<open>c\<close> are finite and \<open>d\<close> is positive; the price is
  exactly 100 times the ceiling of \<open>c\<close>, hence a multiple of 100; it lies between
  \<open>q * (1 - 2^-53)\<close> and \<open>q * (1 + 2^-53) + 100\<close> and, against the exact quotient
  \<open>e = h / (1 - m / 100)\<close>, between \<open>e * (1 - 2^-47)\<close> and \<open>e * (1 + 2^-47) + 100\<close>.  The
  price times the denominator, as the code's arithmetic computes it, is at least
  \<open>h * (1 - 2^-51)\<close>: the inequality of the claim holds up to this rounding error only.
\<close>

theorem C4_suggested_price_up_to_rounding:
  fixes m h :: real
  assumes "nullish (ov_marginPercent overrides) DEFAULT_MARGIN = Fin m"
    and "0 \<le> m" and "m \<le> 99"
    and "b_hppPerUnit (h_breakdown
           (calculateHPP now materials overheads laborRates product overrides)) = Fin h"
    and "1 \<le> h" and "h \<le> 10 ^ 13"
  shows "let r = calculateHPP now materials overheads laborRates product overrides;
             hpp = b_hppPerUnit (h_breakdown r);
             den = Fin 1 - h_marginPercent r / Fin 100
         in h_marginPercent r = Fin m
          \<and> h_suggestedPrice r = Math_ceil (hpp / den / Fin 100) * Fin 100
          \<and> (\<exists>d q c p. den = Fin d \<and> 0 < d \<and> hpp / den = Fin q \<and> Fin q / Fin 100 = Fin c
               \<and> h_suggestedPrice r = Fin (100 * of_int \<lceil>c\<rceil>)
               \<and> q * (1 - 2 powi (- 53)) \<le> 100 * of_int \<lceil>c\<rceil>
               \<and> 100 * of_int \<lceil>c\<rceil> < q * (1 + 2 powi (- 53)) + 100
               \<and> h / (1 - m / 100) * (1 - 2 powi (- 47)) \<le> 100 * of_int \<lceil>c\<rceil>
               \<and> 100 * of_int \<lceil>c\<rceil> < h / (1 - m / 100) * (1 + 2 powi (- 47)) + 100
               \<and> h_suggestedPrice r * den = Fin p
               \<and> h * (1 - 2 powi (- 51)) \<le> p)"
proof -
  let ?r = "calculateHPP now materials overheads laborRates product overrides"
  have mg: "h_marginPercent ?r = Fin m"
    using assms(1) by (simp only: calculateHPP_price(2))
  have price: "h_suggestedPrice ?r =
      Math_ceil (Fin h / (Fin 1 - Fin m / Fin 100) / Fin 100) * Fin 100"
    using calculateHPP_price(1) [of now materials overheads laborRates product overrides]
    by (simp only: mg assms(4))
  obtain d q c p where ch: "Fin 1 - Fin m / Fin 100 = Fin d" "0 < d"
      "Fin h / Fin d = Fin q" "Fin q / Fin 100 = Fin c"
      "Math_ceil (Fin c) * Fin 100 = Fin (100 * of_int \<lceil>c\<rceil>)"
      "q * (1 - 2 powi (- 53)) \<le> 100 * of_int \<lceil>c\<rceil>"
      "100 * of_int \<lceil>c\<rceil> < q * (1 + 2 powi (- 53)) + 100"
      "h / (1 - m / 100) * (1 - 2 powi (- 47)) \<le> 100 * of_int \<lceil>c\<rceil>"
      "100 * of_int \<lceil>c\<rceil> < h / (1 - m / 100) * (1 + 2 powi (- 47)) + 100"
      "Fin (100 * of_int \<lceil>c\<rceil>) * Fin d = Fin p"
      "h * (1 - 2 powi (- 51)) \<le> p"
    using suggested_price_chain [OF assms(2,3,5,6)] by blast
  have s: "h_suggestedPrice ?r = Fin (100 * of_int \<lceil>c\<rceil>)"
    unfolding price ch(1) ch(3) ch(4) by (rule ch(5))
  have "h_suggestedPrice ?r = Math_ceil (Fin h / Fin d / Fin 100) * Fin 100"
    unfolding price ch(1) ..
  moreover have "h_suggestedPrice ?r * Fin d = Fin p"
    unfolding s by (rule ch(10))
  ultimately show ?thesis
    unfolding Let_def mg assms(4) ch(1)
    using s ch(2,3,4,6,7,8,9,11) by blast
qed

theorem C4_suggested_price_up_to_rounding_witness:
  "(let r = calculateHPP (Some 0) [exFlour] [exOverhead Fixed (Fin 500000)] [exBaker]
              (exProduct (Fin 10) [exIngredient ''m1'' (Fin 100)]) noOverrides
    in h_marginPercent r = Fin 30
     \<and> b_hppPerUnit (h_breakdown r) = Fin 13620
     \<and> h_suggestedPrice r = Fin 19500
     \<and> (\<exists>d q c p. Fin 1 - h_marginPercent r / Fin 100 = Fin d \<and> 0 < d
          \<and> b_hppPerUnit (h_breakdown r) / (Fin 1 - h_marginPercent r / Fin 100) = Fin q
          \<and> Fin q / Fin 100 = Fin c
          \<and> h_suggestedPrice r = Fin (100 * of_int \<lceil>c\<rceil>)
          \<and> 13620 / (1 - 30 / 100) * (1 - 2 powi (- 47)) \<le> 100 * real_of_int \<lceil>c\<rceil>
          \<and> 100 * real_of_int \<lceil>c\<rceil> < 13620 / (1 - 30 / 100) * (1 + 2 powi (- 47)) + 100
          \<and> h_suggestedPrice r * (Fin 1 - h_marginPercent r / Fin 100) = Fin p
          \<and> 13620 * (1 - 2 powi (- 51)) \<le> p))"
proof -
  let ?r = "calculateHPP (Some 0) [exFlour] [exOverhead Fixed (Fin 500000)] [exBaker]
     (exProduct (Fin 10) [exIngredient ''m1'' (Fin 100)]) noOverrides"
  have m: "nullish (ov_marginPercent noOverrides) DEFAULT_MARGIN = Fin 30"
    "(0::real) \<le> 30" "(30::real) \<le> 99"
    by (simp_all add: noOverrides_def nullish_def DEFAULT_MARGIN_def)
  have h: "b_hppPerUnit (h_breakdown ?r) = Fin 13620" "(1::real) \<le> 13620"
    "(13620::real) \<le> 10 ^ 13"
    by (simp_all add: hpp_defs ex_defs num_eval)
  have p: "h_suggestedPrice ?r = Fin 19500"
    by (simp add: hpp_defs ex_defs num_eval)
  define r where "r = ?r"
  note inst = C4_suggested_price_up_to_rounding [OF m h, unfolded Let_def, folded r_def]
  then obtain d q c p where
      "Fin 1 - h_marginPercent r / Fin 100 = Fin d" "0 < d"
      "b_hppPerUnit (h_breakdown r) / (Fin 1 - h_marginPercent r / Fin 100) = Fin q"
      "Fin q / Fin 100 = Fin c"
      "h_suggestedPrice r = Fin (100 * of_int \<lceil>c\<rceil>)"
      "13620 / (1 - 30 / 100) * (1 - 2 powi (- 47)) \<le> 100 * real_of_int \<lceil>c\<rceil>"
      "100 * real_of_int \<lceil>c\<rceil> < 13620 / (1 - 30 / 100) * (1 + 2 powi (- 47)) + 100"
      "h_suggestedPrice r * (Fin 1 - h_marginPercent r / Fin 100) = Fin p"
      "13620 * (1 - 2 powi (- 51)) \<le> p"
    by blast
  moreover have "h_marginPercent r = Fin 30" using inst by blast
  ultimately show ?thesis
    unfolding Let_def using h(1) p unfolding r_def [symmetric] by blast
qed

section \<open>Properties of the forecasting engine\<close>

subsection \<open>Dates\<close>

lemma LocalTZA_bound: "\<bar>LocalTZA tz t b\<bar> < msPerDay"
  by (simp add: LocalTZA_def Let_def msPerDay_def)

lemma addDays_Some:
  assumes "- maxTime + 2 * msPerDay \<le> t + n * msPerDay"
    and "t + n * msPerDay \<le> maxTime - 2 * msPerDay"
  shows "\<exists>u. addDays tz (Some t) n = Some u"
proof -
  have "\<bar>LocalTZA tz t True\<bar> < msPerDay"
    and "\<bar>LocalTZA tz (LocalTime tz t + n * msPerDay) False\<bar> < msPerDay"
    by (rule LocalTZA_bound)+
  then have "\<bar>UTC tz (LocalTime tz t + n * msPerDay)\<bar> \<le> maxTime"
    using assms unfolding UTC_def LocalTime_def by linarith
  then show ?thesis by (simp add: addDays_def TimeClip_def)
qed

lemma datesInRange_Some:
  assumes "datesInRange t n" and "- 89 \<le> j" and "j \<le> max n 0"
  shows "\<exists>u. addDays tz (Some t) j = Some u"
proof (rule addDays_Some)
  have d: "0 < msPerDay" by (simp add: msPerDay_def)
  have lo: "- 89 * msPerDay \<le> j * msPerDay"
    using assms(2) d by (intro mult_right_mono) simp_all
  have hi: "j * msPerDay \<le> max n 0 * msPerDay"
    using assms(3) d by (intro mult_right_mono) simp_all
  have n: "0 \<le> max n 0 * msPerDay" using d by simp
  from assms(1) have r: "- maxTime + 91 * msPerDay \<le> t"
    "t + (max n 0 + 2) * msPerDay \<le> maxTime"
    by (simp_all add: datesInRange_def)
  show "- maxTime + 2 * msPerDay \<le> t + j * msPerDay" using r(1) lo by linarith
  have "t + (max n 0 + 2) * msPerDay = t + max n 0 * msPerDay + 2 * msPerDay"
    by (simp add: algebra_simps)
  then show "t + j * msPerDay \<le> maxTime - 2 * msPerDay" using r(2) hi by linarith
qed

subsection \<open>The daily series\<close>

lemma js_le_NaN_right [simp]: "js_le a NaN = False"
  by (cases a) simp_all

lemma js_lt_NaN_right [simp]: "js_lt a NaN = False"
  by (cases a) simp_all

lemma recentSales_valid:
  "s \<in> set (recentSales tz now allSales productId) \<Longrightarrow> s_soldAt s \<noteq> None"
  by (cases "s_soldAt s") (auto simp: recentSales_def Let_def timeValue_def js_ge_def)

lemma aggregateSales_ok:
  "\<forall>s \<in> set sales. s_soldAt s \<noteq> None \<Longrightarrow> \<exists>m. aggregateSales m0 sales = Inr m"
proof (induction sales arbitrary: m0)
  case Nil
  then show ?case by simp
next
  case (Cons sale rest)
  then obtain t where "s_soldAt sale = Some t" by auto
  then show ?case using Cons by (simp add: isoDate_def)
qed

lemma salesArrayFrom_ok:
  assumes "\<forall>i \<in> set is. \<exists>u. addDays tz (Some t) (- int i) = Some u"
  shows "\<exists>xs. salesArrayFrom tz (Some t) m is = Inr xs \<and> length xs = length is
           \<and> (m = Map.empty \<longrightarrow> (\<forall>x \<in> set xs. ds_qty x = Fin 0))"
  using assms
proof (induction "is")
  case Nil
  then show ?case by simp
next
  case (Cons i "is")
  then obtain xs where xs: "salesArrayFrom tz (Some t) m is = Inr xs" "length xs = length is"
    "m = Map.empty \<longrightarrow> (\<forall>x \<in> set xs. ds_qty x = Fin 0)"
    by auto
  obtain u where "addDays tz (Some t) (- int i) = Some u"
    using Cons.prems by auto
  then show ?case using xs by (auto simp: isoDate_def Let_def nullish_def)
qed

lemma salesArray_ok:
  assumes "datesInRange t n"
  shows "\<exists>xs. salesArray tz (Some t) m = Inr xs \<and> length xs = 90
           \<and> (m = Map.empty \<longrightarrow> (\<forall>x \<in> set xs. ds_qty x = Fin 0))"
proof -
  have "\<forall>i \<in> set (rev [0..<90]). \<exists>u. addDays tz (Some t) (- int i) = Some u"
  proof
    fix i assume "i \<in> set (rev [0..<90])"
    then have "- 89 \<le> - int i" "- int i \<le> max n 0" by auto
    then show "\<exists>u. addDays tz (Some t) (- int i) = Some u"
      by (rule datesInRange_Some [OF assms])
  qed
  from salesArrayFrom_ok [OF this, of m] show ?thesis
    by (simp add: salesArray_def)
qed

lemma dailySeries_ok:
  assumes "datesInRange t n"
  shows "\<exists>xs. dailySeries tz (Some t) allSales productId = Inr xs \<and> length xs = 90
           \<and> (recentSales tz (Some t) allSales productId = []
                \<longrightarrow> (\<forall>x \<in> set xs. ds_qty x = Fin 0))"
proof -
  obtain m where m:
    "aggregateSales Map.empty (recentSales tz (Some t) allSales productId) = Inr m"
    using aggregateSales_ok recentSales_valid by blast
  have e: "m = Map.empty" if "recentSales tz (Some t) allSales productId = []"
    using m that by simp
  show ?thesis
    using salesArray_ok [OF assms, of tz m] e by (auto simp: dailySeries_def m)
qed

subsection \<open>The forecast loop\<close>

lemma js_le_finite:
  "isFinite hz \<Longrightarrow> js_le (Fin a) hz = (a \<le> realOf hz)"
  by (cases hz) simp_all

lemma forecastLoop_step:
  assumes "js_le (Fin (of_int i)) horizonDays" and "isoDate (addDays tz now i) = Inr k"
  shows "\<exists>q. forecastLoop now tz b s horizonDays i acc =
              forecastLoop now tz b s horizonDays (i + 1)
                (acc @ [\<lparr> df_date = k, df_quantity = q \<rparr>])"
  using assms by (subst forecastLoop.simps) (auto simp: Let_def)

lemma forecastLoop_dates:
  assumes "isFinite hz"
    and "\<forall>j. i \<le> j \<and> j \<le> \<lfloor>realOf hz\<rfloor> \<longrightarrow> (\<exists>u. addDays tz (Some t) j = Some u)"
  shows "\<exists>res. forecastLoop (Some t) tz b s hz i acc = Inr res
           \<and> map (\<lambda>d. Inr (df_date d)) res
               = map (\<lambda>d. Inr (df_date d)) acc
                 @ map (\<lambda>j. isoDate (addDays tz (Some t) j)) [i..\<lfloor>realOf hz\<rfloor>]"
  using assms(2)
proof (induction "nat (\<lfloor>realOf hz\<rfloor> + 1 - i)" arbitrary: i acc)
  case 0
  then have lt: "\<lfloor>realOf hz\<rfloor> < i" by linarith
  then have "realOf hz < of_int i" by (simp add: floor_less_iff)
  then have "\<not> js_le (Fin (of_int i)) hz" using assms(1) by (simp add: js_le_finite)
  then show ?case using lt by (subst forecastLoop.simps) simp
next
  case (Suc n)
  then have le: "i \<le> \<lfloor>realOf hz\<rfloor>" by linarith
  have c: "js_le (Fin (of_int i)) hz"
    using le assms(1) by (simp add: js_le_finite le_floor_iff)
  obtain u where u: "addDays tz (Some t) i = Some u"
    using Suc.prems le by auto
  then have ok: "isoDate (addDays tz (Some t) i) = Inr (u div msPerDay)"
    by (simp add: isoDate_def)
  obtain q where step: "forecastLoop (Some t) tz b s hz i acc =
      forecastLoop (Some t) tz b s hz (i + 1)
        (acc @ [\<lparr> df_date = u div msPerDay, df_quantity = q \<rparr>])"
    using forecastLoop_step [OF c ok] by blast
  have n: "n = nat (\<lfloor>realOf hz\<rfloor> + 1 - (i + 1))" using Suc(2) by linarith
  have r: "\<forall>j. i + 1 \<le> j \<and> j \<le> \<lfloor>realOf hz\<rfloor> \<longrightarrow> (\<exists>u. addDays tz (Some t) j = Some u)"
    using Suc.prems by simp
  obtain res where res: "forecastLoop (Some t) tz b s hz (i + 1)
        (acc @ [\<lparr> df_date = u div msPerDay, df_quantity = q \<rparr>]) = Inr res"
    "map (\<lambda>d. Inr (df_date d)) res
       = map (\<lambda>d. Inr (df_date d)) (acc @ [\<lparr> df_date = u div msPerDay, df_quantity = q \<rparr>])
         @ map (\<lambda>j. isoDate (addDays tz (Some t) j)) [i + 1..\<lfloor>realOf hz\<rfloor>]"
    using Suc(1) [OF n r] by blast
  have "[i..\<lfloor>realOf hz\<rfloor>] = i # [i + 1..\<lfloor>realOf hz\<rfloor>]" using le by (simp add: upto_rec1)
  then have "map (\<lambda>d. Inr (df_date d)) res
       = map (\<lambda>d. Inr (df_date d)) acc
         @ map (\<lambda>j. isoDate (addDays tz (Some t) j)) [i..\<lfloor>realOf hz\<rfloor>]"
    using res(2) ok by simp
  then show ?case using step res(1) by simp
qed

text \<open>With an infinite horizon the loop ends only with the RangeError.\<close>

lemma forecastLoop_infinite:
  "forecastLoop now tz b s PosInf i acc = Inl RangeError"
proof (induction now tz b s PosInf i acc rule: forecastLoop.induct)
  case (1 now tz baseValue slope i dailyForecast)
  show ?case
  proof (cases "isoDate (addDays tz now i)")
    case (Inl e)
    then show ?thesis by (subst forecastLoop.simps) (cases e, simp)
  next
    case (Inr dateKey)
    show ?thesis
      using 1 [OF _ Inr refl refl refl refl refl] Inr
      by (subst forecastLoop.simps) (simp add: Let_def)
  qed
qed

lemma rd_one [simp]: "rd 1 = Fin 1"
  using rd_of_int [of 1] by simp

lemma predictedQty_zero:
  "Math_max (Fin 0) (Math_round (Fin 0 *
      (Fin 1 + (Fin 0 * Fin x) / Math_max (Fin 0) (Fin 1))
      * (if c then rd (13 / 10) else Fin 1)))
   = Fin 0"
proof -
  have m: "Math_max (Fin 0) (Fin 1) = Fin 1" by (simp add: Math_max_def)
  have z: "Fin 0 * Fin x = Fin 0 \<or> Fin 0 * Fin x = NegZero"
    by (simp add: Fin_times_zero signedZero_def)
  have t: "Fin 1 + (Fin 0 * Fin x) / Fin 1 = Fin 1"
    using z by (auto simp: num_eval)
  have w: "rd (13 / 10) = Fin (5854679515581645 / 2 ^ 52)"
    by (simp add: rd_eval)
  show ?thesis
    unfolding m t by (simp add: w num_eval Math_max_def)
qed

lemma forecastLoop_zero:
  "forecastLoop now tz (Fin 0) (Fin 0) horizonDays i acc = Inr res \<Longrightarrow>
   \<forall>d \<in> set acc. df_quantity d = Fin 0 \<Longrightarrow> \<forall>d \<in> set res. df_quantity d = Fin 0"
proof (induction now tz "Fin 0" "Fin 0" horizonDays i acc rule: forecastLoop.induct)
  case (1 now tz horizonDays i dailyForecast)
  show ?case
  proof (cases "js_le (Fin (of_int i)) horizonDays")
    case False
    then show ?thesis using 1(2,3) by (subst (asm) forecastLoop.simps) simp
  next
    case True
    show ?thesis
    proof (cases "isoDate (addDays tz now i)")
      case (Inl e)
      then show ?thesis using 1(2) True by (subst (asm) forecastLoop.simps) simp
    next
      case (Inr dateKey)
      show ?thesis
        apply (rule 1(1) [OF True Inr refl refl refl refl refl])
        using 1(2) True Inr apply (subst (asm) forecastLoop.simps) apply (simp add: Let_def)
        using 1(3) apply (simp add: predictedQty_zero)
        done
    qed
  qed
qed

subsection \<open>A series without sales\<close>

lemma foldl_plus_zeros:
  "\<forall>x \<in> set xs. x = Fin 0 \<Longrightarrow> foldl (\<lambda>a b. a + b) (Fin 0) xs = Fin 0"
  by (induction xs) simp_all

lemma calculateMovingAverage_zeros:
  assumes "\<forall>x \<in> set data. x = Fin 0" and "0 < window" and "window \<le> length data"
  shows "calculateMovingAverage data window = Fin 0"
proof -
  have "\<forall>x \<in> set (drop (length data - window) data). x = Fin 0"
    using assms(1) by (meson in_set_dropD)
  then have "foldl (\<lambda>a b. a + b) (Fin 0) (drop (length data - window) data) = Fin 0"
    by (rule foldl_plus_zeros)
  then show ?thesis
    using assms(2,3)
    by (simp add: calculateMovingAverage_def Let_def zero_divide_Fin signedZero_def)
qed

lemma linearRegression_zero_series:
  "linearRegression (map (\<lambda>i. (Fin (of_nat i), Fin 0)) [0..<90])
     = \<lparr> lr_slope = Fin 0, lr_intercept = Fin 0 \<rparr>"
  by (simp add: linearRegression_def upt_rec num_eval)

lemma series_points_zero:
  assumes "length xs = 90" and "\<forall>x \<in> set xs. ds_qty x = Fin 0"
  shows "map (\<lambda>(i, s). (Fin (of_nat i), ds_qty s)) (enumerate 0 xs)
       = map (\<lambda>i. (Fin (of_nat i), Fin 0)) [0..<90]"
proof (rule nth_equalityI)
  show "length (map (\<lambda>(i, s). (Fin (of_nat i), ds_qty s)) (enumerate 0 xs))
      = length (map (\<lambda>i. (Fin (of_nat i), Fin 0)) [0..<90])"
    using assms(1) by simp
  fix i assume "i < length (map (\<lambda>(i, s). (Fin (of_nat i), ds_qty s)) (enumerate 0 xs))"
  then have i: "i < 90" using assms(1) by simp
  then have "ds_qty (xs ! i) = Fin 0" using assms by simp
  then show "map (\<lambda>(i, s). (Fin (of_nat i), ds_qty s)) (enumerate 0 xs) ! i
      = map (\<lambda>i. (Fin (of_nat i), Fin 0)) [0..<90] ! i"
    using i assms(1) by (simp add: nth_enumerate_eq)
qed

subsection \<open>The stock estimate\<close>

lemma nonNegative_rd: "0 \<le> x \<Longrightarrow> nonNegative (rd x)"
  using rd_nonneg [of x] by auto

lemma js_le_zero_rd: "x \<le> 0 \<Longrightarrow> js_le (rd x) (Fin 0)"
  using rd_nonpos [of x] by auto

lemma nonNegative_plus: "nonNegative a \<Longrightarrow> nonNegative b \<Longrightarrow> nonNegative (a + b)"
  by (cases a; cases b) (auto simp: plus_jsnum_def js_add_def nonNegative_rd)

lemma nonNegative_times: "nonNegative a \<Longrightarrow> nonNegative b \<Longrightarrow> nonNegative (a * b)"
  by (cases a; cases b)
    (auto simp: times_jsnum_def js_mul_def nonNegative_rd signedZero_def signedInf_def
       isZero_def)

lemma js_gt_zero_cases:
  assumes "js_gt b (Fin 0)"
  obtains "b = PosInf" | x where "b = Fin x" and "0 < x"
  using assms by (cases b) (simp_all add: js_gt_def)

lemma nonNegative_divide:
  assumes "nonNegative a" and "js_gt b (Fin 0)"
  shows "nonNegative (a / b)"
  using assms(2)
proof (cases rule: js_gt_zero_cases)
  case 1
  then show ?thesis
    by (cases a) (simp_all add: divide_jsnum_def js_div_def signedZero_def)
next
  case (2 x)
  then show ?thesis using assms(1)
    by (cases a)
      (auto simp: divide_jsnum_def js_div_def signedZero_def signedInf_def nonNegative_rd)
qed

lemma nonNegative_floor: "nonNegative a \<Longrightarrow> nonNegative (Math_floor a)"
  by (cases a) simp_all

lemma js_ge_zero_nonNegative: "js_ge a (Fin 0) \<Longrightarrow> nonNegative a"
  by (cases a) (simp_all add: js_ge_def)

lemma nonNegative_stockStep:
  assumes "nonNegative acc"
    and "\<forall>material. find (\<lambda>m. m_id m = i_materialId ing) materials = Some material \<longrightarrow>
           js_ge (m_stockAmount material) (Fin 0) \<and> js_gt (i_quantity ing) (Fin 0)"
    and "js_ge (p_yieldPerBatch product) (Fin 0)"
  shows "nonNegative (stockStep materials product acc ing)"
proof (cases "find (\<lambda>m. m_id m = i_materialId ing) materials")
  case None
  then show ?thesis using assms(1) by (simp add: stockStep_def)
next
  case (Some material)
  from assms(2) Some have sq:
    "js_ge (m_stockAmount material) (Fin 0)" "js_gt (i_quantity ing) (Fin 0)"
    by blast+
  have s: "nonNegative (m_stockAmount material)"
    using sq(1) by (rule js_ge_zero_nonNegative)
  have y: "nonNegative (p_yieldPerBatch product)"
    using assms(3) by (rule js_ge_zero_nonNegative)
  have "nonNegative (m_stockAmount material / i_quantity ing)"
    using s sq(2) by (rule nonNegative_divide)
  then have "nonNegative (Math_floor (m_stockAmount material / i_quantity ing))"
    by (rule nonNegative_floor)
  then have "nonNegative (Math_floor (m_stockAmount material / i_quantity ing)
                          * p_yieldPerBatch product)"
    using y by (rule nonNegative_times)
  then have "nonNegative (acc + Math_floor (m_stockAmount material / i_quantity ing)
                          * p_yieldPerBatch product)"
    using assms(1) by (intro nonNegative_plus)
  then show ?thesis using Some by (simp add: stockStep_def)
qed

lemma nonNegative_stockSum:
  assumes "\<forall>ing \<in> set (p_ingredients product). \<forall>material.
             find (\<lambda>m. m_id m = i_materialId ing) materials = Some material \<longrightarrow>
             js_ge (m_stockAmount material) (Fin 0) \<and> js_gt (i_quantity ing) (Fin 0)"
    and "js_ge (p_yieldPerBatch product) (Fin 0)"
  shows "nonNegative (stockSum materials product)"
proof -
  have "nonNegative (foldl (stockStep materials product) acc ings)"
    if "nonNegative acc" "set ings \<subseteq> set (p_ingredients product)" for acc ings
    using that
  proof (induction ings arbitrary: acc)
    case Nil
    then show ?case by simp
  next
    case (Cons ing ings)
    have "\<forall>material. find (\<lambda>m. m_id m = i_materialId ing) materials = Some material \<longrightarrow>
           js_ge (m_stockAmount material) (Fin 0) \<and> js_gt (i_quantity ing) (Fin 0)"
      using assms(1) Cons.prems(2) by (meson list.set_intros(1) subsetD)
    then have "nonNegative (stockStep materials product acc ing)"
      by (rule nonNegative_stockStep [OF Cons.prems(1) _ assms(2)])
    then show ?case using Cons by simp
  qed
  then show ?thesis by (simp add: stockSum_def)
qed

lemma currentStock_positive:
  "nonNegative (stockSum materials product) \<Longrightarrow> js_gt (currentStock materials product) (Fin 0)"
  by (cases "stockSum materials product")
    (auto simp: currentStock_def js_or_def isZero_def js_gt_def)

lemma zero_minus_positive:
  assumes "js_gt c (Fin 0)"
  shows "js_le (Fin 0 - c) (Fin 0)"
  using assms
proof (cases rule: js_gt_zero_cases)
  case 1
  then show ?thesis by (simp add: Inf_minus)
next
  case (2 x)
  then show ?thesis by (simp add: Fin_minus js_le_zero_rd)
qed

lemma ceil_zero_times:
  assumes "isFinite sd"
  shows "isZero (Math_ceil (Fin 0 * sd))"
  using assms by (cases sd) (simp_all add: times_jsnum_def js_mul_def signedZero_def isZero_def)

lemma js_le_zero_plus_zero:
  assumes "js_le a (Fin 0)" and "isZero z"
  shows "js_le (a + z) (Fin 0)"
  using assms
  by (cases a; cases z) (auto simp: plus_jsnum_def js_add_def isZero_def js_le_zero_rd)

lemma Math_max_zero:
  assumes "js_le a (Fin 0)"
  shows "Math_max (Fin 0) a = Fin 0"
  using assms by (cases a) (auto simp: Math_max_def)

lemma restock_zero:
  assumes "js_gt c (Fin 0)" and "isFinite sd"
  shows "Math_max (Fin 0) (Fin 0 - c + Math_ceil (Fin 0 * sd)) = Fin 0"
  by (intro Math_max_zero js_le_zero_plus_zero zero_minus_positive ceil_zero_times assms)

subsection \<open>The result of a call\<close>

text \<open>The result of a call on a product that resolves, field by field.\<close>

lemma calculateForecast_found:
  assumes "find (\<lambda>p. p_id p = productId) products = Some product"
    and "dailySeries tz now allSales productId = Inr series"
    and "forecastLoop now tz (calculateMovingAverage (map ds_qty series) 7)
           (lr_slope (linearRegression
              (map (\<lambda>(i, s). (Fin (of_nat i), ds_qty s)) (enumerate 0 series))))
           (nullish horizonDays (Fin 30)) 1 [] = Inr dailyForecast"
  shows "\<exists>r. calculateForecast now tz products allSales materials productId horizonDays
            safetyDays = Inr (Some r)
          \<and> f_productId r = productId \<and> f_productName r = p_name product
          \<and> f_horizon r = nullish horizonDays (Fin 30)
          \<and> f_dailyForecast r = dailyForecast
          \<and> f_totalForecast r = foldl (\<lambda>sum d. sum + df_quantity d) (Fin 0) dailyForecast
          \<and> f_currentStock r = currentStock materials product
          \<and> f_averageDailySales r = calculateMovingAverage (map ds_qty series) 7
          \<and> f_recommendedRestock r =
              Math_max (Fin 0) (f_totalForecast r - f_currentStock r
                + Math_ceil (f_averageDailySales r * nullish safetyDays (Fin 7)))
          \<and> (let trendPercent =
                   (lr_slope (linearRegression
                      (map (\<lambda>(i, s). (Fin (of_nat i), ds_qty s)) (enumerate 0 series)))
                    / Math_max (calculateMovingAverage (map ds_qty series) 30) (Fin 1))
                   * Fin 100 * Fin 30
              in f_trend r = (if js_gt trendPercent (Fin 5) then Up
                              else if js_lt trendPercent (Fin (- 5)) then Down else Stable)
               \<and> f_trendPercent r = Math_round (trendPercent * Fin 10) / Fin 10)"
  using assms by (simp add: calculateForecast_def Let_def)

lemma horizon_dates:
  assumes "datesInRange t n"
  shows "\<forall>j. 1 \<le> j \<and> j \<le> n \<longrightarrow> (\<exists>u. addDays tz (Some t) j = Some u)"
proof (intro allI impI)
  fix j assume "1 \<le> j \<and> j \<le> n"
  then have "- 89 \<le> j" "j \<le> max n 0" by simp_all
  then show "\<exists>u. addDays tz (Some t) j = Some u"
    by (rule datesInRange_Some [OF assms])
qed

lemma calculateForecast_returns:
  assumes "find (\<lambda>p. p_id p = productId) products = Some product"
    and "isFinite (nullish horizonDays (Fin 30))"
    and "datesInRange t \<lfloor>realOf (nullish horizonDays (Fin 30))\<rfloor>"
  shows "\<exists>r. calculateForecast (Some t) tz products allSales materials productId horizonDays
            safetyDays = Inr (Some r)
          \<and> f_productId r = productId \<and> f_productName r = p_name product
          \<and> f_horizon r = nullish horizonDays (Fin 30)
          \<and> map (\<lambda>d. Inr (df_date d)) (f_dailyForecast r)
              = map (\<lambda>j. isoDate (addDays tz (Some t) j))
                  [1..\<lfloor>realOf (nullish horizonDays (Fin 30))\<rfloor>]
          \<and> f_totalForecast r
              = foldl (\<lambda>sum d. sum + df_quantity d) (Fin 0) (f_dailyForecast r)
          \<and> f_currentStock r = currentStock materials product
          \<and> f_recommendedRestock r =
              Math_max (Fin 0) (f_totalForecast r - f_currentStock r
                + Math_ceil (f_averageDailySales r * nullish safetyDays (Fin 7)))"
proof -
  let ?hz = "nullish horizonDays (Fin 30)"
  obtain series where series: "dailySeries tz (Some t) allSales productId = Inr series"
    using dailySeries_ok [OF assms(3)] by blast
  obtain df where df: "forecastLoop (Some t) tz (calculateMovingAverage (map ds_qty series) 7)
           (lr_slope (linearRegression
              (map (\<lambda>(i, s). (Fin (of_nat i), ds_qty s)) (enumerate 0 series))))
           ?hz 1 [] = Inr df"
      "map (\<lambda>d. Inr (df_date d)) df
         = map (\<lambda>j. isoDate (addDays tz (Some t) j)) [1..\<lfloor>realOf ?hz\<rfloor>]"
    using forecastLoop_dates [OF assms(2) horizon_dates [OF assms(3)],
        where acc = "[]" and tz = tz
          and b = "calculateMovingAverage (map ds_qty series) 7"
          and s = "lr_slope (linearRegression
              (map (\<lambda>(i, s). (Fin (of_nat i), ds_qty s)) (enumerate 0 series)))"]
    by (elim exE conjE) (rule that, simp_all)
  show ?thesis
    using calculateForecast_found [OF assms(1) series df(1), of materials safetyDays] df(2)
    by auto
qed

lemma calculateForecast_no_sales:
  assumes "find (\<lambda>p. p_id p = productId) products = Some product"
    and "isFinite (nullish horizonDays (Fin 30))"
    and "datesInRange t \<lfloor>realOf (nullish horizonDays (Fin 30))\<rfloor>"
    and "recentSales tz (Some t) allSales productId = []"
  shows "\<exists>r series. calculateForecast (Some t) tz products allSales materials productId
            horizonDays safetyDays = Inr (Some r)
          \<and> dailySeries tz (Some t) allSales productId = Inr series
          \<and> calculateMovingAverage (map ds_qty series) 7 = Fin 0
          \<and> calculateMovingAverage (map ds_qty series) 30 = Fin 0
          \<and> f_averageDailySales r = Fin 0
          \<and> f_trend r = Stable \<and> f_trendPercent r = Fin 0
          \<and> f_totalForecast r = Fin 0
          \<and> f_currentStock r = currentStock materials product
          \<and> f_recommendedRestock r =
              Math_max (Fin 0) (Fin 0 - f_currentStock r
                + Math_ceil (Fin 0 * nullish safetyDays (Fin 7)))"
proof -
  let ?hz = "nullish horizonDays (Fin 30)"
  obtain series where series: "dailySeries tz (Some t) allSales productId = Inr series"
    "length series = 90" "\<forall>x \<in> set series. ds_qty x = Fin 0"
    using dailySeries_ok [OF assms(3)] assms(4) by blast
  have zeros: "\<forall>x \<in> set (map ds_qty series). x = Fin 0" using series(3) by simp
  have ma7: "calculateMovingAverage (map ds_qty series) 7 = Fin 0"
    using zeros series(2) by (intro calculateMovingAverage_zeros) simp_all
  have ma30: "calculateMovingAverage (map ds_qty series) 30 = Fin 0"
    using zeros series(2) by (intro calculateMovingAverage_zeros) simp_all
  have slope: "lr_slope (linearRegression
              (map (\<lambda>(i, s). (Fin (of_nat i), ds_qty s)) (enumerate 0 series))) = Fin 0"
    unfolding series_points_zero [OF series(2,3)] linearRegression_zero_series by simp
  obtain df where df: "forecastLoop (Some t) tz (Fin 0) (Fin 0) ?hz 1 [] = Inr df"
    using forecastLoop_dates [OF assms(2) horizon_dates [OF assms(3)],
        where acc = "[]" and tz = tz and b = "Fin 0" and s = "Fin 0"]
    by blast
  have dz: "\<forall>d \<in> set df. df_quantity d = Fin 0"
    using forecastLoop_zero [OF df] by simp
  have total: "foldl (\<lambda>sum d. sum + df_quantity d) (Fin 0) df = Fin 0"
    using dz by (induction df) simp_all
  have df': "forecastLoop (Some t) tz (calculateMovingAverage (map ds_qty series) 7)
           (lr_slope (linearRegression
              (map (\<lambda>(i, s). (Fin (of_nat i), ds_qty s)) (enumerate 0 series))))
           ?hz 1 [] = Inr df"
    using df by (simp add: ma7 slope)
  have m: "Math_max (Fin 0) (Fin 1) = Fin 1" by (simp add: Math_max_def)
  have tp: "Fin 0 / Fin 1 * Fin 100 * Fin 30 = Fin 0" "Fin 0 * Fin 10 = Fin 0"
    "Fin 0 / Fin 10 = Fin 0"
    by (simp_all add: num_eval)
  obtain r where r: "calculateForecast (Some t) tz products allSales materials productId
        horizonDays safetyDays = Inr (Some r)"
      "f_totalForecast r = foldl (\<lambda>sum d. sum + df_quantity d) (Fin 0) df"
      "f_currentStock r = currentStock materials product"
      "f_averageDailySales r = calculateMovingAverage (map ds_qty series) 7"
      "f_recommendedRestock r =
         Math_max (Fin 0) (f_totalForecast r - f_currentStock r
           + Math_ceil (f_averageDailySales r * nullish safetyDays (Fin 7)))"
      "f_trend r =
         (if js_gt ((lr_slope (linearRegression
                      (map (\<lambda>(i, s). (Fin (of_nat i), ds_qty s)) (enumerate 0 series)))
                    / Math_max (calculateMovingAverage (map ds_qty series) 30) (Fin 1))
                   * Fin 100 * Fin 30) (Fin 5) then Up
          else if js_lt ((lr_slope (linearRegression
                      (map (\<lambda>(i, s). (Fin (of_nat i), ds_qty s)) (enumerate 0 series)))
                    / Math_max (calculateMovingAverage (map ds_qty series) 30) (Fin 1))
                   * Fin 100 * Fin 30) (Fin (- 5)) then Down else Stable)"
      "f_trendPercent r =
         Math_round ((lr_slope (linearRegression
                      (map (\<lambda>(i, s). (Fin (of_nat i), ds_qty s)) (enumerate 0 series)))
                    / Math_max (calculateMovingAverage (map ds_qty series) 30) (Fin 1))
                   * Fin 100 * Fin 30 * Fin 10) / Fin 10"
    using calculateForecast_found [OF assms(1) series(1) df', of materials safetyDays,
        unfolded Let_def]
    by blast
  have trend: "f_trend r = Stable" "f_trendPercent r = Fin 0"
    unfolding r(6,7) slope ma30 m by (simp_all add: tp js_gt_def)
  have restock: "f_recommendedRestock r =
      Math_max (Fin 0) (Fin 0 - f_currentStock r
        + Math_ceil (Fin 0 * nullish safetyDays (Fin 7)))"
    unfolding r(5) r(2) r(4) total ma7 ..
  show ?thesis
    using r(1) series(1) ma7 ma30 r(4) trend r(2) total r(3) restock by simp
qed

lemma exNow_inRange: "datesInRange exNow \<lfloor>realOf (Fin 30)\<rfloor>"
  by (simp add: datesInRange_def exNow_def msPerDay_def maxTime_def)

subsection \<open>Unresolved and resolved products\<close>

lemma calculateForecast_infinite_horizon:
  assumes "find (\<lambda>p. p_id p = productId) products = Some product"
    and "nullish horizonDays (Fin 30) = PosInf"
  shows "calculateForecast now tz products allSales materials productId horizonDays safetyDays
           = Inl RangeError"
proof (cases "dailySeries tz now allSales productId")
  case (Inl e)
  then show ?thesis using assms(1) by (cases e) (simp add: calculateForecast_def)
next
  case (Inr series)
  then show ?thesis
    using assms by (simp add: calculateForecast_def Let_def forecastLoop_infinite)
qed

text \<open>
  C7 (counterexample).  The claim says that for every product identity that resolves
  \<^verbatim>\<open>calculateForecast\<close> returns a result.  Called for the product of the fixtures
  with \<^verbatim>\<open>horizonDays = Infinity\<close>, the loop over the forecast days never reaches the
  horizon; it ends when the forecast date leaves the range of valid dates, where
  \<^verbatim>\<open>toISOString\<close> raises a RangeError.
\<close>

theorem C7_infinite_horizon_counterexample:
  "find (\<lambda>p. p_id p = ''p1'') [exProduct (Fin 10) [exIngredient ''m1'' (Fin 100)]]
     = Some (exProduct (Fin 10) [exIngredient ''m1'' (Fin 100)])
   \<and> calculateForecast (Some exNow) exZone [exProduct (Fin 10) [exIngredient ''m1'' (Fin 100)]]
        [] [exFlour] ''p1'' (Some PosInf) None = Inl RangeError"
proof
  show some: "find (\<lambda>p. p_id p = ''p1'') [exProduct (Fin 10) [exIngredient ''m1'' (Fin 100)]]
     = Some (exProduct (Fin 10) [exIngredient ''m1'' (Fin 100)])"
    by (simp add: exProduct_def)
  show "calculateForecast (Some exNow) exZone [exProduct (Fin 10) [exIngredient ''m1'' (Fin 100)]]
        [] [exFlour] ''p1'' (Some PosInf) None = Inl RangeError"
    by (rule calculateForecast_infinite_horizon [OF some]) (simp add: nullish_def)
qed

text \<open>
  C7 (amended).  For a product identity that does not resolve in the products snapshot
  \<^verbatim>\<open>calculateForecast\<close> returns \<^verbatim>\<open>null\<close> (\<open>Inr None\<close>, not an exception),
  whatever the other arguments.  For an identity that resolves, a finite horizon and a
  clock reading for which the dates from 89 days back to the horizon are valid dates, it
  returns a \<^verbatim>\<open>ForecastResult\<close> carrying the product's identity and name, the horizon,
  one forecast entry for each of the days 1 to \<open>horizonDays\<close> after the clock reading,
  their sum as total, the stock estimate and the restock recommendation.  For an identity
  that resolves and an infinite horizon it raises a RangeError.
\<close>

theorem C7_forecast_absent_or_result:
  "(find (\<lambda>p. p_id p = productId) products = None \<longrightarrow>
      calculateForecast now tz products allSales materials productId horizonDays safetyDays
        = Inr None)
   \<and> (find (\<lambda>p. p_id p = productId) products = Some product \<and> now = Some t
        \<and> isFinite (nullish horizonDays (Fin 30))
        \<and> datesInRange t \<lfloor>realOf (nullish horizonDays (Fin 30))\<rfloor> \<longrightarrow>
      (\<exists>r. calculateForecast now tz products allSales materials productId horizonDays
              safetyDays = Inr (Some r)
           \<and> f_productId r = productId \<and> f_productName r = p_name product
           \<and> f_horizon r = nullish horizonDays (Fin 30)
           \<and> map (\<lambda>d. Inr (df_date d)) (f_dailyForecast r)
               = map (\<lambda>j. isoDate (addDays tz now j))
                   [1..\<lfloor>realOf (nullish horizonDays (Fin 30))\<rfloor>]
           \<and> f_totalForecast r
               = foldl (\<lambda>sum d. sum + df_quantity d) (Fin 0) (f_dailyForecast r)
           \<and> f_currentStock r = currentStock materials product
           \<and> f_recommendedRestock r =
               Math_max (Fin 0) (f_totalForecast r - f_currentStock r
                 + Math_ceil (f_averageDailySales r * nullish safetyDays (Fin 7)))))
   \<and> (find (\<lambda>p. p_id p = productId) products = Some product
        \<and> nullish horizonDays (Fin 30) = PosInf \<longrightarrow>
      calculateForecast now tz products allSales materials productId horizonDays safetyDays
        = Inl RangeError)"
proof (intro conjI impI)
  assume "find (\<lambda>p. p_id p = productId) products = None"
  then show "calculateForecast now tz products allSales materials productId horizonDays
      safetyDays = Inr None"
    by (simp add: calculateForecast_def)
next
  assume a: "find (\<lambda>p. p_id p = productId) products = Some product \<and> now = Some t
        \<and> isFinite (nullish horizonDays (Fin 30))
        \<and> datesInRange t \<lfloor>realOf (nullish horizonDays (Fin 30))\<rfloor>"
  then have now: "now = Some t" by simp
  show "\<exists>r. calculateForecast now tz products allSales materials productId horizonDays
              safetyDays = Inr (Some r)
           \<and> f_productId r = productId \<and> f_productName r = p_name product
           \<and> f_horizon r = nullish horizonDays (Fin 30)
           \<and> map (\<lambda>d. Inr (df_date d)) (f_dailyForecast r)
               = map (\<lambda>j. isoDate (addDays tz now j))
                   [1..\<lfloor>realOf (nullish horizonDays (Fin 30))\<rfloor>]
           \<and> f_totalForecast r
               = foldl (\<lambda>sum d. sum + df_quantity d) (Fin 0) (f_dailyForecast r)
           \<and> f_currentStock r = currentStock materials product
           \<and> f_recommendedRestock r =
               Math_max (Fin 0) (f_totalForecast r - f_currentStock r
                 + Math_ceil (f_averageDailySales r * nullish safetyDays (Fin 7)))"
    unfolding now using a by (intro calculateForecast_returns) simp_all
next
  assume "find (\<lambda>p. p_id p = productId) products = Some product
        \<and> nullish horizonDays (Fin 30) = PosInf"
  then show "calculateForecast now tz products allSales materials productId horizonDays
      safetyDays = Inl RangeError"
    by (intro calculateForecast_infinite_horizon) simp_all
qed

theorem C7_forecast_absent_or_result_witness:
  "calculateForecast (Some exNow) exZone [exProduct (Fin 10) [exIngredient ''m1'' (Fin 100)]]
       [] [exFlour] ''p2'' None None = Inr None
   \<and> (\<exists>r. calculateForecast (Some exNow) exZone
              [exProduct (Fin 10) [exIngredient ''m1'' (Fin 100)]] [] [exFlour] ''p1''
              None None = Inr (Some r)
         \<and> f_productId r = ''p1'' \<and> f_productName r = ''Brownies'' \<and> f_horizon r = Fin 30
         \<and> length (f_dailyForecast r) = 30)
   \<and> calculateForecast (Some exNow) exZone [exProduct (Fin 10) [exIngredient ''m1'' (Fin 100)]]
       [] [exFlour] ''p1'' (Some PosInf) None = Inl RangeError"
proof -
  let ?ps = "[exProduct (Fin 10) [exIngredient ''m1'' (Fin 100)]]"
  have none: "find (\<lambda>p. p_id p = ''p2'') ?ps = None"
    by (simp add: exProduct_def)
  have some: "find (\<lambda>p. p_id p = ''p1'') ?ps
      = Some (exProduct (Fin 10) [exIngredient ''m1'' (Fin 100)])"
    by (simp add: exProduct_def)
  have h: "nullish None (Fin 30) = Fin 30" "isFinite (nullish None (Fin 30))"
    "datesInRange exNow \<lfloor>realOf (nullish None (Fin 30))\<rfloor>"
    "nullish (Some PosInf) (Fin 30) = PosInf"
    using exNow_inRange by (simp_all add: nullish_def)
  have absent: "calculateForecast (Some exNow) exZone ?ps [] [exFlour] ''p2'' None None
      = Inr None"
    using C7_forecast_absent_or_result [of "''p2''" ?ps "Some exNow" exZone "[]" "[exFlour]"
        None None] none by blast
  obtain r where r: "calculateForecast (Some exNow) exZone ?ps [] [exFlour] ''p1'' None None
        = Inr (Some r)"
      "f_productId r = ''p1''"
      "f_productName r = p_name (exProduct (Fin 10) [exIngredient ''m1'' (Fin 100)])"
      "f_horizon r = nullish None (Fin 30)"
      "map (\<lambda>d. Inr (df_date d)) (f_dailyForecast r)
         = map (\<lambda>j. isoDate (addDays exZone (Some exNow) j))
             [1..\<lfloor>realOf (nullish None (Fin 30))\<rfloor>]"
    using C7_forecast_absent_or_result [of "''p1''" ?ps "Some exNow" exZone "[]" "[exFlour]"
        None None "exProduct (Fin 10) [exIngredient ''m1'' (Fin 100)]" exNow] some h(2,3)
    by blast
  have "length (map (\<lambda>d. Inr (df_date d) :: js_error + int) (f_dailyForecast r)) = 30"
    unfolding r(5) by (simp add: h(1))
  then have len: "length (f_dailyForecast r) = 30" by simp
  have raised: "calculateForecast (Some exNow) exZone ?ps [] [exFlour] ''p1'' (Some PosInf)
      None = Inl RangeError"
    using C7_forecast_absent_or_result [of "''p1''" ?ps "Some exNow" exZone "[]" "[exFlour]"
        "Some PosInf" None "exProduct (Fin 10) [exIngredient ''m1'' (Fin 100)]"] some h(4)
    by blast
  show ?thesis
    using absent r(1-4) len raised by (auto simp: exProduct_def h(1))
qed

subsection \<open>A product without sales\<close>

text \<open>
  C6 (counterexample).  The claim says that for every product without sales in the last
  90 days the recommended restock is 0.  For the product with yield 10 whose only
  ingredient has quantity -1 of flour (stock 5000), without any sale, the stock estimate
  is \<open>floor (5000 / -1) * 10 = -50000\<close> and the recommended restock is 50000.
\<close>

theorem C6_no_sales_counterexample:
  "recentSales exZone (Some exNow) [] ''p1'' = []
   \<and> (case calculateForecast (Some exNow) exZone
             [exProduct (Fin 10) [exIngredient ''m1'' (Fin (- 1))]] []
             [exFlour] ''p1'' None None of
        Inr (Some r) \<Rightarrow>
          f_totalForecast r = Fin 0 \<and> f_currentStock r = Fin (- 50000)
          \<and> f_recommendedRestock r = Fin 50000
      | _ \<Rightarrow> False)"
proof -
  let ?p = "exProduct (Fin 10) [exIngredient ''m1'' (Fin (- 1))]"
  have some: "find (\<lambda>p. p_id p = ''p1'') [?p] = Some ?p"
    by (simp add: exProduct_def)
  have empty: "recentSales exZone (Some exNow) [] ''p1'' = []"
    by (simp add: recentSales_def)
  have stock: "currentStock [exFlour] ?p = Fin (- 50000)"
    by (simp add: currentStock_def stockSum_def stockStep_def js_or_def isZero_def ex_defs
        num_eval)
  have h: "isFinite (nullish None (Fin 30))"
    "datesInRange exNow \<lfloor>realOf (nullish None (Fin 30))\<rfloor>"
    using exNow_inRange by (simp_all add: nullish_def)
  obtain r where r: "calculateForecast (Some exNow) exZone [?p] [] [exFlour] ''p1'' None None
        = Inr (Some r)" "f_totalForecast r = Fin 0"
      "f_currentStock r = currentStock [exFlour] ?p"
      "f_recommendedRestock r =
         Math_max (Fin 0) (Fin 0 - f_currentStock r + Math_ceil (Fin 0 * nullish None (Fin 7)))"
    using calculateForecast_no_sales [OF some h empty, of "[exFlour]" None]
    by blast
  have "f_recommendedRestock r = Fin 50000"
    unfolding r(4) r(3) stock by (simp add: nullish_def num_eval Math_max_def)
  then show ?thesis
    using empty r(1,2,3) by (simp add: stock)
qed

text \<open>
  C6 (amended).  For every product that resolves and has no sale within the last 90 days,
  \<^verbatim>\<open>calculateForecast\<close>, called with a finite horizon, finite safety days and a clock
  reading for which the dates from 89 days back to the horizon are valid dates, yields a
  7-day and a 30-day moving average of 0, the trend stable, a total forecast of 0 and the
  recommended restock \<open>max (0, 0 - currentStock + ceil (0 * safetyDays))\<close>.  That restock
  is 0 whenever the stock estimate is greater than 0, in particular whenever every
  ingredient that resolves has a stock amount that is at least 0 and a quantity that is
  greater than 0, and the yield is at least 0.
\<close>

theorem C6_no_sales_forecast:
  assumes "find (\<lambda>p. p_id p = productId) products = Some product"
    and "recentSales tz (Some t) allSales productId = []"
    and "isFinite (nullish horizonDays (Fin 30))"
    and "datesInRange t \<lfloor>realOf (nullish horizonDays (Fin 30))\<rfloor>"
    and "isFinite (nullish safetyDays (Fin 7))"
  shows "\<exists>r series. calculateForecast (Some t) tz products allSales materials productId
            horizonDays safetyDays = Inr (Some r)
          \<and> dailySeries tz (Some t) allSales productId = Inr series
          \<and> calculateMovingAverage (map ds_qty series) 7 = Fin 0
          \<and> calculateMovingAverage (map ds_qty series) 30 = Fin 0
          \<and> f_averageDailySales r = Fin 0
          \<and> f_trend r = Stable
          \<and> f_totalForecast r = Fin 0
          \<and> f_recommendedRestock r =
              Math_max (Fin 0) (Fin 0 - f_currentStock r
                + Math_ceil (Fin 0 * nullish safetyDays (Fin 7)))
          \<and> (js_gt (f_currentStock r) (Fin 0) \<longrightarrow> f_recommendedRestock r = Fin 0)
          \<and> ((\<forall>ing \<in> set (p_ingredients product). \<forall>material.
                 find (\<lambda>m. m_id m = i_materialId ing) materials = Some material \<longrightarrow>
                 js_ge (m_stockAmount material) (Fin 0) \<and> js_gt (i_quantity ing) (Fin 0))
               \<and> js_ge (p_yieldPerBatch product) (Fin 0)
               \<longrightarrow> f_recommendedRestock r = Fin 0)"
proof -
  obtain r series where r:
    "calculateForecast (Some t) tz products allSales materials productId
            horizonDays safetyDays = Inr (Some r)"
    "dailySeries tz (Some t) allSales productId = Inr series"
    "calculateMovingAverage (map ds_qty series) 7 = Fin 0"
    "calculateMovingAverage (map ds_qty series) 30 = Fin 0"
    "f_averageDailySales r = Fin 0" "f_trend r = Stable" "f_totalForecast r = Fin 0"
    "f_currentStock r = currentStock materials product"
    "f_recommendedRestock r =
       Math_max (Fin 0) (Fin 0 - f_currentStock r
         + Math_ceil (Fin 0 * nullish safetyDays (Fin 7)))"
    using calculateForecast_no_sales [OF assms(1,3,4,2), of materials safetyDays] by blast
  have a: "f_recommendedRestock r = Fin 0" if "js_gt (f_currentStock r) (Fin 0)"
    unfolding r(9) using that assms(5) by (rule restock_zero)
  have b: "f_recommendedRestock r = Fin 0"
    if "(\<forall>ing \<in> set (p_ingredients product). \<forall>material.
                 find (\<lambda>m. m_id m = i_materialId ing) materials = Some material \<longrightarrow>
                 js_ge (m_stockAmount material) (Fin 0) \<and> js_gt (i_quantity ing) (Fin 0))
               \<and> js_ge (p_yieldPerBatch product) (Fin 0)"
  proof -
    have "nonNegative (stockSum materials product)"
      using that by (intro nonNegative_stockSum) blast+
    then have "js_gt (f_currentStock r) (Fin 0)"
      unfolding r(8) by (rule currentStock_positive)
    then show ?thesis by (rule a)
  qed
  show ?thesis
    using r(1-7,9) a b by blast
qed

theorem C6_no_sales_forecast_witness:
  "\<exists>r series. calculateForecast (Some exNow) exZone
        [exProduct (Fin 10) [exIngredient ''m1'' (Fin 100)]]
        [exSale (exNow - 100 * msPerDay) (Fin 5)] [exFlour] ''p1'' None None = Inr (Some r)
      \<and> dailySeries exZone (Some exNow) [exSale (exNow - 100 * msPerDay) (Fin 5)] ''p1''
          = Inr series
      \<and> calculateMovingAverage (map ds_qty series) 7 = Fin 0
      \<and> calculateMovingAverage (map ds_qty series) 30 = Fin 0
      \<and> f_averageDailySales r = Fin 0
      \<and> f_trend r = Stable
      \<and> f_totalForecast r = Fin 0
      \<and> f_recommendedRestock r = Fin 0"
proof -
  let ?p = "exProduct (Fin 10) [exIngredient ''m1'' (Fin 100)]"
  let ?sales = "[exSale (exNow - 100 * msPerDay) (Fin 5)]"
  have some: "find (\<lambda>p. p_id p = ''p1'') [?p] = Some ?p"
    by (simp add: exProduct_def)
  have empty: "recentSales exZone (Some exNow) ?sales ''p1'' = []"
    by (simp add: recentSales_def exSale_def exNow_def msPerDay_def maxTime_def addDays_def
        UTC_def LocalTime_def LocalTZA_def exZone_def fixedZone_def
        TimeClip_def timeValue_def js_ge_def Let_def)
  have h: "isFinite (nullish None (Fin 30))"
    "datesInRange exNow \<lfloor>realOf (nullish None (Fin 30))\<rfloor>"
    "isFinite (nullish None (Fin 7))"
    using exNow_inRange by (simp_all add: nullish_def)
  have inputs: "(\<forall>ing \<in> set (p_ingredients ?p). \<forall>material.
                 find (\<lambda>m. m_id m = i_materialId ing) [exFlour] = Some material \<longrightarrow>
                 js_ge (m_stockAmount material) (Fin 0) \<and> js_gt (i_quantity ing) (Fin 0))
               \<and> js_ge (p_yieldPerBatch ?p) (Fin 0)"
    by (auto simp: ex_defs js_ge_def js_gt_def)
  show ?thesis
    using C6_no_sales_forecast [OF some empty h, of "[exFlour]"] inputs
    by blast
qed

subsection \<open>The placeholder for the current stock\<close>

lemma zero_times_falsy:
  "Fin 0 * y = Fin 0 \<or> Fin 0 * y = NegZero \<or> Fin 0 * y = NaN"
  by (cases y) (simp_all add: times_jsnum_def js_mul_def signedZero_def isZero_def)

lemma zero_times_finite:
  "isFinite y \<Longrightarrow> Fin 0 * y = Fin 0 \<or> Fin 0 * y = NegZero"
  by (cases y) (simp_all add: times_jsnum_def js_mul_def signedZero_def)

lemma stockStep_falsy:
  assumes "acc = Fin 0 \<or> acc = NaN"
    and "\<forall>material. find (\<lambda>m. m_id m = i_materialId ing) materials = Some material \<longrightarrow>
           Math_floor (m_stockAmount material / i_quantity ing) = Fin 0"
  shows "stockStep materials product acc ing = Fin 0
       \<or> stockStep materials product acc ing = NaN"
proof (cases "find (\<lambda>m. m_id m = i_materialId ing) materials")
  case None
  then show ?thesis using assms(1) by (simp add: stockStep_def)
next
  case (Some material)
  then have "stockStep materials product acc ing = acc + Fin 0 * p_yieldPerBatch product"
    using assms(2) by (simp add: stockStep_def)
  then show ?thesis
    using assms(1) zero_times_falsy [of "p_yieldPerBatch product"] by auto
qed

lemma stockStep_zero:
  assumes "isFinite (p_yieldPerBatch product)"
    and "\<forall>material. find (\<lambda>m. m_id m = i_materialId ing) materials = Some material \<longrightarrow>
           Math_floor (m_stockAmount material / i_quantity ing) = Fin 0"
  shows "stockStep materials product (Fin 0) ing = Fin 0"
proof (cases "find (\<lambda>m. m_id m = i_materialId ing) materials")
  case None
  then show ?thesis by (simp add: stockStep_def)
next
  case (Some material)
  then have "stockStep materials product (Fin 0) ing = Fin 0 + Fin 0 * p_yieldPerBatch product"
    using assms(2) by (simp add: stockStep_def)
  then show ?thesis
    using zero_times_finite [OF assms(1)] by auto
qed

lemma stockSum_falsy:
  assumes "\<forall>ing \<in> set (p_ingredients product). \<forall>material.
             find (\<lambda>m. m_id m = i_materialId ing) materials = Some material \<longrightarrow>
             Math_floor (m_stockAmount material / i_quantity ing) = Fin 0"
  shows "stockSum materials product = Fin 0 \<or> stockSum materials product = NaN"
proof -
  have "foldl (stockStep materials product) acc ings = Fin 0
      \<or> foldl (stockStep materials product) acc ings = NaN"
    if "acc = Fin 0 \<or> acc = NaN" "set ings \<subseteq> set (p_ingredients product)" for acc ings
    using that
  proof (induction ings arbitrary: acc)
    case Nil
    then show ?case by simp
  next
    case (Cons ing ings)
    have "\<forall>material. find (\<lambda>m. m_id m = i_materialId ing) materials = Some material \<longrightarrow>
           Math_floor (m_stockAmount material / i_quantity ing) = Fin 0"
      using assms Cons.prems(2) by (meson list.set_intros(1) subsetD)
    then have "stockStep materials product acc ing = Fin 0
       \<or> stockStep materials product acc ing = NaN"
      by (rule stockStep_falsy [OF Cons.prems(1)])
    then show ?case using Cons by simp
  qed
  then show ?thesis by (simp add: stockSum_def)
qed

lemma stockSum_zero:
  assumes "\<forall>ing \<in> set (p_ingredients product). \<forall>material.
             find (\<lambda>m. m_id m = i_materialId ing) materials = Some material \<longrightarrow>
             Math_floor (m_stockAmount material / i_quantity ing) = Fin 0"
    and "isFinite (p_yieldPerBatch product)"
  shows "stockSum materials product = Fin 0"
proof -
  have "foldl (stockStep materials product) (Fin 0) ings = Fin 0"
    if "set ings \<subseteq> set (p_ingredients product)" for ings
    using that
  proof (induction ings)
    case Nil
    then show ?case by simp
  next
    case (Cons ing ings)
    have "\<forall>material. find (\<lambda>m. m_id m = i_materialId ing) materials = Some material \<longrightarrow>
           Math_floor (m_stockAmount material / i_quantity ing) = Fin 0"
      using assms(1) Cons.prems by (meson list.set_intros(1) subsetD)
    then have "stockStep materials product (Fin 0) ing = Fin 0"
      by (rule stockStep_zero [OF assms(2)])
    then show ?case using Cons by simp
  qed
  then show ?thesis by (simp add: stockSum_def)
qed

lemma stockSum_unresolved:
  assumes "\<forall>ing \<in> set (p_ingredients product).
             find (\<lambda>m. m_id m = i_materialId ing) materials = None"
  shows "stockSum materials product = Fin 0"
proof -
  have "foldl (stockStep materials product) acc ings = acc"
    if "set ings \<subseteq> set (p_ingredients product)" for acc ings
    using that assms by (induction ings arbitrary: acc) (auto simp: stockStep_def)
  then show ?thesis by (simp add: stockSum_def)
qed

lemma calculateForecast_currentStock:
  assumes "find (\<lambda>p. p_id p = productId) products = Some product"
    and "calculateForecast now tz products allSales materials productId horizonDays safetyDays
           = Inr (Some r)"
  shows "f_currentStock r = currentStock materials product"
  using assms by (auto simp: calculateForecast_def Let_def split: sum.splits)

text \<open>
  C10.  The current stock is the reduction over the ingredients, or 100 when that
  reduction is falsy.  So it is 100 whenever the reduction evaluates to 0, for instance
  when no ingredient's material resolves, or when every resolved ingredient's stock
  supports zero whole batches (the reduction is then 0 for a finite yield); it is never
  reported as 0, and it is the \<^verbatim>\<open>currentStock\<close> field of the result.
\<close>

theorem C10_current_stock_placeholder:
  "(stockSum materials product = Fin 0 \<longrightarrow> currentStock materials product = Fin 100)
   \<and> ((\<forall>ing \<in> set (p_ingredients product).
          find (\<lambda>m. m_id m = i_materialId ing) materials = None) \<longrightarrow>
        stockSum materials product = Fin 0 \<and> currentStock materials product = Fin 100)
   \<and> ((\<forall>ing \<in> set (p_ingredients product). \<forall>material.
          find (\<lambda>m. m_id m = i_materialId ing) materials = Some material \<longrightarrow>
          Math_floor (m_stockAmount material / i_quantity ing) = Fin 0) \<longrightarrow>
        currentStock materials product = Fin 100
        \<and> (isFinite (p_yieldPerBatch product) \<longrightarrow> stockSum materials product = Fin 0))
   \<and> currentStock materials product \<noteq> Fin 0
   \<and> (find (\<lambda>p. p_id p = productId) products = Some product
        \<and> calculateForecast now tz products allSales materials productId horizonDays
             safetyDays = Inr (Some r) \<longrightarrow>
        f_currentStock r = currentStock materials product)"
proof (intro conjI impI)
  assume "stockSum materials product = Fin 0"
  then show "currentStock materials product = Fin 100"
    by (simp add: currentStock_def js_or_def isZero_def)
next
  assume a: "\<forall>ing \<in> set (p_ingredients product).
          find (\<lambda>m. m_id m = i_materialId ing) materials = None"
  then show "stockSum materials product = Fin 0" by (rule stockSum_unresolved)
  then show "currentStock materials product = Fin 100"
    by (simp add: currentStock_def js_or_def isZero_def)
next
  assume a: "\<forall>ing \<in> set (p_ingredients product). \<forall>material.
          find (\<lambda>m. m_id m = i_materialId ing) materials = Some material \<longrightarrow>
          Math_floor (m_stockAmount material / i_quantity ing) = Fin 0"
  from stockSum_falsy [OF a] show "currentStock materials product = Fin 100"
    by (auto simp: currentStock_def js_or_def isZero_def)
  assume "isFinite (p_yieldPerBatch product)"
  with a show "stockSum materials product = Fin 0" by (rule stockSum_zero)
next
  show "currentStock materials product \<noteq> Fin 0"
    by (cases "stockSum materials product")
      (simp_all add: currentStock_def js_or_def isZero_def)
next
  assume "find (\<lambda>p. p_id p = productId) products = Some product
        \<and> calculateForecast now tz products allSales materials productId horizonDays
             safetyDays = Inr (Some r)"
  then show "f_currentStock r = currentStock materials product"
    using calculateForecast_currentStock by blast
qed

theorem C10_current_stock_placeholder_witness:
  "stockSum [exFlour] (exProduct (Fin 10) [exIngredient ''m9'' (Fin 5)]) = Fin 0
   \<and> currentStock [exFlour] (exProduct (Fin 10) [exIngredient ''m9'' (Fin 5)]) = Fin 100
   \<and> currentStock [exFlour] (exProduct (Fin 10) [exIngredient ''m1'' (Fin 6000)]) = Fin 100
   \<and> currentStock [exFlour] (exProduct (Fin 10) [exIngredient ''m1'' (Fin 100)]) = Fin 500
   \<and> (\<exists>r. calculateForecast (Some exNow) exZone
              [exProduct (Fin 10) [exIngredient ''m1'' (Fin 6000)]] []
              [exFlour] ''p1'' None None = Inr (Some r)
         \<and> f_currentStock r = Fin 100)"
proof -
  let ?u = "exProduct (Fin 10) [exIngredient ''m9'' (Fin 5)]"
  let ?z = "exProduct (Fin 10) [exIngredient ''m1'' (Fin 6000)]"
  have unresolved: "\<forall>ing \<in> set (p_ingredients ?u).
      find (\<lambda>m. m_id m = i_materialId ing) [exFlour] = None"
    by (simp add: ex_defs)
  have nobatch: "\<forall>ing \<in> set (p_ingredients ?z). \<forall>material.
          find (\<lambda>m. m_id m = i_materialId ing) [exFlour] = Some material \<longrightarrow>
          Math_floor (m_stockAmount material / i_quantity ing) = Fin 0"
    by (simp add: ex_defs num_eval)
  have some: "find (\<lambda>p. p_id p = ''p1'') [?z] = Some ?z"
    by (simp add: exProduct_def)
  have h: "isFinite (nullish None (Fin 30))"
    "datesInRange exNow \<lfloor>realOf (nullish None (Fin 30))\<rfloor>"
    using exNow_inRange by (simp_all add: nullish_def)
  obtain r where r: "calculateForecast (Some exNow) exZone [?z] [] [exFlour] ''p1'' None None
      = Inr (Some r)"
    using calculateForecast_returns [OF some h, of exZone "[]" "[exFlour]" None]
    by blast
  have a: "stockSum [exFlour] ?u = Fin 0 \<and> currentStock [exFlour] ?u = Fin 100"
    using C10_current_stock_placeholder [of "[exFlour]" ?u] unresolved by blast
  have b: "currentStock [exFlour] ?z = Fin 100"
    using C10_current_stock_placeholder [of "[exFlour]" ?z] nobatch by blast
  have c: "f_currentStock r = currentStock [exFlour] ?z"
    using C10_current_stock_placeholder [of "[exFlour]" ?z "''p1''" "[?z]" "Some exNow" exZone
        "[]" None None r] some r by blast
  have d: "currentStock [exFlour] (exProduct (Fin 10) [exIngredient ''m1'' (Fin 100)])
      = Fin 500"
    by (simp add: currentStock_def stockSum_def stockStep_def js_or_def isZero_def ex_defs
        num_eval)
  show ?thesis
    using a b c d r by auto
qed

section \<open>Further properties\<close>

subsection \<open>Costing\<close>

text \<open>
  X1.  For a product with an empty ingredient list the materials total is 0, there is no
  cost line, and the HPP per unit is the labor cost plus the overhead cost.
\<close>

theorem X1_empty_ingredient_list:
  assumes "p_ingredients product = []"
  shows "(let b = h_breakdown (calculateHPP now materials overheads laborRates product overrides)
          in b_materialsTotal b = Fin 0 \<and> b_materialDetails b = []
           \<and> b_hppPerUnit b = Fin 0 + b_laborCost b + b_overheadCost b)"
  using assms by (simp add: calculateHPP_def materialsTotal_def materialDetails_def Let_def)

theorem X1_empty_ingredient_list_witness:
  "(let b = h_breakdown (calculateHPP (Some 0) [exFlour] [exOverhead Fixed (Fin 500000)]
              [exBaker] (exProduct (Fin 10) []) noOverrides)
    in b_materialsTotal b = Fin 0 \<and> b_materialDetails b = []
     \<and> b_hppPerUnit b = Fin 0 + b_laborCost b + b_overheadCost b)"
  by (rule X1_empty_ingredient_list) (simp add: exProduct_def)

text \<open>
  X2.  The reference costing of the specification: 100 g of flour at 12 per gram with
  yield 10, 30 labor minutes at 25000 per hour, one fixed overhead of 500000 spread over
  the default 500 units and the default margin of 30 percent give an HPP per unit of
  13620 and a suggested price of 19500.
\<close>

theorem X2_reference_costing:
  "calculateHPP (Some 0) [exFlour] [exOverhead Fixed (Fin 500000)] [exBaker]
     (exProduct (Fin 10) [exIngredient ''m1'' (Fin 100)]) noOverrides
   = \<lparr> h_productId = ''p1'', h_productName = ''Brownies'', h_computedAt = Some 0,
       h_breakdown =
         \<lparr> b_materialsTotal = Fin 120,
           b_materialDetails =
             [\<lparr> d_name = ''Tepung Terigu'', d_quantity = Fin 10, d_unit = Unit_g,
                d_pricePerUnit = Fin 12, d_total = Fin 120 \<rparr>],
           b_laborCost = Fin 12500, b_overheadCost = Fin 1000, b_hppPerUnit = Fin 13620 \<rparr>,
       h_suggestedPrice = Fin 19500, h_marginPercent = Fin 30 \<rparr>"
  by (simp add: hpp_defs ex_defs num_eval)


text \<open>
  X3.  The moving average on three short series: with at least \<open>window\<close> values it is the
  rounded mean of the last \<open>window\<close> values (11 / 3 rounded to the nearest binary64 number
  for the last three of 1, 2, 3, 6); with fewer values it is the mean of all of them; and
  a mean that is zero or \<open>NaN\<close>, as for the empty series, is replaced by 0.
\<close>

theorem X3_moving_average_examples:
  "calculateMovingAverage [Fin 1, Fin 2, Fin 3, Fin 6] 3 = Fin (8256599316845909 / 2 ^ 51)
   \<and> calculateMovingAverage [Fin 1, Fin 2] 7 = Fin (3 / 2)
   \<and> calculateMovingAverage [] 7 = Fin 0
   \<and> calculateMovingAverage [Fin 0, NegZero] 7 = Fin 0"
  by (simp add: calculateMovingAverage_def Let_def js_or_def isZero_def num_eval)

text \<open>
  X4.  For fewer than two points the regression returns slope 0 and intercept 0.
\<close>

theorem X4_regression_few_points:
  "length data < 2 \<Longrightarrow> linearRegression data = \<lparr> lr_slope = Fin 0, lr_intercept = Fin 0 \<rparr>"
  by (simp add: linearRegression_def)

theorem X4_regression_few_points_witness:
  "length [(Fin 3, Fin 8)] < 2
   \<and> linearRegression [(Fin 3, Fin 8)] = \<lparr> lr_slope = Fin 0, lr_intercept = Fin 0 \<rparr>"
  using X4_regression_few_points [of "[(Fin 3, Fin 8)]"] by simp

text \<open>
  X5.  On the 90-day series in which day \<open>i\<close> has quantity \<open>i\<close> every sum of the
  regression is an integer below \<open>2 ^ 53\<close> and hence exact: the slope is 1 and the
  intercept 0, the 30-day moving average is 74.5, and the trend percent
  \<open>slope / max (ma30, 1) * 100 * 30\<close> exceeds 5, so the trend is classified as up.
\<close>

theorem X5_increasing_series_trend:
  "linearRegression (map (\<lambda>i. (Fin (real i), Fin (real i))) [0..<90])
     = \<lparr> lr_slope = Fin 1, lr_intercept = Fin 0 \<rparr>
   \<and> calculateMovingAverage (map (\<lambda>i. Fin (real i)) [0..<90]) 30 = Fin (149 / 2)
   \<and> js_gt ((Fin 1 / Math_max (Fin (149 / 2)) (Fin 1)) * Fin 100 * Fin 30) (Fin 5)"
  by (simp add: linearRegression_def calculateMovingAverage_def upt_rec Let_def js_gt_def
      Math_max_def num_eval)
end
